(* ===== verification/Prelude.thy ===== *)
theory Prelude
  imports Main "HOL-Library.Word" "HOL-Library.Char_ord" "HOL-Library.List_Lexorder"
begin

text \<open>
  Shared vocabulary of the development: Go strings as byte lists, the 64-bit
  integers behind \<open>int64\<close> and \<open>time.Duration\<close>, instants as integers of
  nanoseconds, the operations of the Go standard library packages \<open>strings\<close> and
  \<open>time\<close> that the components call, and the lemma collections the component
  proofs draw on.
\<close>

section \<open>Lemma collections\<close>

named_theorems go_defs \<open>definitions of the modelled standard library operations\<close>
named_theorems result_splits \<open>case splits over error and optional results\<close>

declare sum.splits [result_splits] option.splits [result_splits] if_splits [result_splits]
  prod.splits [result_splits]

section \<open>Strings\<close>

text \<open>
  A Go string is a sequence of bytes; so is an Isabelle \<open>string\<close>, since a
  \<open>char\<close> is eight bits wide. The library's lexicographic order on \<open>char list\<close>
  is the byte order of Go's \<open><\<close> on strings.
\<close>

definition HasPrefix :: "string \<Rightarrow> string \<Rightarrow> bool" where
  [go_defs]: "HasPrefix s p \<longleftrightarrow> take (length p) s = p"

definition HasSuffix :: "string \<Rightarrow> string \<Rightarrow> bool" where
  [go_defs]: "HasSuffix s p \<longleftrightarrow> length p \<le> length s \<and> drop (length s - length p) s = p"

definition TrimPrefix :: "string \<Rightarrow> string \<Rightarrow> string" where
  [go_defs]: "TrimPrefix s p = (if HasPrefix s p then drop (length p) s else s)"

definition TrimSuffix :: "string \<Rightarrow> string \<Rightarrow> string" where
  [go_defs]: "TrimSuffix s p = (if HasSuffix s p then take (length s - length p) s else s)"

lemma HasPrefix_append [simp]: "HasPrefix (p @ s) p"
  by (simp add: HasPrefix_def)

lemma HasPrefixD: "HasPrefix s p \<Longrightarrow> s = p @ drop (length p) s"
  by (metis HasPrefix_def append_take_drop_id)

lemma TrimPrefix_append [simp]: "TrimPrefix (p @ s) p = s"
  by (simp add: TrimPrefix_def)

lemma HasSuffix_append [simp]: "HasSuffix (s @ p) p"
  by (simp add: HasSuffix_def)

lemma HasSuffixD: "HasSuffix s p \<Longrightarrow> s = take (length s - length p) s @ p"
  by (metis HasSuffix_def append_take_drop_id)

lemma TrimSuffix_append [simp]: "TrimSuffix (s @ p) p = s"
  by (simp add: TrimSuffix_def)

text \<open>\<open>strings.Split\<close> with a separator of one byte: always at least one part.\<close>

fun Split :: "string \<Rightarrow> char \<Rightarrow> string list" where
  "Split [] sep = [[]]"
| "Split (c # cs) sep =
     (if c = sep then [] # Split cs sep
      else (case Split cs sep of [] \<Rightarrow> [[c]] | p # ps \<Rightarrow> (c # p) # ps))"

lemma Split_not_Nil [simp]: "Split s sep \<noteq> []"
  by (cases s) (auto split: list.splits)

lemma Split_no_sep: "sep \<notin> set s \<Longrightarrow> Split s sep = [s]"
  by (induction s) auto

lemma Split_append_sep: "sep \<notin> set a \<Longrightarrow> Split (a @ sep # b) sep = a # Split b sep"
  by (induction a) auto

lemma Split_parts_no_sep: "p \<in> set (Split s sep) \<Longrightarrow> sep \<notin> set p"
proof (induction s arbitrary: p)
  case (Cons c cs)
  obtain q qs where q: "Split cs sep = q # qs" by (meson Split_not_Nil neq_Nil_conv)
  show ?case using Cons q by (auto split: if_splits)
qed simp

text \<open>\<open>strings.Join\<close> with a one-byte or longer separator.\<close>

fun Join :: "string list \<Rightarrow> string \<Rightarrow> string" where
  "Join [] sep = []"
| "Join [s] sep = s"
| "Join (s # t # ss) sep = s @ sep @ Join (t # ss) sep"

lemma Join_Split: "Join (Split s sep) [sep] = s"
proof (induction s)
  case (Cons c cs)
  obtain p ps where p: "Split cs sep = p # ps" by (meson Split_not_Nil neq_Nil_conv)
  show ?case using Cons p by (cases ps) auto
qed simp

text \<open>
  \<open>strings.TrimSpace\<close> removes the runes of \<open>unicode.IsSpace\<close>, here as their UTF-8
  encodings, at both ends.
\<close>

definition space_runes :: "string list" where
  "space_runes =
     [[CHR 0x09], [CHR 0x0A], [CHR 0x0B], [CHR 0x0C], [CHR 0x0D], [CHR 0x20], [CHR 0xC2, CHR 0x85], [CHR 0xC2, CHR 0xA0],
      [CHR 0xE1, CHR 0x9A, CHR 0x80], [CHR 0xE2, CHR 0x80, CHR 0x80], [CHR 0xE2, CHR 0x80, CHR 0x81], [CHR 0xE2, CHR 0x80, CHR 0x82],
      [CHR 0xE2, CHR 0x80, CHR 0x83], [CHR 0xE2, CHR 0x80, CHR 0x84], [CHR 0xE2, CHR 0x80, CHR 0x85], [CHR 0xE2, CHR 0x80, CHR 0x86],
      [CHR 0xE2, CHR 0x80, CHR 0x87], [CHR 0xE2, CHR 0x80, CHR 0x88], [CHR 0xE2, CHR 0x80, CHR 0x89], [CHR 0xE2, CHR 0x80, CHR 0x8A],
      [CHR 0xE2, CHR 0x80, CHR 0xA8], [CHR 0xE2, CHR 0x80, CHR 0xA9], [CHR 0xE2, CHR 0x80, CHR 0xAF], [CHR 0xE2, CHR 0x81, CHR 0x9F],
      [CHR 0xE3, CHR 0x80, CHR 0x80]]"

fun strip_front :: "string list \<Rightarrow> nat \<Rightarrow> string \<Rightarrow> string" where
  "strip_front rs 0 s = s"
| "strip_front rs (Suc n) s =
     (case find (\<lambda>r. HasPrefix s r) rs of
        None \<Rightarrow> s
      | Some r \<Rightarrow> strip_front rs n (drop (length r) s))"

text \<open>
  Each round removes at least one byte, so as many rounds as the string has bytes are
  enough (\<open>strip_front_stops\<close> below).
\<close>

definition TrimSpace :: "string \<Rightarrow> string" where
  "TrimSpace s =
     (let l = strip_front space_runes (length s) s
      in rev (strip_front (map rev space_runes) (length l) (rev l)))"

lemma strip_front_stops:
  assumes "[] \<notin> set rs" and "length s \<le> n"
  shows "find (\<lambda>r. HasPrefix (strip_front rs n s) r) rs = None"
  using assms
proof (induction rs n s rule: strip_front.induct)
  case (1 rs s)
  then show ?case by (auto simp: find_None_iff HasPrefix_def)
next
  case (2 rs n s)
  show ?case
  proof (cases "find (\<lambda>r. HasPrefix s r) rs")
    case None
    then show ?thesis by simp
  next
    case (Some r)
    then have r: "r \<in> set rs" "HasPrefix s r" by (auto simp: find_Some_iff)
    with "2.prems"(1) have "r \<noteq> []" by auto
    with r(2) have "length (drop (length r) s) < length s"
      by (cases s; cases r) (auto simp: HasPrefix_def)
    with "2.prems" have "length (drop (length r) s) \<le> n" by linarith
    with "2.IH"[OF Some "2.prems"(1)] Some show ?thesis by simp
  qed
qed

lemma strip_front_suffix: "\<exists>p. s = p @ strip_front rs n s"
proof (induction rs n s rule: strip_front.induct)
  case (2 rs n s)
  show ?case
  proof (cases "find (\<lambda>r. HasPrefix s r) rs")
    case (Some r)
    then have "HasPrefix s r" by (auto simp: find_Some_iff)
    moreover from "2"[OF Some] obtain q where
      "drop (length r) s = q @ strip_front rs n (drop (length r) s)" by blast
    ultimately have "s = (r @ q) @ strip_front rs n (drop (length r) s)"
      using HasPrefixD by fastforce
    with Some have "s = (r @ q) @ strip_front rs (Suc n) s" by simp
    then show ?thesis by (rule exI)
  qed simp
qed simp

lemma TrimSpace_set: "set (TrimSpace s) \<subseteq> set s"
proof -
  obtain p where p: "s = p @ strip_front space_runes (length s) s"
    using strip_front_suffix by blast
  let ?l = "strip_front space_runes (length s) s"
  obtain q where q: "rev ?l = q @ strip_front (map rev space_runes) (length ?l) (rev ?l)"
    using strip_front_suffix by blast
  have "set ?l \<subseteq> set s" by (subst (2) p) auto
  moreover have "set (strip_front (map rev space_runes) (length ?l) (rev ?l)) \<subseteq> set ?l"
    by (metis q set_append set_rev Un_upper2)
  ultimately show ?thesis unfolding TrimSpace_def Let_def set_rev by blast
qed

section \<open>64-bit integers, durations and instants\<close>

text \<open>
  \<open>int64\<close> and \<open>time.Duration\<close> are 64-bit two's complement words: \<open>+\<close>, \<open>-\<close> and
  \<open>*\<close> wrap around and \<open>sint\<close> reads the value. An instant of \<open>time.Time\<close> is the
  integer number of nanoseconds since the Unix epoch; \<open>Time_Sub\<close> saturates at the bounds
  of a duration, as \<open>Time.Sub\<close> does. The range of \<open>time.Time\<close> itself (hundreds of
  billions of years) is not bounded in the model.
\<close>

type_synonym int64 = "64 word"
type_synonym duration = int64
type_synonym time = int

definition Second :: duration where [go_defs]: "Second = 1000000000"
definition Minute :: duration where [go_defs]: "Minute = 60 * Second"
definition Hour :: duration where [go_defs]: "Hour = 60 * Minute"

definition zeroTime :: time where
  "zeroTime = - 62135596800 * 1000000000"

definition IsZero :: "time \<Rightarrow> bool" where
  "IsZero t \<longleftrightarrow> t = zeroTime"

definition Time_Add :: "time \<Rightarrow> duration \<Rightarrow> time" where
  [go_defs]: "Time_Add t d = t + sint d"

definition Time_Sub :: "time \<Rightarrow> time \<Rightarrow> duration" where
  "Time_Sub t u = (let d = t - u in
     if d > 2 ^ 63 - 1 then of_int (2 ^ 63 - 1)
     else if d < - (2 ^ 63) then of_int (- (2 ^ 63))
     else of_int d)"

definition Time_Unix :: "time \<Rightarrow> int64" where
  "Time_Unix t = of_int (t div 1000000000)"

lemma sint_Second [simp]: "sint Second = 1000000000"
  by (simp add: Second_def)

lemma sint_Minute [simp]: "sint Minute = 60000000000"
  by (simp add: Minute_def Second_def)

lemma sint_Hour [simp]: "sint Hour = 3600000000000"
  by (simp add: Hour_def Minute_def Second_def)

lemma sint64_lower: "- (2 ^ 63) \<le> sint (w :: int64)"
  using sint_greater_eq[of w] by simp

lemma sint64_upper: "sint (w :: int64) < 2 ^ 63"
  using sint_lt[of w] by simp

lemma sint_of_int64: "- (2 ^ 63) \<le> i \<Longrightarrow> i < 2 ^ 63 \<Longrightarrow> sint (of_int i :: int64) = i"
  by (simp add: sint_sbintrunc' signed_take_bit_int_eq_self)

lemma sint_Time_Sub:
  "sint (Time_Sub t u) = max (- (2 ^ 63)) (min (2 ^ 63 - 1) (t - u))"
proof -
  define d where "d = t - u"
  have "sint (Time_Sub t u) = max (- (2 ^ 63)) (min (2 ^ 63 - 1) d)"
    unfolding Time_Sub_def Let_def d_def[symmetric]
    by (auto simp: sint_of_int64 max_def min_def)
  then show ?thesis by (simp add: d_def)
qed

lemma Time_Sub_Add: "Time_Sub (Time_Add t d) t = d"
  using sint64_lower[of d] sint64_upper[of d]
  by (simp add: Time_Sub_def Time_Add_def Let_def)

text \<open>
  Multiplying a number of seconds by \<open>Second\<close> agrees with the integers as long as the
  product fits.
\<close>

lemma sint_times_Second:
  assumes "\<bar>sint (n :: int64)\<bar> \<le> 9223372036"
  shows "sint (n * Second) = sint n * 1000000000"
proof -
  have "n * Second = of_int (sint n * 1000000000)"
    by (simp add: Second_def)
  moreover from assms have "- (2 ^ 63) \<le> sint n * 1000000000" "sint n * 1000000000 < 2 ^ 63"
    by simp_all
  ultimately show ?thesis using sint_of_int64 by metis
qed

section \<open>Dictionaries with a zero value\<close>

text \<open>Indexing a Go map yields the zero value of the element type at a missing key.\<close>

type_synonym smap = "string \<rightharpoonup> string"

definition mapGet :: "smap \<Rightarrow> string \<Rightarrow> string" where
  [go_defs]: "mapGet m k = (case m k of None \<Rightarrow> '''' | Some v \<Rightarrow> v)"

end
