(* ===== verification/Kube.thy ===== *)
theory Kube
  imports Prelude
begin

text \<open>
  The Oubliette custom resource of \<open>api/v1alpha1/oubliette_types.go\<close> and the part of the
  Kubernetes libraries the components call. The libraries are not part of the repository:
  the API client and the condition helpers of \<open>apimachinery/pkg/api/meta\<close> are records of
  functions, arguments of every definition that calls them, and what the components rely
  on is stated as predicates over those records (\<open>condition_laws\<close>, \<open>object_laws\<close>),
  hypotheses of the theorems that need them. \<open>listmeta\<close> and \<open>memclient\<close> are concrete
  instances that show the predicates can hold.
\<close>

section \<open>The resource\<close>

definition TierStub :: string where "TierStub = ''stub''"

definition CallerDigestAnnotation :: string where
  "CallerDigestAnnotation = ''oubliette.tlrmchlsmth.github.io/caller-digest''"

definition ConditionProvisioned :: string where "ConditionProvisioned = ''Provisioned''"
definition ConditionReady :: string where "ConditionReady = ''Ready''"
definition ConditionMetricsReady :: string where "ConditionMetricsReady = ''MetricsReady''"
definition ConditionExpiring :: string where "ConditionExpiring = ''Expiring''"
definition ConditionForgotten :: string where "ConditionForgotten = ''Forgotten''"

lemmas condition_names = ConditionProvisioned_def ConditionReady_def ConditionMetricsReady_def
  ConditionExpiring_def ConditionForgotten_def

definition ConditionTrue :: string where "ConditionTrue = ''True''"
definition ConditionFalse :: string where "ConditionFalse = ''False''"

record condition =
  c_Type :: string
  c_Status :: string
  c_ObservedGeneration :: int
  c_LastTransitionTime :: time
  c_Reason :: string
  c_Message :: string

record OublietteSpec =
  spec_Tier :: string
  spec_ExpiresAt :: time

record OublietteStatus =
  st_ObservedGeneration :: int
  st_HostNamespace :: string
  st_ProfileGeneration :: string
  st_VirtualEndpoint :: string
  st_MetricsEndpoint :: string
  st_MetricsProfileGeneration :: string
  st_MetricsIsolationScope :: string
  st_MetricsTrustDomain :: string
  st_ForgottenAt :: "time option"
  st_Conditions :: "condition list"

text \<open>
  \<open>Oubliette\<close> with the object metadata its clients read: a nil annotation map and a nil
  deletion timestamp are \<open>None\<close>.
\<close>

record Oubliette =
  o_Name :: string
  o_UID :: string
  o_Generation :: int
  o_Annotations :: "smap option"
  o_DeletionTimestamp :: "time option"
  o_Finalizers :: "string list"
  o_Spec :: OublietteSpec
  o_Status :: OublietteStatus

definition zeroStatus :: OublietteStatus where
  "zeroStatus = \<lparr>st_ObservedGeneration = 0, st_HostNamespace = '''', st_ProfileGeneration = '''',
     st_VirtualEndpoint = '''', st_MetricsEndpoint = '''', st_MetricsProfileGeneration = '''',
     st_MetricsIsolationScope = '''', st_MetricsTrustDomain = '''', st_ForgottenAt = None,
     st_Conditions = []\<rparr>"

text \<open>\<open>metav1.Time.IsZero\<close> on a possibly nil timestamp.\<close>

definition optIsZero :: "time option \<Rightarrow> bool" where
  "optIsZero t = (case t of None \<Rightarrow> True | Some x \<Rightarrow> IsZero x)"

text \<open>Reading an annotation of a possibly nil map.\<close>

definition annotation :: "Oubliette \<Rightarrow> string \<Rightarrow> string" where
  "annotation obj k = (case o_Annotations obj of None \<Rightarrow> '''' | Some m \<Rightarrow> mapGet m k)"

section \<open>Errors of the API\<close>

datatype api_err =
    NotFound string
  | AlreadyExists string
  | Conflict string
  | BadRequest string
  | ApiOther string

fun IsNotFound :: "api_err \<Rightarrow> bool" where
  "IsNotFound (NotFound _) = True"
| "IsNotFound _ = False"

fun IsAlreadyExists :: "api_err \<Rightarrow> bool" where
  "IsAlreadyExists (AlreadyExists _) = True"
| "IsAlreadyExists _ = False"

fun IsConflict :: "api_err \<Rightarrow> bool" where
  "IsConflict (Conflict _) = True"
| "IsConflict _ = False"

section \<open>The condition helpers\<close>

record apimeta =
  FindStatusCondition :: "condition list \<Rightarrow> string \<Rightarrow> condition option"
  IsStatusConditionTrue :: "condition list \<Rightarrow> string \<Rightarrow> bool"
  SetStatusCondition :: "condition list \<Rightarrow> condition \<Rightarrow> condition list"

text \<open>
  What the package documents: finding returns an element of the list with the type asked
  for, a condition is true when it is present with status \<open>True\<close>, and setting a condition
  leaves every other type alone and stores the new status, reason, message and observed
  generation under its own type. Transition times are the library's business.
\<close>

definition condition_laws :: "apimeta \<Rightarrow> bool" where
  "condition_laws am \<longleftrightarrow>
     (\<forall>cs t c. FindStatusCondition am cs t = Some c \<longrightarrow> c \<in> set cs \<and> c_Type c = t) \<and>
     (\<forall>cs t. IsStatusConditionTrue am cs t \<longleftrightarrow>
        (\<exists>c. FindStatusCondition am cs t = Some c \<and> c_Status c = ConditionTrue)) \<and>
     (\<forall>cs c. \<exists>c'. FindStatusCondition am (SetStatusCondition am cs c) (c_Type c) = Some c' \<and>
        c_Status c' = c_Status c \<and> c_Reason c' = c_Reason c \<and> c_Message c' = c_Message c \<and>
        c_ObservedGeneration c' = c_ObservedGeneration c) \<and>
     (\<forall>cs c t. t \<noteq> c_Type c \<longrightarrow>
        FindStatusCondition am (SetStatusCondition am cs c) t = FindStatusCondition am cs t)"

lemma find_condition_type:
  "condition_laws am \<Longrightarrow> FindStatusCondition am cs t = Some c \<Longrightarrow> c_Type c = t"
  by (auto simp: condition_laws_def)

lemma find_condition_Nil: "condition_laws am \<Longrightarrow> FindStatusCondition am [] t = None"
  unfolding condition_laws_def by (metis empty_iff list.set(1) not_Some_eq)

lemma condition_true_iff:
  "condition_laws am \<Longrightarrow> IsStatusConditionTrue am cs t \<longleftrightarrow>
     (\<exists>c. FindStatusCondition am cs t = Some c \<and> c_Status c = ConditionTrue)"
  by (simp add: condition_laws_def)

lemma set_condition_same:
  "condition_laws am \<Longrightarrow> \<exists>c'. FindStatusCondition am (SetStatusCondition am cs c) (c_Type c) = Some c'
     \<and> c_Status c' = c_Status c \<and> c_Reason c' = c_Reason c \<and> c_Message c' = c_Message c
     \<and> c_ObservedGeneration c' = c_ObservedGeneration c"
  by (simp add: condition_laws_def)

lemma set_condition_other:
  "condition_laws am \<Longrightarrow> t \<noteq> c_Type c \<Longrightarrow>
     FindStatusCondition am (SetStatusCondition am cs c) t = FindStatusCondition am cs t"
  by (simp add: condition_laws_def)

lemma true_set_same:
  "condition_laws am \<Longrightarrow> IsStatusConditionTrue am (SetStatusCondition am cs c) (c_Type c)
     \<longleftrightarrow> c_Status c = ConditionTrue"
  using set_condition_same[of am cs c] by (auto simp: condition_true_iff)

lemma true_set_other:
  "condition_laws am \<Longrightarrow> t \<noteq> c_Type c \<Longrightarrow>
     IsStatusConditionTrue am (SetStatusCondition am cs c) t = IsStatusConditionTrue am cs t"
  by (simp add: condition_true_iff set_condition_other)

text \<open>An instance over lists: the first condition of the type is replaced in place.\<close>

fun list_set :: "condition list \<Rightarrow> condition \<Rightarrow> condition list" where
  "list_set [] c = [c]"
| "list_set (d # ds) c = (if c_Type d = c_Type c then c # ds else d # list_set ds c)"

definition listmeta :: apimeta where
  "listmeta = \<lparr>FindStatusCondition = (\<lambda>cs t. find (\<lambda>c. c_Type c = t) cs),
     IsStatusConditionTrue = (\<lambda>cs t. case find (\<lambda>c. c_Type c = t) cs of
        None \<Rightarrow> False | Some c \<Rightarrow> c_Status c = ConditionTrue),
     SetStatusCondition = list_set\<rparr>"

lemma find_list_set:
  "find (\<lambda>d. c_Type d = t) (list_set cs c) =
     (if t = c_Type c then Some c else find (\<lambda>d. c_Type d = t) cs)"
  by (induction cs) auto

lemma find_type_Some: "find (\<lambda>c. c_Type c = t) cs = Some c \<Longrightarrow> c \<in> set cs \<and> c_Type c = t"
  by (auto simp: find_Some_iff)

lemma listmeta_laws: "condition_laws listmeta"
  by (auto simp: condition_laws_def listmeta_def find_list_set split: option.splits
      dest: find_type_Some)

section \<open>The object client\<close>

text \<open>
  A client over a cluster state \<open>'s\<close>: every call returns an error or a result and the
  state it leaves. \<open>Create\<close>, \<open>Update\<close> and the status patch overwrite the caller's object
  with the server's answer, so they return it. The status patch takes the object and the
  copy the merge patch is computed from.
\<close>

record 's oub_client =
  cl_Get :: "string \<Rightarrow> 's \<Rightarrow> (api_err + Oubliette) \<times> 's"
  cl_List :: "'s \<Rightarrow> (api_err + Oubliette list) \<times> 's"
  cl_Create :: "Oubliette \<Rightarrow> 's \<Rightarrow> (api_err + Oubliette) \<times> 's"
  cl_Update :: "Oubliette \<Rightarrow> 's \<Rightarrow> (api_err + Oubliette) \<times> 's"
  cl_Delete :: "Oubliette \<Rightarrow> 's \<Rightarrow> api_err option \<times> 's"
  cl_StatusPatch :: "Oubliette \<Rightarrow> Oubliette \<Rightarrow> 's \<Rightarrow> (api_err + Oubliette) \<times> 's"

text \<open>
  \<open>metav1.Time\<close> is transmitted with a precision of one second.
\<close>

definition truncSecond :: "time \<Rightarrow> time" where
  "truncSecond t = (t div 1000000000) * 1000000000"

lemma truncSecond_le: "truncSecond t \<le> t"
  using div_mult_mod_eq[of t 1000000000] pos_mod_sign[of 1000000000 t]
  by (simp add: truncSecond_def)

lemma truncSecond_gt: "t < truncSecond t + 1000000000"
  using div_mult_mod_eq[of t 1000000000] pos_mod_bound[of 1000000000 t]
  unfolding truncSecond_def by linarith

text \<open>
  The documented behaviour of a reachable API server for a cluster-scoped kind, with
  \<open>objs\<close> the objects stored in a state: reads do not change it, names are unique, an
  existing name is refused, and a write stores the metadata and specification it was
  given.
\<close>

definition object_laws :: "'s oub_client \<Rightarrow> ('s \<Rightarrow> string \<Rightarrow> Oubliette option) \<Rightarrow> bool" where
  "object_laws C objs \<longleftrightarrow>
     (\<forall>s n obj. objs s n = Some obj \<longrightarrow> o_Name obj = n) \<and>
     (\<forall>s n. cl_Get C n s = (case objs s n of None \<Rightarrow> Inl (NotFound n) | Some obj \<Rightarrow> Inr obj, s)) \<and>
     (\<forall>s. \<exists>xs. cl_List C s = (Inr xs, s) \<and> distinct (map o_Name xs) \<and>
        (\<forall>obj. obj \<in> set xs \<longleftrightarrow> objs s (o_Name obj) = Some obj)) \<and>
     (\<forall>s x. objs s (o_Name x) \<noteq> None \<longrightarrow> cl_Create C x s = (Inl (AlreadyExists (o_Name x)), s)) \<and>
     (\<forall>s x. objs s (o_Name x) = None \<longrightarrow> (\<exists>x' s'. cl_Create C x s = (Inr x', s') \<and>
        objs s' = (objs s)(o_Name x \<mapsto> x') \<and> o_Name x' = o_Name x \<and>
        o_Annotations x' = o_Annotations x \<and> o_DeletionTimestamp x' = None \<and>
        spec_Tier (o_Spec x') = spec_Tier (o_Spec x) \<and>
        spec_ExpiresAt (o_Spec x') = truncSecond (spec_ExpiresAt (o_Spec x)) \<and>
        o_Status x' = zeroStatus)) \<and>
     (\<forall>s x y. objs s (o_Name x) = Some y \<longrightarrow> (\<exists>x' s'. cl_Update C x s = (Inr x', s') \<and>
        objs s' = (objs s)(o_Name x \<mapsto> x') \<and> o_Name x' = o_Name x \<and>
        o_Annotations x' = o_Annotations x \<and>
        o_DeletionTimestamp x' = o_DeletionTimestamp y \<and>
        spec_Tier (o_Spec x') = spec_Tier (o_Spec x) \<and>
        spec_ExpiresAt (o_Spec x') = truncSecond (spec_ExpiresAt (o_Spec x)) \<and>
        o_Status x' = o_Status y))"

lemma object_laws_Get:
  "object_laws C objs \<Longrightarrow>
     cl_Get C n s = (case objs s n of None \<Rightarrow> Inl (NotFound n) | Some obj \<Rightarrow> Inr obj, s)"
  by (simp add: object_laws_def)

lemma object_laws_name:
  "object_laws C objs \<Longrightarrow> objs s n = Some obj \<Longrightarrow> o_Name obj = n"
  by (simp add: object_laws_def)

lemma object_laws_List:
  "object_laws C objs \<Longrightarrow> \<exists>xs. cl_List C s = (Inr xs, s) \<and> distinct (map o_Name xs) \<and>
     (\<forall>obj. obj \<in> set xs \<longleftrightarrow> objs s (o_Name obj) = Some obj)"
  unfolding object_laws_def by blast

lemma object_laws_Create_fresh:
  "object_laws C objs \<Longrightarrow> objs s (o_Name x) = None \<Longrightarrow> \<exists>x' s'. cl_Create C x s = (Inr x', s') \<and>
     objs s' = (objs s)(o_Name x \<mapsto> x') \<and> o_Name x' = o_Name x \<and>
     o_Annotations x' = o_Annotations x \<and> o_DeletionTimestamp x' = None \<and>
     spec_Tier (o_Spec x') = spec_Tier (o_Spec x) \<and>
     spec_ExpiresAt (o_Spec x') = truncSecond (spec_ExpiresAt (o_Spec x)) \<and>
     o_Status x' = zeroStatus"
  unfolding object_laws_def by blast

lemma object_laws_Create_taken:
  "object_laws C objs \<Longrightarrow> objs s (o_Name x) \<noteq> None \<Longrightarrow>
     cl_Create C x s = (Inl (AlreadyExists (o_Name x)), s)"
  unfolding object_laws_def by blast

lemma object_laws_Update:
  "object_laws C objs \<Longrightarrow> objs s (o_Name x) = Some y \<Longrightarrow> \<exists>x' s'. cl_Update C x s = (Inr x', s') \<and>
     objs s' = (objs s)(o_Name x \<mapsto> x') \<and> o_Name x' = o_Name x \<and>
     o_Annotations x' = o_Annotations x \<and> o_DeletionTimestamp x' = o_DeletionTimestamp y \<and>
     spec_Tier (o_Spec x') = spec_Tier (o_Spec x) \<and>
     spec_ExpiresAt (o_Spec x') = truncSecond (spec_ExpiresAt (o_Spec x)) \<and>
     o_Status x' = o_Status y"
  unfolding object_laws_def by blast

text \<open>
  An in-memory instance: the state is a list of objects, of which the first with a name is
  the stored one.
\<close>

definition mem_find :: "Oubliette list \<Rightarrow> string \<Rightarrow> Oubliette option" where
  "mem_find s n = find (\<lambda>x. o_Name x = n) s"

fun mem_all :: "Oubliette list \<Rightarrow> Oubliette list" where
  "mem_all [] = []"
| "mem_all (x # xs) = x # filter (\<lambda>y. o_Name y \<noteq> o_Name x) (mem_all xs)"

definition mem_put :: "Oubliette \<Rightarrow> Oubliette list \<Rightarrow> Oubliette list" where
  "mem_put x s = x # filter (\<lambda>y. o_Name y \<noteq> o_Name x) s"

definition mem_spec :: "OublietteSpec \<Rightarrow> OublietteSpec" where
  "mem_spec sp = sp\<lparr>spec_ExpiresAt := truncSecond (spec_ExpiresAt sp)\<rparr>"

definition memclient :: "Oubliette list oub_client" where
  "memclient =
     \<lparr>cl_Get = (\<lambda>n s. (case mem_find s n of None \<Rightarrow> Inl (NotFound n) | Some x \<Rightarrow> Inr x, s)),
      cl_List = (\<lambda>s. (Inr (mem_all s), s)),
      cl_Create = (\<lambda>x s. case mem_find s (o_Name x) of
          Some _ \<Rightarrow> (Inl (AlreadyExists (o_Name x)), s)
        | None \<Rightarrow> (let x' = x\<lparr>o_UID := ''uid'', o_Generation := 1, o_DeletionTimestamp := None,
                        o_Spec := mem_spec (o_Spec x), o_Status := zeroStatus\<rparr>
                   in (Inr x', mem_put x' s))),
      cl_Update = (\<lambda>x s. case mem_find s (o_Name x) of
          None \<Rightarrow> (Inl (NotFound (o_Name x)), s)
        | Some y \<Rightarrow> (let x' = x\<lparr>o_Generation := o_Generation y + 1,
                        o_DeletionTimestamp := o_DeletionTimestamp y,
                        o_Spec := mem_spec (o_Spec x), o_Status := o_Status y\<rparr>
                     in (Inr x', mem_put x' s))),
      cl_Delete = (\<lambda>x s. case mem_find s (o_Name x) of
          None \<Rightarrow> (Some (NotFound (o_Name x)), s)
        | Some y \<Rightarrow> (None, if o_Finalizers y = [] then filter (\<lambda>z. o_Name z \<noteq> o_Name x) s
                           else mem_put (y\<lparr>o_DeletionTimestamp := Some 0\<rparr>) s)),
      cl_StatusPatch = (\<lambda>x b s. case mem_find s (o_Name x) of
          None \<Rightarrow> (Inl (NotFound (o_Name x)), s)
        | Some y \<Rightarrow> (let x' = y\<lparr>o_Status := o_Status x\<rparr> in (Inr x', mem_put x' s)))\<rparr>"

lemma mem_find_name: "mem_find s n = Some x \<Longrightarrow> o_Name x = n"
  by (auto simp: mem_find_def find_Some_iff)

lemma mem_find_filter_other:
  "n \<noteq> m \<Longrightarrow> mem_find (filter (\<lambda>y. o_Name y \<noteq> m) s) n = mem_find s n"
  by (induction s) (auto simp: mem_find_def)

lemma mem_find_put: "mem_find (mem_put x s) = (mem_find s)(o_Name x \<mapsto> x)"
proof
  fix n
  show "mem_find (mem_put x s) n = ((mem_find s)(o_Name x \<mapsto> x)) n"
  proof (cases "n = o_Name x")
    case True
    then show ?thesis by (simp add: mem_put_def mem_find_def)
  next
    case False
    then have "mem_find (mem_put x s) n = mem_find (filter (\<lambda>y. o_Name y \<noteq> o_Name x) s) n"
      by (auto simp: mem_put_def mem_find_def)
    with False show ?thesis by (simp add: mem_find_filter_other)
  qed
qed

lemma mem_all_distinct: "distinct (map o_Name (mem_all s))"
  by (induction s) (auto simp: distinct_map_filter)

lemma mem_all_iff: "x \<in> set (mem_all s) \<longleftrightarrow> mem_find s (o_Name x) = Some x"
  by (induction s) (auto simp: mem_find_def)

lemma memclient_laws: "object_laws memclient mem_find"
  unfolding object_laws_def memclient_def
  by (auto simp: mem_find_put mem_all_distinct mem_all_iff mem_spec_def Let_def
      split: option.splits dest: mem_find_name)

end
