(* ===== verification/Regex.thy ===== *)
theory Regex
  imports Prelude
begin

text \<open>
  The fragment of Go's \<open>regexp\<close> package (RE2 syntax) that the sources use: byte classes,
  concatenation, alternation and repetition, matched either against the whole input (a
  pattern between \<open>^\<close> and \<open>$\<close>) or anywhere inside it. Patterns are data; \<open>rx_matches\<close>
  decides them by derivatives and is proved equal to the denotational language
  \<open>rx_lang\<close>.
\<close>

section \<open>Patterns and their languages\<close>

datatype rx =
    Zero
  | Eps
  | Cls "(char \<times> char) list"
  | Alt rx rx
  | Seq rx rx
  | Star rx

definition cls_mem :: "(char \<times> char) list \<Rightarrow> char \<Rightarrow> bool" where
  "cls_mem rs c \<longleftrightarrow> list_ex (\<lambda>(lo, hi). lo \<le> c \<and> c \<le> hi) rs"

inductive_set star :: "string set \<Rightarrow> string set" for L where
  star_Nil: "[] \<in> star L"
| star_append: "u \<in> L \<Longrightarrow> v \<in> star L \<Longrightarrow> u @ v \<in> star L"

primrec rx_lang :: "rx \<Rightarrow> string set" where
  "rx_lang Zero = {}"
| "rx_lang Eps = {[]}"
| "rx_lang (Cls rs) = {[c] | c. cls_mem rs c}"
| "rx_lang (Alt r s) = rx_lang r \<union> rx_lang s"
| "rx_lang (Seq r s) = {u @ v | u v. u \<in> rx_lang r \<and> v \<in> rx_lang s}"
| "rx_lang (Star r) = star (rx_lang r)"

section \<open>The matcher\<close>

text \<open>
  \<open>mkAlt\<close> and \<open>mkSeq\<close> drop the neutral parts a derivative leaves behind, so that
  evaluation stays small.
\<close>

definition mkAlt :: "rx \<Rightarrow> rx \<Rightarrow> rx" where
  "mkAlt r s = (if r = Zero then s else if s = Zero \<or> r = s then r else Alt r s)"

definition mkSeq :: "rx \<Rightarrow> rx \<Rightarrow> rx" where
  "mkSeq r s = (if r = Zero \<or> s = Zero then Zero else if r = Eps then s
                else if s = Eps then r else Seq r s)"

primrec nullable :: "rx \<Rightarrow> bool" where
  "nullable Zero = False"
| "nullable Eps = True"
| "nullable (Cls rs) = False"
| "nullable (Alt r s) = (nullable r \<or> nullable s)"
| "nullable (Seq r s) = (nullable r \<and> nullable s)"
| "nullable (Star r) = True"

primrec deriv :: "char \<Rightarrow> rx \<Rightarrow> rx" where
  "deriv c Zero = Zero"
| "deriv c Eps = Zero"
| "deriv c (Cls rs) = (if cls_mem rs c then Eps else Zero)"
| "deriv c (Alt r s) = mkAlt (deriv c r) (deriv c s)"
| "deriv c (Seq r s) =
     (if nullable r then mkAlt (mkSeq (deriv c r) s) (deriv c s) else mkSeq (deriv c r) s)"
| "deriv c (Star r) = mkSeq (deriv c r) (Star r)"

fun rx_matches :: "rx \<Rightarrow> string \<Rightarrow> bool" where
  "rx_matches r [] = nullable r"
| "rx_matches r (c # cs) = rx_matches (deriv c r) cs"

lemma lang_mkAlt [simp]: "rx_lang (mkAlt r s) = rx_lang r \<union> rx_lang s"
  by (auto simp: mkAlt_def)

lemma lang_mkSeq [simp]: "rx_lang (mkSeq r s) = rx_lang (Seq r s)"
  by (auto simp: mkSeq_def)

lemma nullable_iff: "nullable r \<longleftrightarrow> [] \<in> rx_lang r"
  by (induction r) (auto intro: star.intros)

lemma star_Cons_split:
  assumes "c # w \<in> star L"
  shows "\<exists>u v. w = u @ v \<and> c # u \<in> L \<and> v \<in> star L"
  using assms
proof (induction "c # w" arbitrary: c w rule: star.induct)
  case (star_append u v)
  show ?case
  proof (cases u)
    case Nil
    with star_append show ?thesis by auto
  next
    case (Cons d u')
    with star_append show ?thesis by auto
  qed
qed

lemma lang_deriv: "rx_lang (deriv c r) = {w. c # w \<in> rx_lang r}"
proof (induction r)
  case (Seq r s)
  have "{w. c # w \<in> rx_lang (Seq r s)} =
      {u @ v | u v. c # u \<in> rx_lang r \<and> v \<in> rx_lang s} \<union>
      (if nullable r then {w. c # w \<in> rx_lang s} else {})"
    by (auto simp: nullable_iff Cons_eq_append_conv)
  then show ?case using Seq by auto
next
  case (Star r)
  have "{w. c # w \<in> star (rx_lang r)} =
      {u @ v | u v. c # u \<in> rx_lang r \<and> v \<in> star (rx_lang r)}"
    by (auto dest: star_Cons_split) (metis append_Cons star.star_append)
  then show ?case using Star by simp
qed auto

lemma rx_matches_iff: "rx_matches r s \<longleftrightarrow> s \<in> rx_lang r"
  by (induction r s rule: rx_matches.induct) (auto simp: nullable_iff lang_deriv)

section \<open>Abbreviations for patterns\<close>

definition rx_any :: rx where
  "rx_any = Cls [(CHR 0x00, CHR 0xFF)]"

fun rx_seqs :: "rx list \<Rightarrow> rx" where
  "rx_seqs [] = Eps"
| "rx_seqs [r] = r"
| "rx_seqs (r # rs) = Seq r (rx_seqs rs)"

fun rx_alts :: "rx list \<Rightarrow> rx" where
  "rx_alts [] = Zero"
| "rx_alts [r] = r"
| "rx_alts (r # rs) = Alt r (rx_alts rs)"

definition rx_opt :: "rx \<Rightarrow> rx" where "rx_opt r = Alt Eps r"
definition rx_plus :: "rx \<Rightarrow> rx" where "rx_plus r = Seq r (Star r)"

primrec rx_upto :: "nat \<Rightarrow> rx \<Rightarrow> rx" where
  "rx_upto 0 r = Eps"
| "rx_upto (Suc n) r = Alt Eps (Seq r (rx_upto n r))"

text \<open>\<open>Regexp.Match\<close> of a pattern without anchors: some part of the input matches.\<close>

definition rx_search :: "rx \<Rightarrow> string \<Rightarrow> bool" where
  "rx_search r s \<longleftrightarrow> rx_matches (Seq (Star rx_any) (Seq r (Star rx_any))) s"

lemma cls_mem_any [simp]: "cls_mem [(CHR 0x00, CHR 0xFF)] c"
proof -
  have "of_char c < (256 :: nat)" by (rule nat_of_char_less_256)
  then have "of_char c \<le> (255 :: nat)" by linarith
  then show ?thesis by (simp add: cls_mem_def less_eq_char_def)
qed

lemma star_any: "s \<in> star (rx_lang rx_any)"
proof (induction s)
  case Nil
  show ?case by (rule star.star_Nil)
next
  case (Cons c s)
  then have "[c] @ s \<in> star (rx_lang rx_any)"
    by (intro star.star_append) (auto simp: rx_any_def)
  then show ?case by simp
qed

lemma rx_search_iff: "rx_search r s \<longleftrightarrow> (\<exists>a m b. s = a @ m @ b \<and> m \<in> rx_lang r)"
  by (auto simp: rx_search_def rx_matches_iff star_any)

lemma star_Cls: "s \<in> star (rx_lang (Cls rs)) \<longleftrightarrow> (\<forall>c \<in> set s. cls_mem rs c)"
proof
  assume "s \<in> star (rx_lang (Cls rs))"
  then show "\<forall>c \<in> set s. cls_mem rs c" by (induction rule: star.induct) auto
next
  assume "\<forall>c \<in> set s. cls_mem rs c"
  then show "s \<in> star (rx_lang (Cls rs))"
  proof (induction s)
    case (Cons c s)
    then have "[c] @ s \<in> star (rx_lang (Cls rs))" by (intro star.star_append) auto
    then show ?case by simp
  qed (rule star.star_Nil)
qed

lemma lang_upto_Cls:
  "s \<in> rx_lang (rx_upto n (Cls rs)) \<longleftrightarrow> length s \<le> n \<and> (\<forall>c \<in> set s. cls_mem rs c)"
proof (induction n arbitrary: s)
  case (Suc n)
  show ?case
  proof (cases s)
    case (Cons c s')
    let ?L = "rx_lang (rx_upto n (Cls rs))"
    have "s \<in> rx_lang (rx_upto (Suc n) (Cls rs)) \<longleftrightarrow>
        (\<exists>d v. c # s' = [d] @ v \<and> cls_mem rs d \<and> v \<in> ?L)"
      unfolding Cons rx_upto.simps rx_lang.simps by blast
    also have "\<dots> \<longleftrightarrow> cls_mem rs c \<and> s' \<in> ?L" by simp
    finally show ?thesis using Suc Cons by auto
  qed simp
qed auto

text \<open>Concatenation with a one-byte pattern at the front or at the back.\<close>

lemma lang_Seq_first:
  assumes "rx_lang r = {[c] | c. P c}"
  shows "s \<in> rx_lang (Seq r t) \<longleftrightarrow> (\<exists>c v. P c \<and> s = c # v \<and> v \<in> rx_lang t)"
  unfolding rx_lang.simps(5) assms by (fastforce intro: exI[of _ "[x]" for x])

lemma lang_Seq_last:
  assumes "rx_lang r = {[c] | c. P c}"
  shows "s \<in> rx_lang (Seq t r) \<longleftrightarrow> (\<exists>w c. P c \<and> s = w @ [c] \<and> w \<in> rx_lang t)"
  unfolding rx_lang.simps(5) assms by blast

end
