(* ===== verification/Sha256.thy ===== *)
theory Sha256
  imports Prelude
begin

text \<open>
  The standard library's \<open>crypto/sha256\<close> and \<open>crypto/hmac\<close> as far as the sources
  use them: \<open>sha256.Sum256\<close>, \<open>hmac.New(sha256.New, key)\<close> with one \<open>Write\<close> and
  \<open>Sum\<close>, and \<open>hex.EncodeToString\<close>. The definitions follow FIPS 180-4 and RFC 2104
  and are executable.
\<close>

unbundle bit_operations_syntax

section \<open>SHA-256\<close>

type_synonym u32 = "32 word"

definition sha256_K :: "u32 list" where
  "sha256_K =
    [1116352408, 1899447441, 3049323471, 3921009573, 961987163, 1508970993,
     2453635748, 2870763221, 3624381080, 310598401, 607225278, 1426881987,
     1925078388, 2162078206, 2614888103, 3248222580, 3835390401, 4022224774,
     264347078, 604807628, 770255983, 1249150122, 1555081692, 1996064986,
     2554220882, 2821834349, 2952996808, 3210313671, 3336571891, 3584528711,
     113926993, 338241895, 666307205, 773529912, 1294757372, 1396182291,
     1695183700, 1986661051, 2177026350, 2456956037, 2730485921, 2820302411,
     3259730800, 3345764771, 3516065817, 3600352804, 4094571909, 275423344,
     430227734, 506948616, 659060556, 883997877, 958139571, 1322822218,
     1537002063, 1747873779, 1955562222, 2024104815, 2227730452, 2361852424,
     2428436474, 2756734187, 3204031479, 3329325298]"

definition sha256_H :: "u32 list" where
  "sha256_H =
    [1779033703, 3144134277, 1013904242, 2773480762, 1359893119, 2600822924,
     528734635, 1541459225]"

definition big_sigma0 :: "u32 \<Rightarrow> u32" where
  "big_sigma0 x = word_rotr 2 x XOR word_rotr 13 x XOR word_rotr 22 x"

definition big_sigma1 :: "u32 \<Rightarrow> u32" where
  "big_sigma1 x = word_rotr 6 x XOR word_rotr 11 x XOR word_rotr 25 x"

definition small_sigma0 :: "u32 \<Rightarrow> u32" where
  "small_sigma0 x = word_rotr 7 x XOR word_rotr 18 x XOR drop_bit 3 x"

definition small_sigma1 :: "u32 \<Rightarrow> u32" where
  "small_sigma1 x = word_rotr 17 x XOR word_rotr 19 x XOR drop_bit 10 x"

definition sha_ch :: "u32 \<Rightarrow> u32 \<Rightarrow> u32 \<Rightarrow> u32" where
  "sha_ch x y z = (x AND y) XOR (NOT x AND z)"

definition sha_maj :: "u32 \<Rightarrow> u32 \<Rightarrow> u32 \<Rightarrow> u32" where
  "sha_maj x y z = (x AND y) XOR (x AND z) XOR (y AND z)"

text \<open>The message schedule, newest word first while it grows.\<close>

fun sha_extend :: "nat \<Rightarrow> u32 list \<Rightarrow> u32 list" where
  "sha_extend 0 ws = ws"
| "sha_extend (Suc n) ws =
     sha_extend n ((small_sigma1 (ws ! 1) + ws ! 6 + small_sigma0 (ws ! 14) + ws ! 15) # ws)"

definition sha_schedule :: "u32 list \<Rightarrow> u32 list" where
  "sha_schedule block = rev (sha_extend 48 (rev block))"

type_synonym sha_state = "u32 \<times> u32 \<times> u32 \<times> u32 \<times> u32 \<times> u32 \<times> u32 \<times> u32"

fun sha_round :: "u32 \<times> u32 \<Rightarrow> sha_state \<Rightarrow> sha_state" where
  "sha_round (k, w) (a, b, c, d, e, f, g, h) =
     (let t1 = h + big_sigma1 e + sha_ch e f g + k + w;
          t2 = big_sigma0 a + sha_maj a b c
      in (t1 + t2, a, b, c, d + t1, e, f, g))"

fun sha_add :: "sha_state \<Rightarrow> sha_state \<Rightarrow> sha_state" where
  "sha_add (a, b, c, d, e, f, g, h) (a', b', c', d', e', f', g', h') =
     (a + a', b + b', c + c', d + d', e + e', f + f', g + g', h + h')"

definition sha_block :: "sha_state \<Rightarrow> u32 list \<Rightarrow> sha_state" where
  "sha_block st block = sha_add (fold sha_round (zip sha256_K (sha_schedule block)) st) st"

fun sha_list :: "sha_state \<Rightarrow> u32 list" where
  "sha_list (a, b, c, d, e, f, g, h) = [a, b, c, d, e, f, g, h]"

definition sha_init :: sha_state where
  "sha_init = (sha256_H ! 0, sha256_H ! 1, sha256_H ! 2, sha256_H ! 3,
               sha256_H ! 4, sha256_H ! 5, sha256_H ! 6, sha256_H ! 7)"

text \<open>Padding, and the grouping of the padded bytes into words and blocks.\<close>

definition be_bytes :: "nat \<Rightarrow> nat \<Rightarrow> nat list" where
  "be_bytes n x = map (\<lambda>i. (x div 256 ^ (n - 1 - i)) mod 256) [0..<n]"

definition sha_pad :: "string \<Rightarrow> nat list" where
  "sha_pad m = map of_char m @ [0x80] @ replicate (nat ((55 - int (length m)) mod 64)) 0
     @ be_bytes 8 (8 * length m)"

fun words_of :: "nat list \<Rightarrow> u32 list" where
  "words_of (a # b # c # d # bs) =
     of_nat (((a * 256 + b) * 256 + c) * 256 + d) # words_of bs"
| "words_of _ = []"

fun sha_fold :: "nat \<Rightarrow> sha_state \<Rightarrow> u32 list \<Rightarrow> sha_state" where
  "sha_fold 0 st ws = st"
| "sha_fold (Suc n) st ws = sha_fold n (sha_block st (take 16 ws)) (drop 16 ws)"

definition sha256 :: "string \<Rightarrow> string" where
  "sha256 m =
     (let ws = words_of (sha_pad m);
          st = sha_fold (length ws div 16) sha_init ws
      in map char_of (concat (map (\<lambda>w. be_bytes 4 (unat w)) (sha_list st))))"

text \<open>The padded message is a whole number of 64-byte blocks, so no word is left over.\<close>

lemma length_be_bytes [simp]: "length (be_bytes n x) = n"
  by (simp add: be_bytes_def)

lemma length_words_of: "4 * length (words_of bs) = length bs - length bs mod 4"
  by (induction bs rule: words_of.induct) auto

lemma length_sha_pad: "64 dvd length (sha_pad m)"
proof -
  define L where "L = int (length m)"
  have "int (length (sha_pad m)) = L + 9 + (55 - L) mod 64"
    by (simp add: sha_pad_def L_def)
  also have "\<dots> = 64 * (1 - (55 - L) div 64)"
    by (simp add: minus_mult_div_eq_mod [symmetric])
  finally have "int 64 dvd int (length (sha_pad m))" by simp
  then show ?thesis by presburger
qed

lemma sha_pad_blocks:
  "length (words_of (sha_pad m)) = 16 * (length (words_of (sha_pad m)) div 16)"
proof -
  from length_sha_pad obtain k where k: "length (sha_pad m) = 64 * k" by (auto elim: dvdE)
  then have "length (sha_pad m) mod 4 = 0" by simp
  with length_words_of[of "sha_pad m"] k have "length (words_of (sha_pad m)) = 16 * k" by simp
  then show ?thesis by simp
qed

lemma length_sha256 [simp]: "length (sha256 m) = 32"
proof -
  have "length (concat (map (\<lambda>w. be_bytes 4 (unat w)) (sha_list st))) = 32" for st
    by (cases st rule: sha_list.cases) simp
  then show ?thesis by (simp add: sha256_def Let_def)
qed

section \<open>Hexadecimal encoding\<close>

definition hex_digit :: "nat \<Rightarrow> char" where
  "hex_digit n = (if n < 10 then char_of (48 + n) else char_of (87 + n))"

definition hex_encode :: "string \<Rightarrow> string" where
  "hex_encode s =
     concat (map (\<lambda>c. [hex_digit (of_char c div 16), hex_digit (of_char c mod 16)]) s)"

lemma length_hex_encode [simp]: "length (hex_encode s) = 2 * length s"
  by (induction s) (auto simp: hex_encode_def)

lemma hex_digit_inject:
  assumes "m < 16" "n < 16" "hex_digit m = hex_digit n"
  shows "m = n"
proof -
  have "of_char (hex_digit m) = (of_char (hex_digit n) :: nat)" using assms(3) by simp
  then show ?thesis using assms(1,2)
    by (auto simp: hex_digit_def split: if_splits)
qed

lemma hex_encode_inject: "hex_encode s = hex_encode t \<longleftrightarrow> s = t"
proof
  assume "hex_encode s = hex_encode t"
  then show "s = t"
  proof (induction s arbitrary: t)
    case Nil
    then show ?case by (cases t) (auto simp: hex_encode_def)
  next
    case (Cons c s)
    then obtain d t' where t: "t = d # t'" by (cases t) (auto simp: hex_encode_def)
    have lt: "of_char x div 16 < (16 :: nat)" for x
      using nat_of_char_less_256[of x] by linarith
    from Cons.prems t have
      "hex_digit (of_char c div 16) = hex_digit (of_char d div 16)"
      "hex_digit (of_char c mod 16) = hex_digit (of_char d mod 16)"
      and tail: "hex_encode s = hex_encode t'"
      by (auto simp: hex_encode_def)
    then have "of_char c div 16 = (of_char d div 16 :: nat)"
      "of_char c mod 16 = (of_char d mod 16 :: nat)"
      using lt hex_digit_inject by auto
    then have "of_char c = (of_char d :: nat)" by (metis div_mult_mod_eq)
    with tail t Cons.IH show ?case by simp
  qed
qed simp

section \<open>HMAC-SHA256\<close>

definition xor_byte :: "nat \<Rightarrow> char \<Rightarrow> char" where
  "xor_byte n c = char_of (n XOR of_char c :: nat)"

definition hmac_key :: "string \<Rightarrow> string" where
  "hmac_key k = (let k' = (if length k > 64 then sha256 k else k)
                 in k' @ replicate (64 - length k') (CHR 0x00))"

definition hmac_sha256 :: "string \<Rightarrow> string \<Rightarrow> string" where
  "hmac_sha256 k m = sha256 (map (xor_byte 0x5c) (hmac_key k)
     @ sha256 (map (xor_byte 0x36) (hmac_key k) @ m))"

lemma length_hmac_sha256 [simp]: "length (hmac_sha256 k m) = 32"
  by (simp add: hmac_sha256_def)

end
