(* ===== verification/Lifecycle.thy ===== *)
theory Lifecycle
  imports Kube Regex Sha256
begin

text \<open>
  The lifecycle service of \<open>internal/lifecycle/service.go\<close>: create, get, list, renew and
  delete Oubliettes on behalf of an authenticated caller. Each operation is a function of
  the condition helpers, the API client, the clock reading, the request context (the
  caller attached to it, if any) and the cluster state; it returns an error or a result
  together with the state it leaves.
\<close>

section \<open>Inputs, results and errors\<close>

type_synonym ctx_t = "string option"

record CreateInput =
  ci_Name :: string
  ci_Tier :: string
  ci_TTLSeconds :: int64

record RenewInput =
  ri_Name :: string
  ri_TTLSeconds :: int64

record ConditionView =
  cv_Type :: string
  cv_Status :: string
  cv_Reason :: string
  cv_Message :: string
  cv_LastTransitionTime :: string

record View =
  v_Name :: string
  v_Tier :: string
  v_ExpiresAt :: string
  v_Phase :: string
  v_VirtualEndpointID :: string
  v_MetricsEndpointID :: string
  v_MetricsReady :: bool
  v_Conditions :: "ConditionView list"

record DeleteOutput =
  do_Name :: string
  do_Status :: string

datatype svc_err =
    CallerRequired
  | InvalidName
  | InvalidTTL
  | TierNotEnabled string
  | TierMismatch string string
  | Terminal string
  | Api api_err

section \<open>Timestamps in RFC 3339\<close>

text \<open>
  \<open>t.UTC().Format(time.RFC3339)\<close>: the proleptic Gregorian date of the day count and
  the time of day, with whole seconds.
\<close>

definition civil :: "int \<Rightarrow> int \<times> int \<times> int" where
  "civil days =
     (let z = days + 719468;
          era = z div 146097;
          doe = z mod 146097;
          yoe = (doe - doe div 1460 + doe div 36524 - doe div 146096) div 365;
          doy = doe - (365 * yoe + yoe div 4 - yoe div 100);
          mp = (5 * doy + 2) div 153;
          d = doy - (153 * mp + 2) div 5 + 1;
          m = (if mp < 10 then mp + 3 else mp - 9)
      in (yoe + era * 400 + (if m \<le> 2 then 1 else 0), m, d))"

primrec digits :: "nat \<Rightarrow> int \<Rightarrow> string" where
  "digits 0 n = []"
| "digits (Suc w) n = digits w (n div 10) @ [char_of (nat (48 + n mod 10))]"

definition FormatRFC3339 :: "time \<Rightarrow> string" where
  "FormatRFC3339 t =
     (let secs = t div 1000000000;
          (y, m, d) = civil (secs div 86400);
          s = secs mod 86400
      in (if y < 0 then ''-'' @ digits 4 (- y) else digits 4 y) @ ''-'' @ digits 2 m @ ''-''
         @ digits 2 d @ ''T'' @ digits 2 (s div 3600) @ '':'' @ digits 2 (s div 60 mod 60)
         @ '':'' @ digits 2 (s mod 60) @ ''Z'')"

section \<open>Validation\<close>

definition MinTTL :: duration where "MinTTL = 30 * Second"
definition MaxTTL :: duration where "MaxTTL = 24 * Hour"

lemma sint_MinTTL [simp]: "sint MinTTL = 30000000000"
  by (simp add: MinTTL_def Second_def)

lemma sint_MaxTTL [simp]: "sint MaxTTL = 86400000000000"
  by (simp add: MaxTTL_def go_defs)

definition label_edge :: rx where
  "label_edge = Cls [(CHR ''a'', CHR ''z''), (CHR ''0'', CHR ''9'')]"

definition label_inner :: rx where
  "label_inner = Cls [(CHR ''-'', CHR ''-''), (CHR ''a'', CHR ''z''), (CHR ''0'', CHR ''9'')]"

definition nameRE :: rx where
  "nameRE = Seq label_edge (rx_opt (Seq (Star label_inner) label_edge))"

definition validateName :: "string \<Rightarrow> svc_err option" where
  "validateName name =
     (if length name = 0 \<or> length name > 59 \<or> \<not> rx_matches nameRE name
      then Some InvalidName else None)"

definition validateTTL :: "int64 \<Rightarrow> svc_err option" where
  "validateTTL seconds =
     (let d = seconds * Second in
      if sint d < sint MinTTL \<or> sint d > sint MaxTTL then Some InvalidTTL else None)"

section \<open>Identity and ownership\<close>

definition WithCaller :: "ctx_t \<Rightarrow> string \<Rightarrow> ctx_t" where
  "WithCaller ctx caller = Some caller"

definition Caller :: "ctx_t \<Rightarrow> svc_err + string" where
  "Caller ctx = (let caller = (case ctx of None \<Rightarrow> '''' | Some c \<Rightarrow> c) in
     if caller = '''' then Inl CallerRequired else Inr caller)"

definition digestOf :: "string \<Rightarrow> string" where
  "digestOf caller = ''sha256:'' @ hex_encode (sha256 caller)"

definition callerDigest :: "ctx_t \<Rightarrow> svc_err + string" where
  "callerDigest ctx = (case Caller ctx of Inl e \<Rightarrow> Inl e | Inr caller \<Rightarrow> Inr (digestOf caller))"

definition ownedBy :: "Oubliette \<Rightarrow> string \<Rightarrow> bool" where
  "ownedBy obj digest \<longleftrightarrow>
     (case o_Annotations obj of None \<Rightarrow> False | Some m \<Rightarrow> mapGet m CallerDigestAnnotation = digest)"

definition notFound :: "string \<Rightarrow> svc_err" where
  "notFound name = Api (NotFound name)"

section \<open>Projection\<close>

definition phase :: "apimeta \<Rightarrow> Oubliette \<Rightarrow> string" where
  "phase am obj =
     (let cs = st_Conditions (o_Status obj);
          ready = FindStatusCondition am cs ConditionReady
      in if \<not> optIsZero (o_DeletionTimestamp obj) then ''Deleting''
         else if IsStatusConditionTrue am cs ConditionForgotten then ''Forgotten''
         else if IsStatusConditionTrue am cs ConditionExpiring then ''Expiring''
         else if (case ready of None \<Rightarrow> False | Some c \<Rightarrow>
             c_Status c = ConditionTrue \<and> c_ObservedGeneration c = o_Generation obj \<and>
             st_ObservedGeneration (o_Status obj) = o_Generation obj) then ''Ready''
         else ''Provisioning'')"

definition conditionView :: "condition \<Rightarrow> ConditionView" where
  "conditionView c = \<lparr>cv_Type = c_Type c, cv_Status = c_Status c, cv_Reason = c_Reason c,
     cv_Message = c_Message c, cv_LastTransitionTime = FormatRFC3339 (c_LastTransitionTime c)\<rparr>"

definition project :: "apimeta \<Rightarrow> Oubliette \<Rightarrow> View" where
  "project am obj = \<lparr>v_Name = o_Name obj, v_Tier = spec_Tier (o_Spec obj),
     v_ExpiresAt = FormatRFC3339 (spec_ExpiresAt (o_Spec obj)), v_Phase = phase am obj,
     v_VirtualEndpointID = st_VirtualEndpoint (o_Status obj),
     v_MetricsEndpointID = st_MetricsEndpoint (o_Status obj),
     v_MetricsReady = IsStatusConditionTrue am (st_Conditions (o_Status obj)) ConditionMetricsReady,
     v_Conditions = map conditionView (st_Conditions (o_Status obj))\<rparr>"

section \<open>Operations\<close>

definition newOubliette :: "string \<Rightarrow> string \<Rightarrow> string \<Rightarrow> time \<Rightarrow> Oubliette" where
  "newOubliette name owner tier expires = \<lparr>o_Name = name, o_UID = '''', o_Generation = 0,
     o_Annotations = Some [CallerDigestAnnotation \<mapsto> owner], o_DeletionTimestamp = None,
     o_Finalizers = [], o_Spec = \<lparr>spec_Tier = tier, spec_ExpiresAt = expires\<rparr>,
     o_Status = zeroStatus\<rparr>"

definition Create ::
  "apimeta \<Rightarrow> 's oub_client \<Rightarrow> time \<Rightarrow> ctx_t \<Rightarrow> CreateInput \<Rightarrow> 's \<Rightarrow> (svc_err + View) \<times> 's" where
  "Create am C now ctx inp s =
     (case callerDigest ctx of Inl e \<Rightarrow> (Inl e, s) | Inr owner \<Rightarrow>
      case validateName (ci_Name inp) of Some e \<Rightarrow> (Inl e, s) | None \<Rightarrow>
      case validateTTL (ci_TTLSeconds inp) of Some e \<Rightarrow> (Inl e, s) | None \<Rightarrow>
      let tier = (if ci_Tier inp = '''' then TierStub else ci_Tier inp) in
      if tier \<noteq> TierStub then (Inl (TierNotEnabled tier), s) else
      let expires = Time_Add now (ci_TTLSeconds inp * Second);
          obj = newOubliette (ci_Name inp) owner tier expires in
      case cl_Create C obj s of
        (Inr obj', s1) \<Rightarrow> (Inr (project am obj'), s1)
      | (Inl err, s1) \<Rightarrow>
          if \<not> IsAlreadyExists err then (Inl (Api err), s1) else
          (case cl_Get C (ci_Name inp) s1 of
             (Inl err', s2) \<Rightarrow> (Inl (Api err'), s2)
           | (Inr obj', s2) \<Rightarrow>
               if \<not> ownedBy obj' owner then (Inl (Api (AlreadyExists (ci_Name inp))), s2)
               else if spec_Tier (o_Spec obj') \<noteq> tier
               then (Inl (TierMismatch (ci_Name inp) (spec_Tier (o_Spec obj'))), s2)
               else (Inr (project am obj'), s2)))"

definition Get ::
  "apimeta \<Rightarrow> 's oub_client \<Rightarrow> ctx_t \<Rightarrow> string \<Rightarrow> 's \<Rightarrow> (svc_err + View) \<times> 's" where
  "Get am C ctx name s =
     (case callerDigest ctx of Inl e \<Rightarrow> (Inl e, s) | Inr owner \<Rightarrow>
      case validateName name of Some e \<Rightarrow> (Inl e, s) | None \<Rightarrow>
      case cl_Get C name s of
        (Inl err, s1) \<Rightarrow> (Inl (Api err), s1)
      | (Inr obj, s1) \<Rightarrow>
          if \<not> ownedBy obj owner then (Inl (notFound name), s1) else (Inr (project am obj), s1))"

text \<open>
  \<open>Service_List\<close> sorts with \<open>sort.Slice\<close>, which does not promise stability; names are unique in
  the API, where every sorting algorithm gives the same result.
\<close>

definition Service_List ::
  "apimeta \<Rightarrow> 's oub_client \<Rightarrow> ctx_t \<Rightarrow> 's \<Rightarrow> (svc_err + View list) \<times> 's" where
  "Service_List am C ctx s =
     (case callerDigest ctx of Inl e \<Rightarrow> (Inl e, s) | Inr owner \<Rightarrow>
      case cl_List C s of
        (Inl err, s1) \<Rightarrow> (Inl (Api err), s1)
      | (Inr items, s1) \<Rightarrow>
          (Inr (sort_key v_Name (map (project am) (filter (\<lambda>obj. ownedBy obj owner) items))), s1))"

definition Renew ::
  "apimeta \<Rightarrow> 's oub_client \<Rightarrow> time \<Rightarrow> ctx_t \<Rightarrow> RenewInput \<Rightarrow> 's \<Rightarrow> (svc_err + View) \<times> 's" where
  "Renew am C now ctx inp s =
     (case callerDigest ctx of Inl e \<Rightarrow> (Inl e, s) | Inr owner \<Rightarrow>
      case validateName (ri_Name inp) of Some e \<Rightarrow> (Inl e, s) | None \<Rightarrow>
      case validateTTL (ri_TTLSeconds inp) of Some e \<Rightarrow> (Inl e, s) | None \<Rightarrow>
      case cl_Get C (ri_Name inp) s of
        (Inl err, s1) \<Rightarrow> (Inl (Api err), s1)
      | (Inr obj, s1) \<Rightarrow>
          if \<not> ownedBy obj owner then (Inl (notFound (ri_Name inp)), s1)
          else if IsStatusConditionTrue am (st_Conditions (o_Status obj)) ConditionForgotten
          then (Inl (Terminal (ri_Name inp)), s1)
          else
            (let candidate = Time_Add now (ri_TTLSeconds inp * Second) in
             if candidate > spec_ExpiresAt (o_Spec obj) then
               (case cl_Update C (obj\<lparr>o_Spec := (o_Spec obj)\<lparr>spec_ExpiresAt := candidate\<rparr>\<rparr>) s1 of
                  (Inl err, s2) \<Rightarrow> (Inl (Api err), s2)
                | (Inr obj', s2) \<Rightarrow> (Inr (project am obj'), s2))
             else (Inr (project am obj), s1)))"

definition Delete ::
  "'s oub_client \<Rightarrow> ctx_t \<Rightarrow> string \<Rightarrow> 's \<Rightarrow> (svc_err + DeleteOutput) \<times> 's" where
  "Delete C ctx name s =
     (case callerDigest ctx of Inl e \<Rightarrow> (Inl e, s) | Inr owner \<Rightarrow>
      case validateName name of Some e \<Rightarrow> (Inl e, s) | None \<Rightarrow>
      case cl_Get C name s of
        (Inl err, s1) \<Rightarrow> (Inl (Api err), s1)
      | (Inr obj, s1) \<Rightarrow>
          if \<not> ownedBy obj owner then (Inl (notFound name), s1) else
          (case cl_Delete C obj s1 of
             (Some err, s2) \<Rightarrow>
               if \<not> IsNotFound err then (Inl (Api err), s2)
               else (Inr \<lparr>do_Name = name, do_Status = ''deleting''\<rparr>, s2)
           | (None, s2) \<Rightarrow> (Inr \<lparr>do_Name = name, do_Status = ''deleting''\<rparr>, s2)))"

section \<open>Facts about validation and identity\<close>

lemma callerDigest_Some: "c \<noteq> '''' \<Longrightarrow> callerDigest (Some c) = Inr (digestOf c)"
  by (simp add: callerDigest_def Caller_def)

lemma length_digestOf: "length (digestOf c) = 71"
  by (simp add: digestOf_def)

lemma validateTTL_bounds:
  "validateTTL n = None \<Longrightarrow> 30000000000 \<le> sint (n * Second) \<and> sint (n * Second) \<le> 86400000000000"
  by (auto simp: validateTTL_def Let_def split: if_splits)

lemma cls_edge: "cls_mem [(CHR ''a'', CHR ''z''), (CHR ''0'', CHR ''9'')] c \<longleftrightarrow>
    c \<in> {CHR ''a''..CHR ''z''} \<union> {CHR ''0''..CHR ''9''}"
  by (auto simp: cls_mem_def)

lemma cls_inner: "cls_mem [(CHR ''-'', CHR ''-''), (CHR ''a'', CHR ''z''), (CHR ''0'', CHR ''9'')] c
    \<longleftrightarrow> c \<in> {CHR ''-''} \<union> {CHR ''a''..CHR ''z''} \<union> {CHR ''0''..CHR ''9''}"
  by (auto simp: cls_mem_def)

text \<open>A DNS label, written without regular expressions.\<close>

definition alnum :: "char \<Rightarrow> bool" where
  "alnum c \<longleftrightarrow> c \<in> {CHR ''a''..CHR ''z''} \<union> {CHR ''0''..CHR ''9''}"

definition dns_label :: "string \<Rightarrow> bool" where
  "dns_label s \<longleftrightarrow> s \<noteq> [] \<and> alnum (hd s) \<and> alnum (last s) \<and> (\<forall>c \<in> set s. alnum c \<or> c = CHR ''-'')"

lemma nameRE_dns_label: "rx_matches nameRE s \<longleftrightarrow> dns_label s"
proof -
  have edge: "rx_lang label_edge = {[c] | c. alnum c}"
    by (simp add: label_edge_def cls_edge alnum_def)
  have inner: "rx_lang (Star label_inner) = {w. \<forall>c \<in> set w. alnum c \<or> c = CHR ''-''}"
    unfolding label_inner_def by (auto simp: star_Cls cls_inner alnum_def simp del: rx_lang.simps(3))
  have "s \<in> rx_lang nameRE \<longleftrightarrow> (\<exists>c. alnum c \<and> (s = [c] \<or> (\<exists>w d. s = c # w @ [d] \<and> alnum d \<and>
      (\<forall>x \<in> set w. alnum x \<or> x = CHR ''-''))))"
    unfolding nameRE_def rx_opt_def lang_Seq_first[OF edge] rx_lang.simps(2,4) Un_iff
      lang_Seq_last[OF edge] inner by blast
  also have "\<dots> \<longleftrightarrow> dns_label s"
  proof
    assume "dns_label s"
    then obtain c t where s: "s = c # t" and c: "alnum c" by (cases s) (auto simp: dns_label_def)
    show "\<exists>c. alnum c \<and> (s = [c] \<or> (\<exists>w d. s = c # w @ [d] \<and> alnum d \<and>
        (\<forall>x \<in> set w. alnum x \<or> x = CHR ''-'')))"
    proof (cases t rule: rev_cases)
      case Nil
      with s c show ?thesis by auto
    next
      case (snoc w d)
      with s \<open>dns_label s\<close> have "alnum d" "\<forall>x \<in> set w. alnum x \<or> x = CHR ''-''"
        by (auto simp: dns_label_def)
      with s c snoc show ?thesis by blast
    qed
  qed (auto simp: dns_label_def)
  finally show ?thesis by (simp add: rx_matches_iff)
qed

section \<open>Properties\<close>

text \<open>A request without an authenticated caller is refused by every lifecycle operation
  and leaves the cluster untouched: no API call is made.\<close>

theorem unauthenticated_rejected:
  "ctx \<in> {None, Some ''''} \<Longrightarrow>
     Create am C now ctx cin s = (Inl CallerRequired, s) \<and>
     Get am C ctx n s = (Inl CallerRequired, s) \<and>
     Service_List am C ctx s = (Inl CallerRequired, s) \<and>
     Renew am C now ctx rin s = (Inl CallerRequired, s) \<and>
     Delete C ctx n s = (Inl CallerRequired, s)"
  by (auto simp: Create_def Get_def Service_List_def Renew_def Delete_def callerDigest_def
      Caller_def)

theorem unauthenticated_rejected_witness:
  "Create listmeta memclient 0 None \<lparr>ci_Name = ''a'', ci_Tier = '''', ci_TTLSeconds = 60\<rparr> []
     = (Inl CallerRequired, [])"
  using unauthenticated_rejected[of None listmeta memclient 0
      "\<lparr>ci_Name = ''a'', ci_Tier = '''', ci_TTLSeconds = 60\<rparr>" "[]"] by simp

text \<open>An Oubliette that does not carry the caller's digest is invisible and immutable to
  that caller: get, renew and delete answer exactly the not-found error the API would give
  for a missing name, and none of them goes on to write, whatever the client returns
  later.\<close>

theorem foreign_object_untouched:
  assumes "callerDigest ctx = Inr owner" and "validateName n = None" and "validateTTL ttl = None"
    and "cl_Get C n s = (Inr obj, s1)" and "\<not> ownedBy obj owner"
  shows "Get am C ctx n s = (Inl (Api (NotFound n)), s1) \<and>
    Renew am C now ctx \<lparr>ri_Name = n, ri_TTLSeconds = ttl\<rparr> s = (Inl (Api (NotFound n)), s1) \<and>
    Delete C ctx n s = (Inl (Api (NotFound n)), s1)"
  using assms by (simp_all add: Get_def Renew_def Delete_def notFound_def)

definition sample_obj :: Oubliette where
  "sample_obj = \<lparr>o_Name = ''demo'', o_UID = ''u1'', o_Generation = 1,
     o_Annotations = Some [CallerDigestAnnotation \<mapsto> ''someone-else''],
     o_DeletionTimestamp = None, o_Finalizers = [],
     o_Spec = \<lparr>spec_Tier = ''stub'', spec_ExpiresAt = 0\<rparr>, o_Status = zeroStatus\<rparr>"

lemma digestOf_not_short: "length x \<noteq> 71 \<Longrightarrow> x \<noteq> digestOf c"
  using length_digestOf by metis

lemma sample_not_owned: "\<not> ownedBy sample_obj (digestOf c)"
  by (simp add: ownedBy_def sample_obj_def mapGet_def digestOf_not_short)

lemma demo_valid: "validateName ''demo'' = None"
  by code_simp

lemma minute_valid: "validateTTL 60 = None"
  by (simp add: validateTTL_def Let_def Second_def)

theorem foreign_object_untouched_witness:
  "Get listmeta memclient (Some ''alice'') ''demo'' [sample_obj] = (Inl (Api (NotFound ''demo'')), [sample_obj])"
proof -
  have "cl_Get memclient ''demo'' [sample_obj] = (Inr sample_obj, [sample_obj])"
    by (simp add: memclient_def mem_find_def sample_obj_def)
  from foreign_object_untouched[OF callerDigest_Some demo_valid minute_valid this sample_not_owned]
  show ?thesis by simp
qed

text \<open>C15: the only write a renewal can issue is one update of the fetched object in which
  nothing but the expiry changed; the new expiry is strictly later than the old one and lies
  between 30 seconds and 24 hours after the clock reading, the object is owned by the caller
  and not forgotten. In every other case no write is issued.\<close>

theorem renew_only_extends:
  assumes "cl_Get C (ri_Name inp) s = (Inr obj, s1)"
  shows "snd (Renew am C now ctx inp s) \<in> {s, s1} \<or>
    (\<exists>owner t. callerDigest ctx = Inr owner \<and> ownedBy obj owner \<and>
       \<not> IsStatusConditionTrue am (st_Conditions (o_Status obj)) ConditionForgotten \<and>
       spec_ExpiresAt (o_Spec obj) < t \<and> now + 30000000000 \<le> t \<and> t \<le> now + 86400000000000 \<and>
       snd (Renew am C now ctx inp s) =
         snd (cl_Update C (obj\<lparr>o_Spec := (o_Spec obj)\<lparr>spec_ExpiresAt := t\<rparr>\<rparr>) s1))"
proof (cases "snd (Renew am C now ctx inp s) \<in> {s, s1}")
  case False
  let ?t = "Time_Add now (ri_TTLSeconds inp * Second)"
  from False assms obtain owner where o: "callerDigest ctx = Inr owner"
    by (cases "callerDigest ctx") (auto simp: Renew_def)
  from False assms o have ok: "validateName (ri_Name inp) = None"
    "validateTTL (ri_TTLSeconds inp) = None" "ownedBy obj owner"
    "\<not> IsStatusConditionTrue am (st_Conditions (o_Status obj)) ConditionForgotten"
    "?t > spec_ExpiresAt (o_Spec obj)"
    by (auto simp: Renew_def Let_def split: option.splits if_splits)
  have "snd (Renew am C now ctx inp s) =
      snd (cl_Update C (obj\<lparr>o_Spec := (o_Spec obj)\<lparr>spec_ExpiresAt := ?t\<rparr>\<rparr>) s1)"
    using assms o ok by (auto simp: Renew_def Let_def split: prod.splits sum.splits)
  with o ok validateTTL_bounds[OF ok(2)] show ?thesis
    by (auto simp: Time_Add_def)
qed simp

definition alice_obj :: Oubliette where
  "alice_obj = sample_obj\<lparr>o_Annotations := Some [CallerDigestAnnotation \<mapsto> digestOf ''alice'']\<rparr>"

lemma alice_owned: "ownedBy alice_obj (digestOf ''alice'')"
  by (simp add: ownedBy_def alice_obj_def mapGet_def)

lemma alice_get: "cl_Get memclient ''demo'' [alice_obj] = (Inr alice_obj, [alice_obj])"
  by (simp add: memclient_def mem_find_def alice_obj_def sample_obj_def)

theorem renew_only_extends_witness:
  "\<exists>t. 0 < t \<and> t \<le> 86400000000000 \<and>
     snd (Renew listmeta memclient 0 (Some ''alice'') \<lparr>ri_Name = ''demo'', ri_TTLSeconds = 60\<rparr> [alice_obj])
       = snd (cl_Update memclient (alice_obj\<lparr>o_Spec := (o_Spec alice_obj)\<lparr>spec_ExpiresAt := t\<rparr>\<rparr>) [alice_obj])"
proof -
  let ?in = "\<lparr>ri_Name = ''demo'', ri_TTLSeconds = 60\<rparr>"
  have "Renew listmeta memclient 0 (Some ''alice'') ?in [alice_obj] =
      (let r = cl_Update memclient (alice_obj\<lparr>o_Spec := (o_Spec alice_obj)\<lparr>spec_ExpiresAt := 60000000000\<rparr>\<rparr>) [alice_obj]
       in (case fst r of Inl e \<Rightarrow> Inl (Api e) | Inr x \<Rightarrow> Inr (project listmeta x), snd r))"
    using alice_get alice_owned demo_valid minute_valid
    by (simp add: Renew_def callerDigest_Some listmeta_def alice_obj_def sample_obj_def zeroStatus_def
        Time_Add_def Second_def Let_def split: prod.splits sum.splits)
  then have "snd (Renew listmeta memclient 0 (Some ''alice'') ?in [alice_obj]) \<notin> {[alice_obj], [alice_obj]}"
    by (simp add: memclient_def mem_find_def alice_obj_def sample_obj_def mem_put_def mem_spec_def Let_def)
  with renew_only_extends[of memclient ?in "[alice_obj]" alice_obj "[alice_obj]" listmeta 0 "Some ''alice''"]
  show ?thesis using alice_get by (auto simp: alice_obj_def sample_obj_def)
qed

text \<open>Whatever 64-bit value a caller passes as \<open>ttlSeconds\<close>, the multiplication by
  \<open>time.Second\<close> wrapping around included, an object that \<open>Create\<close> submits is a
  stub-tier Oubliette bound to the caller's digest that expires between 30 seconds and 24
  hours after the clock reading; without such a submission the state is unchanged.\<close>

theorem create_submits_bounded:
  "snd (Create am C now ctx inp s) = s \<or>
   (\<exists>owner expires. callerDigest ctx = Inr owner \<and> validateName (ci_Name inp) = None \<and>
      now + 30000000000 \<le> expires \<and> expires \<le> now + 86400000000000 \<and>
      (let sub = cl_Create C (newOubliette (ci_Name inp) owner TierStub expires) s
       in snd (Create am C now ctx inp s) \<in> {snd sub, snd (cl_Get C (ci_Name inp) (snd sub))}))"
proof (cases "snd (Create am C now ctx inp s) = s")
  case False
  let ?t = "Time_Add now (ci_TTLSeconds inp * Second)"
  from False obtain owner where o: "callerDigest ctx = Inr owner"
    by (cases "callerDigest ctx") (auto simp: Create_def)
  from False o have ok: "validateName (ci_Name inp) = None" "validateTTL (ci_TTLSeconds inp) = None"
    "ci_Tier inp \<in> {'''', TierStub}"
    by (auto simp: Create_def Let_def split: option.splits if_splits)
  let ?sub = "cl_Create C (newOubliette (ci_Name inp) owner TierStub ?t) s"
  have "snd (Create am C now ctx inp s) \<in> {snd ?sub, snd (cl_Get C (ci_Name inp) (snd ?sub))}"
    using o ok by (auto simp: Create_def Let_def split: prod.splits sum.splits if_splits)
  moreover have "now + 30000000000 \<le> ?t" "?t \<le> now + 86400000000000"
    using validateTTL_bounds[OF ok(2)] by (simp_all add: Time_Add_def)
  ultimately show ?thesis using o ok(1) unfolding Let_def by blast
qed simp

text \<open>On values whose product with a second fits in 64 bits, the TTL check accepts
  exactly 30 to 86400 seconds.\<close>

theorem validateTTL_exact:
  assumes "\<bar>sint n\<bar> \<le> 9223372036"
  shows "validateTTL n = None \<longleftrightarrow> 30 \<le> sint n \<and> sint n \<le> 86400"
  using sint_times_Second[OF assms] by (auto simp: validateTTL_def Let_def)

theorem validateTTL_exact_witness: "validateTTL 86400 = None \<and> validateTTL 86401 \<noteq> None"
  using validateTTL_exact[of 86400] validateTTL_exact[of 86401] by simp

text \<open>Beyond that range the product wraps around: \<open>ttlSeconds\<close> of two to the power 55
  plus 30 (more than a billion years) passes the check, and the lifetime it yields is 30
  seconds.\<close>

theorem validateTTL_wraps:
  "validateTTL 36028797018963998 = None \<and> sint (36028797018963998 :: int64) = 2 ^ 55 + 30 \<and>
   sint ((36028797018963998 :: int64) * Second) = 30000000000"
  by (simp add: validateTTL_def Let_def Second_def)

text \<open>The name check accepts exactly the DNS labels of at most 59 bytes: letters, digits
  and inner hyphens.\<close>

theorem validateName_iff: "validateName n = None \<longleftrightarrow> dns_label n \<and> length n \<le> 59"
  by (auto simp: validateName_def nameRE_dns_label dns_label_def)

text \<open>Against a reachable API server, a list by an authenticated caller succeeds, leaves
  the state unchanged and returns the views of exactly the caller's Oubliettes in strictly
  ascending byte order of their names.\<close>

theorem list_exactly_owned:
  assumes "object_laws C objs" and "callerDigest ctx = Inr owner"
  shows "\<exists>vs. Service_List am C ctx s = (Inr vs, s) \<and>
    set vs = {project am obj | obj. objs s (o_Name obj) = Some obj \<and> ownedBy obj owner} \<and>
    sorted_wrt (<) (map v_Name vs)"
proof -
  from object_laws_List[OF assms(1)] obtain xs where xs: "cl_List C s = (Inr xs, s)"
    "distinct (map o_Name xs)" "\<forall>obj. obj \<in> set xs \<longleftrightarrow> objs s (o_Name obj) = Some obj" by blast
  let ?vs = "map (project am) (filter (\<lambda>obj. ownedBy obj owner) xs)"
  have names: "map v_Name ?vs = map o_Name (filter (\<lambda>obj. ownedBy obj owner) xs)"
    by (simp add: project_def)
  have "distinct (map v_Name (sort_key v_Name ?vs))"
    using xs(2) names by (metis distinct_map distinct_map_filter distinct_sort set_sort)
  then have "sorted_wrt (<) (map v_Name (sort_key v_Name ?vs))"
    using sorted_sort_key by (metis strict_sorted_iff)
  moreover have "Service_List am C ctx s = (Inr (sort_key v_Name ?vs), s)"
    using assms(2) xs(1) by (simp add: Service_List_def)
  ultimately show ?thesis using xs(3) by (intro exI[of _ "sort_key v_Name ?vs"]) auto
qed

theorem list_exactly_owned_witness:
  "\<exists>vs. Service_List listmeta memclient (Some ''alice'') [alice_obj, sample_obj] = (Inr vs, [alice_obj, sample_obj])
     \<and> set vs = {project listmeta obj | obj. mem_find [alice_obj, sample_obj] (o_Name obj) = Some obj
                   \<and> ownedBy obj (digestOf ''alice'')}
     \<and> sorted_wrt (<) (map v_Name vs)"
  by (rule list_exactly_owned[OF memclient_laws]) (simp add: callerDigest_Some)

text \<open>The phase a caller sees is \<open>Ready\<close> exactly when the object is not being deleted, is
  neither forgotten nor expiring, and both its Ready condition (with status True) and its
  status were observed at the current generation.\<close>

theorem phase_ready_iff:
  "v_Phase (project am obj) = ''Ready'' \<longleftrightarrow>
     optIsZero (o_DeletionTimestamp obj) \<and>
     \<not> IsStatusConditionTrue am (st_Conditions (o_Status obj)) ConditionForgotten \<and>
     \<not> IsStatusConditionTrue am (st_Conditions (o_Status obj)) ConditionExpiring \<and>
     st_ObservedGeneration (o_Status obj) = o_Generation obj \<and>
     (\<exists>c. FindStatusCondition am (st_Conditions (o_Status obj)) ConditionReady = Some c \<and>
          c_Status c = ConditionTrue \<and> c_ObservedGeneration c = o_Generation obj)"
  by (auto simp: project_def phase_def Let_def split: option.splits)

section \<open>Refinement of a lease ledger\<close>

text \<open>
  What the service promises, without API objects: a ledger of leases by name, and whether a request is granted.
  A request counts when it carries a caller, a DNS label of at most 59 characters and a lifetime of 30
  seconds to 24 hours (as a duration of 64 bits). Creating claims a free name for the stub
  tier, the only one there is, and grants again the lease the caller holds; renewing moves the
  expiry of the caller's own unforgotten lease forward and never back; every other request is refused
  and changes nothing.
\<close>

record lease_entry =
  le_Owner :: string
  le_Tier :: string
  le_Expires :: time
  le_Forgotten :: bool

type_synonym ledger = "string \<rightharpoonup> lease_entry"

definition request_ok :: "ctx_t \<Rightarrow> string \<Rightarrow> int64 \<Rightarrow> bool" where
  "request_ok ctx n ttl \<longleftrightarrow> ctx \<notin> {None, Some ''''} \<and> dns_label n \<and> length n \<le> 59 \<and>
     30 * 1000000000 \<le> sint (ttl * Second) \<and> sint (ttl * Second) \<le> 86400 * 1000000000"

definition ledger_create :: "ctx_t \<Rightarrow> string \<Rightarrow> string \<Rightarrow> int64 \<Rightarrow> time \<Rightarrow> ledger \<Rightarrow> bool \<times> ledger" where
  "ledger_create ctx n tier ttl now L =
     (if \<not> request_ok ctx n ttl \<or> tier \<notin> {'''', ''stub''} then (False, L)
      else case L n of
        None \<Rightarrow> (True, L(n \<mapsto> \<lparr>le_Owner = digestOf (the ctx), le_Tier = ''stub'',
          le_Expires = (now + sint (ttl * Second)) div 1000000000 * 1000000000, le_Forgotten = False\<rparr>))
      | Some e \<Rightarrow> (le_Owner e = digestOf (the ctx) \<and> le_Tier e = ''stub'', L))"

definition ledger_renew :: "ctx_t \<Rightarrow> string \<Rightarrow> int64 \<Rightarrow> time \<Rightarrow> ledger \<Rightarrow> bool \<times> ledger" where
  "ledger_renew ctx n ttl now L =
     (case L n of None \<Rightarrow> (False, L) | Some e \<Rightarrow>
        if \<not> request_ok ctx n ttl \<or> le_Owner e \<noteq> digestOf (the ctx) \<or> le_Forgotten e then (False, L)
        else if now + sint (ttl * Second) \<le> le_Expires e then (True, L)
        else (True, L(n \<mapsto> e\<lparr>le_Expires := (now + sint (ttl * Second)) div 1000000000 * 1000000000\<rparr>)))"

text \<open>The ledger that the stored objects stand for.\<close>

definition entry :: "apimeta \<Rightarrow> Oubliette \<Rightarrow> lease_entry" where
  "entry am obj = \<lparr>le_Owner = annotation obj CallerDigestAnnotation, le_Tier = spec_Tier (o_Spec obj),
     le_Expires = spec_ExpiresAt (o_Spec obj),
     le_Forgotten = IsStatusConditionTrue am (st_Conditions (o_Status obj)) ConditionForgotten\<rparr>"

definition ledger_of :: "apimeta \<Rightarrow> (string \<rightharpoonup> Oubliette) \<Rightarrow> ledger" where
  "ledger_of am m n = map_option (entry am) (m n)"

text \<open>A call of the service as the ledger sees it: whether it was granted, and the ledger afterwards.\<close>

definition ledger_view :: "apimeta \<Rightarrow> ('s \<Rightarrow> string \<Rightarrow> Oubliette option) \<Rightarrow> (svc_err + 'v) \<times> 's \<Rightarrow> bool \<times> ledger" where
  "ledger_view am objs out = (\<not> isl (fst out), ledger_of am (objs (snd out)))"

lemma ledger_of_update: "ledger_of am (m(n \<mapsto> obj)) = (ledger_of am m)(n \<mapsto> entry am obj)"
  by (auto simp: ledger_of_def)

lemma ownedBy_digest: "callerDigest ctx = Inr d \<Longrightarrow>
    ownedBy obj d \<longleftrightarrow> annotation obj CallerDigestAnnotation = d"
  by (auto simp: callerDigest_def digestOf_def ownedBy_def annotation_def split: option.splits sum.splits)

lemma entry_zeroStatus: "condition_laws am \<Longrightarrow> o_Status obj = zeroStatus \<Longrightarrow> \<not> le_Forgotten (entry am obj)"
  by (simp add: entry_def zeroStatus_def condition_true_iff find_condition_Nil)

lemma request_ok_iff:
  "request_ok ctx n ttl \<longleftrightarrow> (\<exists>d. callerDigest ctx = Inr d) \<and> validateName n = None \<and> validateTTL ttl = None"
  by (auto simp: request_ok_def callerDigest_def Caller_def validateName_iff validateTTL_def Let_def split: option.splits)

lemma request_okD:
  assumes "request_ok ctx n ttl"
  shows "callerDigest ctx = Inr (digestOf (the ctx))" and "validateName n = None" and "validateTTL ttl = None"
proof -
  show "callerDigest ctx = Inr (digestOf (the ctx))" using assms by (cases ctx) (auto simp: request_ok_def callerDigest_Some)
qed (use assms in \<open>auto simp: request_ok_iff\<close>)

lemma tier_ok: "tier \<in> {'''', ''stub''} \<longleftrightarrow> (if tier = '''' then TierStub else tier) = TierStub"
  by (auto simp: TierStub_def)

lemma Create_refused:
  assumes "\<not> request_ok ctx (ci_Name ci) (ci_TTLSeconds ci) \<or> ci_Tier ci \<notin> {'''', ''stub''}"
  shows "\<exists>e. Create am C now ctx ci s = (Inl e, s)"
  using assms unfolding request_ok_iff tier_ok by (auto simp: Create_def Let_def split: sum.splits option.splits)

lemma Create_refines:
  assumes laws: "object_laws C objs" "condition_laws am"
  shows "ledger_view am objs (Create am C now ctx ci s)
    = ledger_create ctx (ci_Name ci) (ci_Tier ci) (ci_TTLSeconds ci) now (ledger_of am (objs s))"
proof (cases "request_ok ctx (ci_Name ci) (ci_TTLSeconds ci) \<and> ci_Tier ci \<in> {'''', ''stub''}")
  case False
  then obtain e where "Create am C now ctx ci s = (Inl e, s)" using Create_refused[of ctx ci] by metis
  with False show ?thesis by (auto simp: ledger_view_def ledger_create_def)
next
  case ok: True
  let ?n = "ci_Name ci" and ?d = "digestOf (the ctx)" and ?t = "Time_Add now (ci_TTLSeconds ci * Second)"
  note v = request_okD[OF ok[THEN conjunct1]] and tier = ok[THEN conjunct2, unfolded tier_ok]
  let ?x = "newOubliette ?n ?d TierStub ?t"
  have nm: "o_Name ?x = ?n" by (simp add: newOubliette_def)
  show ?thesis
  proof (cases "objs s ?n")
    case None
    with nm object_laws_Create_fresh[OF laws(1), of s ?x] obtain x' s' where
      x': "cl_Create C ?x s = (Inr x', s')" "objs s' = (objs s)(?n \<mapsto> x')"
      "o_Annotations x' = o_Annotations ?x" "spec_Tier (o_Spec x') = spec_Tier (o_Spec ?x)"
      "spec_ExpiresAt (o_Spec x') = truncSecond (spec_ExpiresAt (o_Spec ?x))" "o_Status x' = zeroStatus"
      by auto
    have "entry am x' = \<lparr>le_Owner = ?d, le_Tier = ''stub'',
        le_Expires = (now + sint (ci_TTLSeconds ci * Second)) div 1000000000 * 1000000000, le_Forgotten = False\<rparr>"
      using x' entry_zeroStatus[OF laws(2) x'(6)]
      by (simp add: entry_def annotation_def newOubliette_def mapGet_def TierStub_def truncSecond_def Time_Add_def)
    moreover have "Create am C now ctx ci s = (Inr (project am x'), s')" using v tier x'(1) by (simp add: Create_def Let_def)
    ultimately show ?thesis using ok None x'(2)
      by (simp add: ledger_view_def ledger_of_update ledger_create_def) (simp add: ledger_of_def)
  next
    case (Some y)
    have c: "cl_Create C ?x s = (Inl (AlreadyExists ?n), s)" using Some nm object_laws_Create_taken[OF laws(1), of s ?x] by simp
    have "snd (Create am C now ctx ci s) = s \<and> (\<not> isl (fst (Create am C now ctx ci s)) \<longleftrightarrow> ownedBy y ?d \<and> spec_Tier (o_Spec y) = TierStub)"
      using v tier c Some object_laws_Get[OF laws(1), of ?n s] by (simp add: Create_def Let_def)
    moreover have "ledger_of am (objs s) ?n = Some (entry am y)" using Some by (simp add: ledger_of_def)
    ultimately show ?thesis using ok ownedBy_digest[OF v(1), of y]
      by (auto simp: ledger_view_def ledger_create_def entry_def TierStub_def)
  qed
qed

lemma Renew_refines:
  assumes laws: "object_laws C objs" "condition_laws am"
  shows "ledger_view am objs (Renew am C now ctx ri s) = ledger_renew ctx (ri_Name ri) (ri_TTLSeconds ri) now (ledger_of am (objs s))"
proof (cases "request_ok ctx (ri_Name ri) (ri_TTLSeconds ri)")
  case False
  then have "\<exists>e. Renew am C now ctx ri s = (Inl e, s)"
    unfolding request_ok_iff by (auto simp: Renew_def split: sum.splits option.splits)
  with False show ?thesis by (auto simp: ledger_view_def ledger_renew_def split: option.splits)
next
  case ok: True
  note v = request_okD[OF ok]
  let ?n = "ri_Name ri" and ?d = "digestOf (the ctx)" and ?t = "Time_Add now (ri_TTLSeconds ri * Second)"
  have g: "cl_Get C ?n s = (case objs s ?n of None \<Rightarrow> Inl (NotFound ?n) | Some obj \<Rightarrow> Inr obj, s)" by (rule object_laws_Get[OF laws(1)])
  show ?thesis
  proof (cases "objs s ?n")
    case None
    then show ?thesis using v g by (simp add: Renew_def ledger_view_def ledger_renew_def) (simp add: ledger_of_def)
  next
    case (Some y)
    let ?x = "y\<lparr>o_Spec := (o_Spec y)\<lparr>spec_ExpiresAt := ?t\<rparr>\<rparr>"
    have nm: "o_Name ?x = ?n" using object_laws_name[OF laws(1) Some] by simp
    with Some object_laws_Update[OF laws(1), of s ?x y] obtain x' s' where
      x': "cl_Update C ?x s = (Inr x', s')" "objs s' = (objs s)(?n \<mapsto> x')"
      "o_Annotations x' = o_Annotations y" "spec_Tier (o_Spec x') = spec_Tier (o_Spec y)"
      "spec_ExpiresAt (o_Spec x') = truncSecond ?t" "o_Status x' = o_Status y"
      by auto
    have e: "entry am x' = (entry am y)\<lparr>le_Expires := (now + sint (ri_TTLSeconds ri * Second)) div 1000000000 * 1000000000\<rparr>"
      using x' by (simp add: entry_def annotation_def truncSecond_def Time_Add_def)
    have L: "ledger_of am (objs s) ?n = Some (entry am y)" using Some by (simp add: ledger_of_def)
    have own: "ownedBy y ?d \<longleftrightarrow> le_Owner (entry am y) = ?d" "le_Forgotten (entry am y) =
        IsStatusConditionTrue am (st_Conditions (o_Status y)) ConditionForgotten"
      "le_Expires (entry am y) = spec_ExpiresAt (o_Spec y)"
      using ownedBy_digest[OF v(1)] by (simp_all add: entry_def)
    have later: "?t > spec_ExpiresAt (o_Spec y) \<longleftrightarrow> \<not> now + sint (ri_TTLSeconds ri * Second) \<le> le_Expires (entry am y)"
      by (auto simp: own Time_Add_def)
    show ?thesis using v ok g Some x'(1,2) own later
      by (auto simp: Renew_def Let_def ledger_renew_def ledger_view_def L ledger_of_update e)
  qed
qed

text \<open>C11: against a reachable API server the stored objects refine the ledger, for every caller, name, tier and lifetime, valid or not:
  create and renew grant exactly the requests the ledger grants and change it exactly as the ledger's operations do (with expiries in whole seconds,
  as the API stores them), and get and list do not change it.\<close>

theorem lifecycle_refines_ledger:
  assumes "object_laws C objs" and "condition_laws am"
  shows "ledger_view am objs (Create am C now ctx ci s) = ledger_create ctx (ci_Name ci) (ci_Tier ci) (ci_TTLSeconds ci) now (ledger_of am (objs s)) \<and>
    ledger_view am objs (Renew am C now ctx ri s) = ledger_renew ctx (ri_Name ri) (ri_TTLSeconds ri) now (ledger_of am (objs s)) \<and>
    snd (Get am C ctx n s) = s \<and> snd (Service_List am C ctx s) = s"
proof (intro conjI Create_refines Renew_refines assms)
  show "snd (Get am C ctx n s) = s"
    using object_laws_Get[OF assms(1), of n s] by (auto simp: Get_def split: option.splits sum.splits)
  show "snd (Service_List am C ctx s) = s"
    using object_laws_List[OF assms(1), of s] by (auto simp: Service_List_def split: sum.splits)
qed

theorem lifecycle_refines_ledger_witness:
  "ledger_view listmeta mem_find (Create listmeta memclient 0 (Some ''alice'') \<lparr>ci_Name = ''demo'', ci_Tier = '''', ci_TTLSeconds = 60\<rparr> [])
     = (True, [''demo'' \<mapsto> \<lparr>le_Owner = digestOf ''alice'', le_Tier = ''stub'', le_Expires = 60000000000, le_Forgotten = False\<rparr>]) \<and>
   ledger_view listmeta mem_find (Create listmeta memclient 0 (Some ''alice'') \<lparr>ci_Name = ''demo'', ci_Tier = ''gold'', ci_TTLSeconds = 60\<rparr> []) = (False, Map.empty)"
proof -
  have e: "ledger_of listmeta (mem_find []) = Map.empty" by (simp add: ledger_of_def mem_find_def fun_eq_iff)
  have ok: "request_ok (Some ''alice'') ''demo'' 60" unfolding request_ok_iff using callerDigest_Some[of "''alice''"] demo_valid minute_valid by simp
  have ttl: "sint ((60 :: int64) * Second) = 60000000000" by (simp add: Second_def)
  note L = lifecycle_refines_ledger[OF memclient_laws listmeta_laws, of 0 "Some ''alice''" _ "[]", THEN conjunct1]
  show ?thesis unfolding L e by (simp add: ledger_create_def ok ttl)
qed

text \<open>A successful creation of a free name is visible to its creator at once, with the same
  view, and to a caller with any other digest the name does not exist.\<close>

theorem create_then_get:
  assumes laws: "object_laws C objs" and d: "callerDigest ctx = Inr d"
    and n: "validateName n = None" and ttl: "validateTTL ttl = None" and free: "objs s n = None"
  shows "\<exists>v s'. Create am C now ctx \<lparr>ci_Name = n, ci_Tier = '''', ci_TTLSeconds = ttl\<rparr> s = (Inr v, s')
    \<and> Get am C ctx n s' = (Inr v, s') \<and> v_Name v = n \<and> v_Tier v = TierStub
    \<and> (\<forall>ctx' d'. callerDigest ctx' = Inr d' \<and> d' \<noteq> d \<longrightarrow> Get am C ctx' n s' = (Inl (Api (NotFound n)), s'))"
proof -
  let ?x = "newOubliette n d TierStub (Time_Add now (ttl * Second))"
  have "o_Name ?x = n" by (simp add: newOubliette_def)
  with free object_laws_Create_fresh[OF laws, of s ?x] obtain x' s' where
    x': "cl_Create C ?x s = (Inr x', s')" "objs s' = (objs s)(n \<mapsto> x')" "o_Name x' = n"
    "o_Annotations x' = o_Annotations ?x" "spec_Tier (o_Spec x') = spec_Tier (o_Spec ?x)" by auto
  have own: "ownedBy x' d' \<longleftrightarrow> d' = d" for d'
    using x'(4) by (auto simp: ownedBy_def newOubliette_def mapGet_def)
  have "Create am C now ctx \<lparr>ci_Name = n, ci_Tier = '''', ci_TTLSeconds = ttl\<rparr> s = (Inr (project am x'), s')"
    using d n ttl x'(1) by (simp add: Create_def Let_def)
  moreover have g: "cl_Get C n s' = (Inr x', s')" using object_laws_Get[OF laws, of n s'] x'(2) by simp
  then have "Get am C ctx n s' = (Inr (project am x'), s')" using d n own by (simp add: Get_def)
  moreover have "v_Name (project am x') = n \<and> v_Tier (project am x') = TierStub"
    using x' by (simp add: project_def newOubliette_def)
  moreover have "callerDigest ctx' = Inr d' \<Longrightarrow> d' \<noteq> d \<Longrightarrow> Get am C ctx' n s' = (Inl (Api (NotFound n)), s')"
    for ctx' d' using n own g by (simp add: Get_def notFound_def)
  ultimately show ?thesis by blast
qed

theorem create_then_get_witness:
  "\<exists>v s'. Create listmeta memclient 0 (Some ''alice'') \<lparr>ci_Name = ''demo'', ci_Tier = '''', ci_TTLSeconds = 60\<rparr> [] = (Inr v, s')
    \<and> Get listmeta memclient (Some ''alice'') ''demo'' s' = (Inr v, s') \<and> v_Name v = ''demo''"
  using create_then_get[OF memclient_laws callerDigest_Some demo_valid minute_valid, of "''alice''" "[]" listmeta 0]
  by (force simp: mem_find_def)

end
