(* ===== verification/Http.thy ===== *)
theory Http
  imports Prelude
begin

text \<open>
  Requests and responses of \<open>net/http\<close> as far as the handlers read and write them. A
  request carries the value of its \<open>Authorization\<close> header; a response is the status, the
  headers set on it in order, and the body.
\<close>

record http_request =
  rq_Method :: string
  rq_Path :: string
  rq_Authorization :: string
  rq_Body :: string

record http_response =
  rs_Status :: int
  rs_Headers :: "(string \<times> string) list"
  rs_Body :: string

definition MethodGet :: string where "MethodGet = ''GET''"
definition MethodPost :: string where "MethodPost = ''POST''"

definition StatusOK :: int where "StatusOK = 200"
definition StatusBadRequest :: int where "StatusBadRequest = 400"
definition StatusUnauthorized :: int where "StatusUnauthorized = 401"
definition StatusForbidden :: int where "StatusForbidden = 403"
definition StatusMethodNotAllowed :: int where "StatusMethodNotAllowed = 405"
definition StatusUnprocessableEntity :: int where "StatusUnprocessableEntity = 422"
definition StatusTooManyRequests :: int where "StatusTooManyRequests = 429"
definition StatusInternalServerError :: int where "StatusInternalServerError = 500"
definition StatusBadGateway :: int where "StatusBadGateway = 502"
definition StatusServiceUnavailable :: int where "StatusServiceUnavailable = 503"

lemmas status_defs = StatusOK_def StatusBadRequest_def StatusUnauthorized_def StatusForbidden_def
  StatusMethodNotAllowed_def StatusUnprocessableEntity_def StatusTooManyRequests_def
  StatusInternalServerError_def StatusBadGateway_def StatusServiceUnavailable_def

text \<open>\<open>http.Error\<close>: a plain text body after the headers set so far.\<close>

definition http_Error :: "(string \<times> string) list \<Rightarrow> string \<Rightarrow> int \<Rightarrow> http_response" where
  "http_Error hs msg code = \<lparr>rs_Status = code,
     rs_Headers = hs @ [(''Content-Type'', ''text/plain; charset=utf-8''),
                        (''X-Content-Type-Options'', ''nosniff'')],
     rs_Body = msg @ [CHR 0x0A]\<rparr>"

definition bearer :: string where "bearer = ''Bearer ''"

lemma length_bearer [simp]: "length bearer = 7"
  by (simp add: bearer_def)

end
