(* ===== verification/McpAuth.thy ===== *)
theory McpAuth
  imports Http Lifecycle
begin

text \<open>
  Authentication of lifecycle requests, \<open>internal/mcpauth/auth.go\<close>: a resolver turns a
  bearer token into a caller identity by a Kubernetes TokenReview, and a middleware attaches
  that identity to the request context before the lifecycle handler runs. The TokenReview
  API is a parameter; the \<open>Resolver\<close> interface is the locale \<open>caller_resolver\<close>,
  interpreted on the Kubernetes resolver.
\<close>

section \<open>The Kubernetes resolver\<close>

datatype auth_err = ErrInvalidCredential | ErrJoined auth_err api_err

record TokenReviewStatus =
  tr_Authenticated :: bool
  tr_Username :: string
  tr_Audiences :: "string list"

text \<open>Creating a TokenReview for a token and a list of audiences.\<close>

type_synonym 's review_client =
  "string \<Rightarrow> string list \<Rightarrow> 's \<Rightarrow> (api_err + TokenReviewStatus) \<times> 's"

definition DefaultAudience :: string where "DefaultAudience = ''oubliette-mcp''"

fun contains :: "string list \<Rightarrow> string \<Rightarrow> bool" where
  "contains [] want = False"
| "contains (v # vs) want = (if v = want then True else contains vs want)"

definition Resolve ::
  "'s review_client option \<Rightarrow> string \<Rightarrow> string \<Rightarrow> 's \<Rightarrow> (auth_err + string) \<times> 's" where
  "Resolve client audience token s =
     (case client of
        None \<Rightarrow> (Inl ErrInvalidCredential, s)
      | Some create \<Rightarrow>
          if audience = '''' \<or> token = '''' then (Inl ErrInvalidCredential, s) else
          (case create token [audience] s of
             (Inl err, s1) \<Rightarrow> (Inl (ErrJoined ErrInvalidCredential err), s1)
           | (Inr review, s1) \<Rightarrow>
               if \<not> tr_Authenticated review \<or> tr_Username review = ''''
                  \<or> \<not> contains (tr_Audiences review) audience
               then (Inl ErrInvalidCredential, s1)
               else (Inr (tr_Username review), s1)))"

section \<open>The middleware\<close>

definition unauthorized :: http_response where
  "unauthorized = http_Error [(''WWW-Authenticate'', ''Bearer'')] ''unauthorized'' StatusUnauthorized"

definition Authenticate ::
  "(string \<Rightarrow> 's \<Rightarrow> (auth_err + string) \<times> 's) option
   \<Rightarrow> (ctx_t \<Rightarrow> http_request \<Rightarrow> 's \<Rightarrow> http_response \<times> 's)
   \<Rightarrow> ctx_t \<Rightarrow> http_request \<Rightarrow> 's \<Rightarrow> http_response \<times> 's" where
  "Authenticate resolver next ctx r s =
     (let authorization = rq_Authorization r in
      case resolver of
        None \<Rightarrow> (unauthorized, s)
      | Some resolve \<Rightarrow>
          if \<not> HasPrefix authorization bearer \<or> length authorization = length bearer
          then (unauthorized, s) else
          (case resolve (TrimPrefix authorization bearer) s of
             (Inl err, s1) \<Rightarrow> (unauthorized, s1)
           | (Inr caller, s1) \<Rightarrow>
               if caller = '''' then (unauthorized, s1)
               else next (WithCaller ctx caller) r s1))"

section \<open>The Resolver interface\<close>

lemma contains_iff: "contains vs w \<longleftrightarrow> w \<in> set vs"
  by (induction vs) auto

text \<open>
  What a client of the interface relies on: a token is only turned into an identity that
  the resolver vouches for in the state it was asked in, and never into the empty one.
\<close>

locale caller_resolver =
  fixes resolve :: "string \<Rightarrow> 's \<Rightarrow> (auth_err + string) \<times> 's"
    and vouched :: "'s \<Rightarrow> string \<Rightarrow> string \<Rightarrow> bool"
  assumes resolve_vouched: "resolve token s = (Inr caller, s') \<Longrightarrow> vouched s token caller"
    and resolve_nonempty: "resolve token s = (Inr caller, s') \<Longrightarrow> caller \<noteq> ''''"
begin

text \<open>The wrapped handler runs only for a vouched caller; otherwise the answer is 401.\<close>

lemma authenticate_cases:
  "Authenticate (Some resolve) next ctx r s \<in> {(unauthorized, s)} \<union>
     {(unauthorized, s1) | s1 e. resolve (TrimPrefix (rq_Authorization r) bearer) s = (Inl e, s1)} \<union>
     {next (Some caller) r s1 | caller s1.
        rq_Authorization r = bearer @ TrimPrefix (rq_Authorization r) bearer \<and>
        resolve (TrimPrefix (rq_Authorization r) bearer) s = (Inr caller, s1) \<and>
        vouched s (TrimPrefix (rq_Authorization r) bearer) caller \<and> caller \<noteq> ''''}"
proof -
  let ?t = "TrimPrefix (rq_Authorization r) bearer"
  consider (bad) "\<not> HasPrefix (rq_Authorization r) bearer \<or> length (rq_Authorization r) = length bearer"
    | (err) e s1 where "HasPrefix (rq_Authorization r) bearer"
        "length (rq_Authorization r) \<noteq> length bearer" "resolve ?t s = (Inl e, s1)"
    | (ok) c s1 where "HasPrefix (rq_Authorization r) bearer"
        "length (rq_Authorization r) \<noteq> length bearer" "resolve ?t s = (Inr c, s1)"
    by (metis surj_pair sum.exhaust)
  then show ?thesis
  proof cases
    case ok
    moreover have "rq_Authorization r = bearer @ ?t"
      using HasPrefixD[OF ok(1)] by (metis TrimPrefix_append)
    ultimately show ?thesis
      using resolve_vouched[OF ok(3)] resolve_nonempty[OF ok(3)]
      by (auto simp: Authenticate_def Let_def WithCaller_def)
  qed (auto simp: Authenticate_def Let_def)
qed

end

text \<open>
  The Kubernetes resolver implements the interface: it vouches for a user name that a
  TokenReview of the token for its audience authenticated.
\<close>

definition reviewed :: "'s review_client \<Rightarrow> string \<Rightarrow> 's \<Rightarrow> string \<Rightarrow> string \<Rightarrow> bool" where
  "reviewed create audience s token caller \<longleftrightarrow>
     audience \<noteq> '''' \<and> token \<noteq> '''' \<and>
     (\<exists>review s'. create token [audience] s = (Inr review, s') \<and> tr_Authenticated review \<and>
        tr_Username review = caller \<and> audience \<in> set (tr_Audiences review))"

lemma Resolve_reviewed:
  "Resolve (Some create) audience token s = (Inr caller, s') \<Longrightarrow>
     reviewed create audience s token caller \<and> caller \<noteq> ''''"
  by (auto simp: Resolve_def reviewed_def contains_iff split: if_splits prod.splits sum.splits)

interpretation kube: caller_resolver "Resolve (Some create) audience" "reviewed create audience"
  for create :: "'s review_client" and audience :: string
  by unfold_locales (auto dest: Resolve_reviewed)

section \<open>Properties\<close>

text \<open>A token becomes a caller identity only if a TokenReview of exactly that token,
  asked for exactly the configured audience, says that it is authenticated, names that
  non-empty user and lists the audience.\<close>

theorem resolve_requires_review:
  assumes "Resolve client audience token s = (Inr caller, s')"
  shows "\<exists>create review. client = Some create \<and> create token [audience] s = (Inr review, s') \<and>
    tr_Authenticated review \<and> tr_Username review = caller \<and> caller \<noteq> '''' \<and>
    audience \<noteq> '''' \<and> audience \<in> set (tr_Audiences review)"
  using assms
  by (auto simp: Resolve_def contains_iff split: if_splits prod.splits sum.splits option.splits)

definition demo_review :: "unit review_client" where
  "demo_review token auds s = (Inr \<lparr>tr_Authenticated = (token = ''t''), tr_Username = ''alice'',
     tr_Audiences = auds\<rparr>, s)"

theorem resolve_requires_review_witness:
  "\<exists>create review. Some demo_review = Some create \<and> create ''t'' [DefaultAudience] () = (Inr review, ()) \<and>
    tr_Authenticated review \<and> tr_Username review = ''alice'' \<and> ''alice'' \<noteq> '''' \<and>
    DefaultAudience \<noteq> '''' \<and> DefaultAudience \<in> set (tr_Audiences review)"
  by (rule resolve_requires_review) (simp add: Resolve_def demo_review_def DefaultAudience_def)

text \<open>C39: behind the middleware with the Kubernetes resolver, the lifecycle handler runs
  only for a request whose header is \<open>Bearer\<close> followed by a token that a TokenReview for the
  audience authenticated, with exactly that user as the caller of its context; every other
  request is answered with 401 and never reaches the handler.\<close>

theorem authenticated_handler_only:
  "Authenticate (Some (Resolve (Some create) audience)) next ctx r s \<in> {(unauthorized, s)} \<union>
     {(unauthorized, s1) | s1 e.
        Resolve (Some create) audience (TrimPrefix (rq_Authorization r) bearer) s = (Inl e, s1)} \<union>
     {next (Some caller) r s1 | caller s1.
        rq_Authorization r = bearer @ TrimPrefix (rq_Authorization r) bearer \<and>
        Resolve (Some create) audience (TrimPrefix (rq_Authorization r) bearer) s = (Inr caller, s1) \<and>
        reviewed create audience s (TrimPrefix (rq_Authorization r) bearer) caller \<and> caller \<noteq> ''''}"
  by (rule kube.authenticate_cases)

end
