(* ===== verification/MetricsPolicy.thy ===== *)
theory MetricsPolicy
  imports Prelude
begin

text \<open>
  The query policy of the metrics gateway, \<open>internal/metricsgateway/policy.go\<close>: a PromQL
  query is parsed, every node of its syntax tree is checked against the policy and every
  vector selector is pinned to one Oubliette and one trust domain before the query is
  printed again. The PromQL parser and the matcher constructor are third-party code, a
  record of functions that the definitions take as an argument.
\<close>

section \<open>Scope and policy\<close>

definition OublietteLabel :: string where "OublietteLabel = ''oubliette_id''"
definition TrustDomainLabel :: string where "TrustDomainLabel = ''oubliette_trust_domain''"

record Policy =
  p_AllowedMetrics :: "string list"
  p_SensitiveLabels :: "string list"
  p_MaxLookback :: duration
  p_MinStep :: duration
  p_MaxExecutionTime :: duration
  p_MaxSamples :: int
  p_MaxResponseBytes :: int64
  p_MaxConcurrency :: int
  p_MaxRequestsPerMinute :: int

record Scope =
  sc_Subject :: string
  sc_Oubliette :: string
  sc_TrustDomain :: string
  sc_Upstream :: string
  sc_UpstreamAuthorization :: string
  sc_Policy :: Policy

definition Sensitive :: "Policy \<Rightarrow> string \<Rightarrow> bool" where
  "Sensitive p label \<longleftrightarrow> label \<in> set (p_SensitiveLabels p)"

definition durationMagnitude :: "duration \<Rightarrow> duration" where
  "durationMagnitude value = (if sint value < 0 then - value else value)"

section \<open>The PromQL library\<close>

datatype match_type = MatchEqual | MatchNotEqual | MatchRegexp | MatchNotRegexp

record matcher =
  m_Type :: match_type
  m_Name :: string
  m_Value :: string

text \<open>
  The node types of the syntax tree with the fields the visitor reads. \<open>Timestamp\<close> is
  present for an \<open>@\<close> modifier with a literal, \<open>StartOrEnd\<close> is non-zero for
  \<open>@ start()\<close> and \<open>@ end()\<close>; a binary expression without vector matching has
  \<open>None\<close>, otherwise the matching labels and the included ones.
\<close>

record vector_selector =
  vs_Name :: string
  vs_LabelMatchers :: "matcher list"
  vs_Timestamp :: "int option"
  vs_StartOrEnd :: int
  vs_OriginalOffset :: duration

record subquery =
  sq_Range :: duration
  sq_OriginalOffset :: duration
  sq_Timestamp :: "int option"
  sq_StartOrEnd :: int
  sq_Step :: duration

datatype node =
    VectorSelector vector_selector
  | MatrixSelector duration
  | SubqueryExpr subquery
  | Call string
  | AggregateExpr "string list"
  | BinaryExpr "(string list \<times> string list) option"
  | StringLiteral string
  | OtherNode

datatype policy_err =
    ScopeIncomplete
  | ParseError string
  | MetricNotAllowed string
  | ReservedLabel string
  | SensitiveSelector string
  | ExplicitTimestamp
  | OffsetExceedsLookback
  | RangeExceedsLookback
  | SubqueryExceedsLookback
  | SubqueryStepTooSmall
  | FunctionNotAllowed string
  | SensitiveGrouping string
  | SensitiveMatching string
  | SensitiveReference string

text \<open>
  The callback given to \<open>parser.Inspect\<close> receives a node, or nil when the walk leaves a
  node; it shares the variable \<open>rewriteErr\<close> with its surroundings and may change the node
  in place. A call returns the callback's result, the node as it leaves it, and the
  variable.
\<close>

type_synonym visitor =
  "node option \<Rightarrow> policy_err option \<Rightarrow> policy_err option \<times> node option \<times> policy_err option"

text \<open>
  The library over an expression type \<open>'e\<close>. \<open>Visits\<close> is the sequence of callback
  arguments of a complete walk. \<open>NewMatcher\<close> is the first result of \<open>labels.NewMatcher\<close>; the callers drop the error.
  \<open>Matches\<close> is the evaluation of a matcher on the labels of a series.
\<close>

record 'e promql =
  ParseExpr :: "string \<Rightarrow> string + 'e"
  Inspect :: "'e \<Rightarrow> visitor \<Rightarrow> policy_err option \<Rightarrow> 'e \<times> policy_err option"
  ExprString :: "'e \<Rightarrow> string"
  Visits :: "'e \<Rightarrow> node option list"
  NewMatcher :: "match_type \<Rightarrow> string \<Rightarrow> string \<Rightarrow> matcher"
  Matches :: "matcher \<Rightarrow> (string \<Rightarrow> string) \<Rightarrow> bool"

section \<open>Rewriting\<close>

definition checkMatchers :: "Policy \<Rightarrow> matcher list \<Rightarrow> policy_err option" where
  "checkMatchers p ms =
     (case find (\<lambda>m. m_Name m = OublietteLabel \<or> m_Name m = TrustDomainLabel
                   \<or> Sensitive p (m_Name m)) ms of
        None \<Rightarrow> None
      | Some m \<Rightarrow> if m_Name m = OublietteLabel \<or> m_Name m = TrustDomainLabel
                  then Some (ReservedLabel (m_Name m)) else Some (SensitiveSelector (m_Name m)))"

definition checkLabels :: "Policy \<Rightarrow> (string \<Rightarrow> policy_err) \<Rightarrow> string list \<Rightarrow> policy_err option" where
  "checkLabels p err labels = map_option err (find (Sensitive p) labels)"

text \<open>One node: an error, or the node as the visitor leaves it.\<close>

fun visitNode :: "'e promql \<Rightarrow> Policy \<Rightarrow> string \<Rightarrow> string \<Rightarrow> node \<Rightarrow> policy_err + node" where
  "visitNode pq p oubliette trustDomain (VectorSelector vs) =
     (if vs_Name vs = '''' \<or> vs_Name vs \<notin> set (p_AllowedMetrics p)
      then Inl (MetricNotAllowed (vs_Name vs))
      else (case checkMatchers p (vs_LabelMatchers vs) of Some e \<Rightarrow> Inl e | None \<Rightarrow>
        if vs_Timestamp vs \<noteq> None \<or> vs_StartOrEnd vs \<noteq> 0 then Inl ExplicitTimestamp
        else if sint (p_MaxLookback p) > 0
              \<and> sint (durationMagnitude (vs_OriginalOffset vs)) > sint (p_MaxLookback p)
        then Inl OffsetExceedsLookback
        else Inr (VectorSelector (vs\<lparr>vs_LabelMatchers := vs_LabelMatchers vs @
               [NewMatcher pq MatchEqual OublietteLabel oubliette,
                NewMatcher pq MatchEqual TrustDomainLabel trustDomain]\<rparr>))))"
| "visitNode pq p oubliette trustDomain (MatrixSelector rng) =
     (if sint (p_MaxLookback p) > 0 \<and> sint rng > sint (p_MaxLookback p)
      then Inl RangeExceedsLookback else Inr (MatrixSelector rng))"
| "visitNode pq p oubliette trustDomain (SubqueryExpr sq) =
     (if sq_Timestamp sq \<noteq> None \<or> sq_StartOrEnd sq \<noteq> 0 then Inl ExplicitTimestamp
      else if sint (p_MaxLookback p) > 0
              \<and> sint (sq_Range sq + durationMagnitude (sq_OriginalOffset sq)) > sint (p_MaxLookback p)
      then Inl SubqueryExceedsLookback
      else if sint (p_MinStep p) > 0 \<and> sint (sq_Step sq) > 0 \<and> sint (sq_Step sq) < sint (p_MinStep p)
      then Inl SubqueryStepTooSmall
      else Inr (SubqueryExpr sq))"
| "visitNode pq p oubliette trustDomain (Call f) =
     (if f = ''label_replace'' \<or> f = ''label_join'' then Inl (FunctionNotAllowed f) else Inr (Call f))"
| "visitNode pq p oubliette trustDomain (AggregateExpr grouping) =
     (case checkLabels p SensitiveGrouping grouping of Some e \<Rightarrow> Inl e | None \<Rightarrow> Inr (AggregateExpr grouping))"
| "visitNode pq p oubliette trustDomain (BinaryExpr vm) =
     (case vm of None \<Rightarrow> Inr (BinaryExpr vm) | Some (matching, inc) \<Rightarrow>
        (case checkLabels p SensitiveMatching (matching @ inc) of
           Some e \<Rightarrow> Inl e | None \<Rightarrow> Inr (BinaryExpr vm)))"
| "visitNode pq p oubliette trustDomain (StringLiteral val) =
     (if Sensitive p val then Inl (SensitiveReference val) else Inr (StringLiteral val))"
| "visitNode pq p oubliette trustDomain OtherNode = Inr OtherNode"

definition visit :: "'e promql \<Rightarrow> Policy \<Rightarrow> string \<Rightarrow> string \<Rightarrow> visitor" where
  "visit pq p oubliette trustDomain n rewriteErr =
     (if rewriteErr \<noteq> None then (rewriteErr, n, rewriteErr)
      else (case n of None \<Rightarrow> (rewriteErr, n, rewriteErr)
      | Some nd \<Rightarrow> (case visitNode pq p oubliette trustDomain nd of
            Inl e \<Rightarrow> (Some e, n, Some e)
          | Inr nd' \<Rightarrow> (None, Some nd', None))))"

definition Rewrite :: "'e promql \<Rightarrow> Policy \<Rightarrow> string \<Rightarrow> string \<Rightarrow> string \<Rightarrow> policy_err + string" where
  "Rewrite pq p query oubliette trustDomain =
     (if oubliette = '''' \<or> trustDomain = '''' then Inl ScopeIncomplete
      else (case ParseExpr pq query of
        Inl err \<Rightarrow> Inl (ParseError err)
      | Inr expr \<Rightarrow>
          (case Inspect pq expr (visit pq p oubliette trustDomain) None of
             (expr', Some e) \<Rightarrow> Inl e
           | (expr', None) \<Rightarrow> Inr (ExprString pq expr'))))"

section \<open>Documented behaviour of the library\<close>

text \<open>
  A walk calls the callback on the visits in order and stops at the first error it returns.
\<close>

fun run_visits :: "visitor \<Rightarrow> node option list \<Rightarrow> policy_err option \<Rightarrow> node option list \<times> policy_err option" where
  "run_visits f [] st = ([], st)"
| "run_visits f (n # ns) st =
     (case f n st of
        (Some e, n', st') \<Rightarrow> (n' # ns, st')
      | (None, n', st') \<Rightarrow> (let (ns', st'') = run_visits f ns st' in (n' # ns', st'')))"

definition scope_matcher :: "matcher \<Rightarrow> bool" where
  "scope_matcher m \<longleftrightarrow> m_Type m = MatchEqual \<and> m_Name m \<in> {OublietteLabel, TrustDomainLabel}"

text \<open>The visitors the library is used with here: they add scope matchers to selectors.\<close>

definition appends_only :: "visitor \<Rightarrow> bool" where
  "appends_only f \<longleftrightarrow> (\<forall>n st. fst (snd (f n st)) = n \<or>
     (\<exists>vs ms. n = Some (VectorSelector vs) \<and> (\<forall>m \<in> set ms. scope_matcher m) \<and>
        fst (snd (f n st)) = Some (VectorSelector (vs\<lparr>vs_LabelMatchers := vs_LabelMatchers vs @ ms\<rparr>))))"

text \<open>Printing may reorder the matchers of a selector.\<close>

fun same_visit :: "node option \<Rightarrow> node option \<Rightarrow> bool" where
  "same_visit (Some (VectorSelector a)) (Some (VectorSelector b)) \<longleftrightarrow>
     vs_Name a = vs_Name b \<and> set (vs_LabelMatchers a) = set (vs_LabelMatchers b) \<and>
     vs_Timestamp a = vs_Timestamp b \<and> vs_StartOrEnd a = vs_StartOrEnd b \<and>
     vs_OriginalOffset a = vs_OriginalOffset b"
| "same_visit x y \<longleftrightarrow> x = y"

definition MetricName :: string where "MetricName = ''__name__''"

text \<open>
  What the packages \<open>promql/parser\<close> and \<open>model/labels\<close> document: \<open>Inspect\<close> walks the tree
  depth first until an error; the parser gives a selector with a metric name the matcher for
  that name; \<open>String\<close> is \<open>a string representation of the node that returns the given node when
  parsed\<close>; an equality matcher is built from its arguments and matches the series whose
  label has its value, a missing label being empty.
\<close>

definition promql_laws :: "'e promql \<Rightarrow> bool" where
  "promql_laws pq \<longleftrightarrow>
     (\<forall>e f st. appends_only f \<longrightarrow>
        run_visits f (Visits pq e) st = (Visits pq (fst (Inspect pq e f st)), snd (Inspect pq e f st))) \<and>
     (\<forall>q e vs. ParseExpr pq q = Inr e \<longrightarrow> Some (VectorSelector vs) \<in> set (Visits pq e) \<longrightarrow> vs_Name vs \<noteq> '''' \<longrightarrow>
        \<lparr>m_Type = MatchEqual, m_Name = MetricName, m_Value = vs_Name vs\<rparr> \<in> set (vs_LabelMatchers vs)) \<and>
     (\<forall>q e f st. ParseExpr pq q = Inr e \<longrightarrow> appends_only f \<longrightarrow>
        (\<exists>e'. ParseExpr pq (ExprString pq (fst (Inspect pq e f st))) = Inr e' \<and>
           list_all2 same_visit (Visits pq e') (Visits pq (fst (Inspect pq e f st))))) \<and>
     (\<forall>n v. NewMatcher pq MatchEqual n v = \<lparr>m_Type = MatchEqual, m_Name = n, m_Value = v\<rparr>) \<and>
     (\<forall>m ls. m_Type m = MatchEqual \<longrightarrow> Matches pq m ls = (ls (m_Name m) = m_Value m))"

lemma laws_inspect:
  "promql_laws pq \<Longrightarrow> appends_only f \<Longrightarrow>
     run_visits f (Visits pq e) st = (Visits pq (fst (Inspect pq e f st)), snd (Inspect pq e f st))"
  by (simp add: promql_laws_def)

lemma laws_name:
  "promql_laws pq \<Longrightarrow> ParseExpr pq q = Inr e \<Longrightarrow> Some (VectorSelector vs) \<in> set (Visits pq e) \<Longrightarrow>
     vs_Name vs \<noteq> '''' \<Longrightarrow>
     \<lparr>m_Type = MatchEqual, m_Name = MetricName, m_Value = vs_Name vs\<rparr> \<in> set (vs_LabelMatchers vs)"
  unfolding promql_laws_def by blast

lemma laws_reparse:
  "promql_laws pq \<Longrightarrow> ParseExpr pq q = Inr e \<Longrightarrow> appends_only f \<Longrightarrow>
     \<exists>e'. ParseExpr pq (ExprString pq (fst (Inspect pq e f st))) = Inr e' \<and>
       list_all2 same_visit (Visits pq e') (Visits pq (fst (Inspect pq e f st)))"
  unfolding promql_laws_def by blast

lemma laws_matcher:
  "promql_laws pq \<Longrightarrow> NewMatcher pq MatchEqual n v = \<lparr>m_Type = MatchEqual, m_Name = n, m_Value = v\<rparr>"
  by (simp add: promql_laws_def)

lemma laws_matches:
  "promql_laws pq \<Longrightarrow> Matches pq \<lparr>m_Type = MatchEqual, m_Name = n, m_Value = v\<rparr> ls \<longleftrightarrow> ls n = v"
  by (simp add: promql_laws_def)

section \<open>What an accepted query looks like\<close>

definition selects :: "'e promql \<Rightarrow> vector_selector \<Rightarrow> (string \<Rightarrow> string) \<Rightarrow> bool" where
  "selects pq vs ls \<longleftrightarrow> (\<forall>m \<in> set (vs_LabelMatchers vs). Matches pq m ls)"

text \<open>
  A query text that selects, with whatever selector, only series of one Oubliette, one trust
  domain and the allowed metrics.
\<close>

definition isolated :: "'e promql \<Rightarrow> Policy \<Rightarrow> string \<Rightarrow> string \<Rightarrow> string \<Rightarrow> bool" where
  "isolated pq p oub td q \<longleftrightarrow> (\<exists>e. ParseExpr pq q = Inr e \<and>
     (\<forall>vs ls. Some (VectorSelector vs) \<in> set (Visits pq e) \<and> selects pq vs ls \<longrightarrow>
        ls OublietteLabel = oub \<and> ls TrustDomainLabel = td \<and> ls MetricName \<in> set (p_AllowedMetrics p)))"

text \<open>The policy over integers, without machine arithmetic.\<close>

definition within_lookback :: "Policy \<Rightarrow> int \<Rightarrow> bool" where
  "within_lookback p d \<longleftrightarrow> sint (p_MaxLookback p) > 0 \<longrightarrow> d \<le> sint (p_MaxLookback p)"

fun node_allowed :: "Policy \<Rightarrow> node \<Rightarrow> bool" where
  "node_allowed p (VectorSelector vs) \<longleftrightarrow> vs_Name vs \<noteq> '''' \<and> vs_Name vs \<in> set (p_AllowedMetrics p) \<and>
     (\<forall>m \<in> set (vs_LabelMatchers vs). m_Name m \<notin> {OublietteLabel, TrustDomainLabel} \<and>
        m_Name m \<notin> set (p_SensitiveLabels p)) \<and>
     vs_Timestamp vs = None \<and> vs_StartOrEnd vs = 0 \<and>
     within_lookback p \<bar>sint (vs_OriginalOffset vs)\<bar>"
| "node_allowed p (MatrixSelector rng) \<longleftrightarrow> within_lookback p (sint rng)"
| "node_allowed p (SubqueryExpr sq) \<longleftrightarrow> sq_Timestamp sq = None \<and> sq_StartOrEnd sq = 0 \<and>
     within_lookback p (sint (sq_Range sq) + \<bar>sint (sq_OriginalOffset sq)\<bar>) \<and>
     (sint (p_MinStep p) > 0 \<and> sint (sq_Step sq) > 0 \<longrightarrow> sint (p_MinStep p) \<le> sint (sq_Step sq))"
| "node_allowed p (Call f) \<longleftrightarrow> f \<noteq> ''label_replace'' \<and> f \<noteq> ''label_join''"
| "node_allowed p (AggregateExpr ls) \<longleftrightarrow> (\<forall>l \<in> set ls. l \<notin> set (p_SensitiveLabels p))"
| "node_allowed p (BinaryExpr vm) \<longleftrightarrow> (case vm of None \<Rightarrow> True | Some (ms, is) \<Rightarrow>
     (\<forall>l \<in> set ms \<union> set is. l \<notin> set (p_SensitiveLabels p)))"
| "node_allowed p (StringLiteral v) \<longleftrightarrow> v \<notin> set (p_SensitiveLabels p)"
| "node_allowed p OtherNode \<longleftrightarrow> True"

text \<open>The durations of a node whose sums stay within 64 bits.\<close>

fun fits :: "node \<Rightarrow> bool" where
  "fits (VectorSelector vs) \<longleftrightarrow> \<bar>sint (vs_OriginalOffset vs)\<bar> < 2 ^ 63"
| "fits (SubqueryExpr sq) \<longleftrightarrow> 0 \<le> sint (sq_Range sq) \<and>
     sint (sq_Range sq) + \<bar>sint (sq_OriginalOffset sq)\<bar> < 2 ^ 63"
| "fits _ \<longleftrightarrow> True"

lemma sint_uminus64: "\<bar>sint d\<bar> < 2 ^ 63 \<Longrightarrow> sint (- d :: int64) = - sint d"
  using sint_of_int64[of "- sint d"] by simp

lemma sint_durationMagnitude: "\<bar>sint d\<bar> < 2 ^ 63 \<Longrightarrow> sint (durationMagnitude d) = \<bar>sint d\<bar>"
  by (simp add: durationMagnitude_def sint_uminus64)

lemma sint_plus64:
  "- (2 ^ 63) \<le> sint a + sint b \<Longrightarrow> sint a + sint b < 2 ^ 63 \<Longrightarrow> sint (a + b :: int64) = sint a + sint b"
  using sint_of_int64[of "sint a + sint b"] by simp

lemma sint_subquery_reach:
  assumes "fits (SubqueryExpr sq)"
  shows "sint (sq_Range sq + durationMagnitude (sq_OriginalOffset sq))
       = sint (sq_Range sq) + \<bar>sint (sq_OriginalOffset sq)\<bar>"
proof -
  have "\<bar>sint (sq_OriginalOffset sq)\<bar> < 2 ^ 63" using assms by simp
  note m = sint_durationMagnitude[OF this]
  have "sint (sq_Range sq) + \<bar>sint (sq_OriginalOffset sq)\<bar> < 2 ^ 63" using assms by simp
  moreover have "- (2 ^ 63) \<le> sint (sq_Range sq) + \<bar>sint (sq_OriginalOffset sq)\<bar>"
    using assms sint64_lower[of "sq_Range sq"] by (meson abs_ge_zero add_increasing2)
  ultimately show ?thesis
    using m sint_plus64[of "sq_Range sq" "durationMagnitude (sq_OriginalOffset sq)"] by metis
qed

lemma find_None_ball: "find P xs = None \<longleftrightarrow> (\<forall>x \<in> set xs. \<not> P x)"
  by (auto simp: find_None_iff)

lemma checkMatchers_None: "checkMatchers p ms = None \<longleftrightarrow>
    (\<forall>m \<in> set ms. m_Name m \<notin> {OublietteLabel, TrustDomainLabel} \<and> m_Name m \<notin> set (p_SensitiveLabels p))"
proof -
  have "checkMatchers p ms = None \<longleftrightarrow> find (\<lambda>m. m_Name m = OublietteLabel \<or> m_Name m = TrustDomainLabel
                   \<or> Sensitive p (m_Name m)) ms = None"
    by (simp add: checkMatchers_def split: option.splits)
  then show ?thesis by (simp add: find_None_ball Sensitive_def)
qed

lemma checkLabels_None: "checkLabels p e ls = None \<longleftrightarrow> (\<forall>l \<in> set ls. l \<notin> set (p_SensitiveLabels p))"
  by (simp add: checkLabels_def find_None_ball Sensitive_def)

text \<open>The condition under which the visitor accepts a selector, as the code computes it.\<close>

lemma visit_selector_iff:
  "(\<exists>n'. visitNode pq p oub td (VectorSelector vs) = Inr n') \<longleftrightarrow>
     vs_Name vs \<noteq> '''' \<and> vs_Name vs \<in> set (p_AllowedMetrics p) \<and>
     checkMatchers p (vs_LabelMatchers vs) = None \<and> vs_Timestamp vs = None \<and> vs_StartOrEnd vs = 0 \<and>
     within_lookback p (sint (durationMagnitude (vs_OriginalOffset vs)))"
  by (cases "checkMatchers p (vs_LabelMatchers vs)") (auto simp: within_lookback_def)

lemma visitNode_accepts_iff:
  assumes "fits n"
  shows "(\<exists>n'. visitNode pq p oub td n = Inr n') \<longleftrightarrow> node_allowed p n"
proof (cases n)
  case (VectorSelector vs)
  have "sint (durationMagnitude (vs_OriginalOffset vs)) = \<bar>sint (vs_OriginalOffset vs)\<bar>"
    using assms VectorSelector by (intro sint_durationMagnitude) simp
  then show ?thesis
    unfolding VectorSelector visit_selector_iff checkMatchers_None by simp
next
  case (SubqueryExpr sq)
  with assms sint_subquery_reach[of sq] show ?thesis
    by (auto simp: within_lookback_def)
next
  case (AggregateExpr ls)
  then show ?thesis
    using checkLabels_None[of p SensitiveGrouping ls] by (auto split: option.splits)
next
  case (BinaryExpr vm)
  show ?thesis
  proof (cases vm)
    case (Some mi)
    then show ?thesis using BinaryExpr checkLabels_None[of p SensitiveMatching "fst mi @ snd mi"]
      by (cases mi) (auto split: option.splits)
  qed (simp add: BinaryExpr)
qed (auto simp: within_lookback_def Sensitive_def)

section \<open>The walk of an accepted query\<close>

text \<open>
  What the visitor does to one visit it accepts: a selector gains the two scope matchers,
  everything else stays.
\<close>

fun pinned :: "string \<Rightarrow> string \<Rightarrow> node option \<Rightarrow> node option" where
  "pinned oub td (Some (VectorSelector vs)) =
     Some (VectorSelector (vs\<lparr>vs_LabelMatchers := vs_LabelMatchers vs @
       [\<lparr>m_Type = MatchEqual, m_Name = OublietteLabel, m_Value = oub\<rparr>,
        \<lparr>m_Type = MatchEqual, m_Name = TrustDomainLabel, m_Value = td\<rparr>]\<rparr>))"
| "pinned oub td x = x"

lemma visitNode_pinned:
  "promql_laws pq \<Longrightarrow> visitNode pq p oub td n = Inr n' \<Longrightarrow> Some n' = pinned oub td (Some n)"
  by (cases n) (auto simp: laws_matcher split: option.splits if_splits prod.splits)

lemma visit_nil: "visit pq p oub td None None = (None, None, None)"
  by (simp add: visit_def)

lemma visit_set: "visit pq p oub td n (Some e) = (Some e, n, Some e)"
  by (simp add: visit_def)

lemma visit_ok: "visitNode pq p oub td n = Inr n' \<Longrightarrow> visit pq p oub td (Some n) None = (None, Some n', None)"
  by (simp add: visit_def)

lemma visit_err: "visitNode pq p oub td n = Inl e \<Longrightarrow> visit pq p oub td (Some n) None = (Some e, Some n, Some e)"
  by (simp add: visit_def)

lemma visit_cases:
  obtains "fst (snd (visit pq p oub td n st)) = n"
  | nd nd' where "n = Some nd" "visitNode pq p oub td nd = Inr nd'" "fst (snd (visit pq p oub td n st)) = Some nd'"
proof (cases st)
  case None
  show thesis
  proof (cases n)
    case (Some nd)
    show thesis
      by (cases "visitNode pq p oub td nd") (auto simp: visit_ok visit_err None Some intro: that)
  qed (use None that in \<open>auto simp: visit_nil\<close>)
qed (use that in \<open>auto simp: visit_set\<close>)

lemma visit_appends_only:
  assumes laws: "promql_laws pq"
  shows "appends_only (visit pq p oub td)"
  unfolding appends_only_def
proof (intro allI)
  fix n st
  show "fst (snd (visit pq p oub td n st)) = n \<or> (\<exists>vs ms. n = Some (VectorSelector vs) \<and> (\<forall>m \<in> set ms. scope_matcher m) \<and>
      fst (snd (visit pq p oub td n st)) = Some (VectorSelector (vs\<lparr>vs_LabelMatchers := vs_LabelMatchers vs @ ms\<rparr>)))"
  proof (cases rule: visit_cases[of pq p oub td n st])
    case (2 nd nd')
    then have "fst (snd (visit pq p oub td n st)) = pinned oub td n" using visitNode_pinned[OF laws] by simp
    then show ?thesis using 2(1) by (cases nd) (auto simp: scope_matcher_def intro!: exI)
  qed simp
qed

lemma run_visits_accepts:
  "snd (run_visits (visit pq p oub td) ns None) = None \<longleftrightarrow>
     (\<forall>n. Some n \<in> set ns \<longrightarrow> (\<exists>n'. visitNode pq p oub td n = Inr n'))"
proof (induction ns)
  case (Cons x ns)
  show ?case
  proof (cases x)
    case None
    then show ?thesis using Cons by (auto simp: visit_nil split: prod.splits)
  next
    case (Some n)
    then show ?thesis using Cons
      by (cases "visitNode pq p oub td n") (auto simp: visit_ok visit_err split: prod.splits)
  qed
qed simp

lemma run_visits_pins:
  assumes "promql_laws pq"
  shows "snd (run_visits (visit pq p oub td) ns None) = None \<Longrightarrow>
     fst (run_visits (visit pq p oub td) ns None) = map (pinned oub td) ns"
proof (induction ns)
  case (Cons x ns)
  show ?case
  proof (cases x)
    case None
    then show ?thesis using Cons by (auto simp: visit_nil split: prod.splits)
  next
    case (Some n)
    then show ?thesis using Cons visitNode_pinned[OF assms, of p oub td n]
      by (cases "visitNode pq p oub td n") (auto simp: visit_ok visit_err split: prod.splits)
  qed
qed simp

lemma Rewrite_Inr_iff:
  assumes "promql_laws pq"
  shows "Rewrite pq p q oub td = Inr q' \<longleftrightarrow> oub \<noteq> '''' \<and> td \<noteq> '''' \<and>
    (\<exists>e. ParseExpr pq q = Inr e \<and> snd (run_visits (visit pq p oub td) (Visits pq e) None) = None \<and>
       q' = ExprString pq (fst (Inspect pq e (visit pq p oub td) None)))"
  using laws_inspect[OF assms visit_appends_only[OF assms]]
  by (auto simp: Rewrite_def split: sum.splits prod.splits option.splits)

lemma Rewrite_isolated:
  assumes laws: "promql_laws pq" and ok: "Rewrite pq p q oub td = Inr q'"
  shows "isolated pq p oub td q'"
proof -
  let ?f = "visit pq p oub td"
  from ok obtain e where e: "ParseExpr pq q = Inr e" "snd (run_visits ?f (Visits pq e) None) = None"
    "q' = ExprString pq (fst (Inspect pq e ?f None))" by (auto simp: Rewrite_Inr_iff[OF laws])
  note f = visit_appends_only[OF laws, of p oub td]
  have V: "Visits pq (fst (Inspect pq e ?f None)) = map (pinned oub td) (Visits pq e)"
    using run_visits_pins[OF laws e(2)] laws_inspect[OF laws f, of e None] by simp
  obtain e' where e': "ParseExpr pq q' = Inr e'" "list_all2 same_visit (Visits pq e') (map (pinned oub td) (Visits pq e))"
    using laws_reparse[OF laws e(1) f, of None] V e(3) by auto
  have "ls OublietteLabel = oub \<and> ls TrustDomainLabel = td \<and> ls MetricName \<in> set (p_AllowedMetrics p)"
    if vs: "Some (VectorSelector vs) \<in> set (Visits pq e')" and sel: "selects pq vs ls" for vs ls
  proof -
    from vs obtain i where i: "i < length (Visits pq e')" "Visits pq e' ! i = Some (VectorSelector vs)"
      by (auto simp: in_set_conv_nth)
    with e'(2) have "i < length (Visits pq e)" "same_visit (Some (VectorSelector vs)) (pinned oub td (Visits pq e ! i))"
      by (auto simp: list_all2_conv_all_nth)
    then obtain x where x: "x \<in> set (Visits pq e)" "same_visit (Some (VectorSelector vs)) (pinned oub td x)"
      using nth_mem by blast
    then obtain ws where ws: "x = Some (VectorSelector ws)"
      by (cases "(oub, td, x)" rule: pinned.cases) auto
    then have ms: "set (vs_LabelMatchers vs) = set (vs_LabelMatchers ws) \<union>
        {\<lparr>m_Type = MatchEqual, m_Name = OublietteLabel, m_Value = oub\<rparr>,
         \<lparr>m_Type = MatchEqual, m_Name = TrustDomainLabel, m_Value = td\<rparr>}" using x(2) by auto
    have name: "vs_Name ws \<noteq> '''' \<and> vs_Name ws \<in> set (p_AllowedMetrics p)"
      using run_visits_accepts[of pq p oub td "Visits pq e"] e(2) x(1) ws visit_selector_iff by blast
    then have "\<lparr>m_Type = MatchEqual, m_Name = MetricName, m_Value = vs_Name ws\<rparr> \<in> set (vs_LabelMatchers vs)"
      using laws_name[OF laws e(1), of ws] x(1) ws ms by simp
    then show ?thesis using sel ms name by (auto simp: selects_def laws_matches[OF laws])
  qed
  with e'(1) show ?thesis unfolding isolated_def by blast
qed

section \<open>An instance of the library\<close>

text \<open>
  A language of single selectors with equality matchers, printed as tagged bytes, shows that
  the laws can hold.
\<close>

type_synonym mini_expr = "string \<times> (string \<times> string) list"

definition mini_enc :: "string \<Rightarrow> string" where
  "mini_enc s = concat (map (\<lambda>c. [CHR ''c'', c]) s) @ ''e''"

fun mini_dec :: "string \<Rightarrow> (string \<times> string) option" where
  "mini_dec [] = None"
| "mini_dec [x] = (if x = CHR ''e'' then Some ([], []) else None)"
| "mini_dec (x # c # r) = (if x = CHR ''e'' then Some ([], c # r)
     else map_option (\<lambda>(s, t). (c # s, t)) (mini_dec r))"

fun mini_pairs :: "(string \<times> string) list \<Rightarrow> string" where
  "mini_pairs [] = ''.''"
| "mini_pairs ((a, b) # ms) = ''m'' @ mini_enc a @ mini_enc b @ mini_pairs ms"

fun mini_unpairs :: "nat \<Rightarrow> string \<Rightarrow> (string \<times> string) list option" where
  "mini_unpairs 0 s = None"
| "mini_unpairs (Suc k) s = (if s = ''.'' then Some [] else
     case mini_dec (tl s) of None \<Rightarrow> None | Some (a, r) \<Rightarrow>
     (case mini_dec r of None \<Rightarrow> None | Some (b, r') \<Rightarrow>
        map_option (\<lambda>ms. (a, b) # ms) (mini_unpairs k r')))"

definition mini_parse :: "string \<Rightarrow> string + mini_expr" where
  "mini_parse q = (case mini_dec q of None \<Rightarrow> Inl ''selector'' | Some (n, r) \<Rightarrow>
     (case mini_unpairs (length r) r of None \<Rightarrow> Inl ''matchers'' | Some ms \<Rightarrow> Inr (n, ms)))"

definition mini_eq :: "string \<times> string \<Rightarrow> matcher" where
  "mini_eq nv = \<lparr>m_Type = MatchEqual, m_Name = fst nv, m_Value = snd nv\<rparr>"

definition mini_selector :: "mini_expr \<Rightarrow> vector_selector" where
  "mini_selector e = \<lparr>vs_Name = fst e, vs_LabelMatchers = mini_eq (MetricName, fst e) # map mini_eq (snd e),
     vs_Timestamp = None, vs_StartOrEnd = 0, vs_OriginalOffset = 0\<rparr>"

definition mini_visits :: "mini_expr \<Rightarrow> node option list" where
  "mini_visits e = [Some (VectorSelector (mini_selector e)), None]"

definition mini_of :: "node option list \<Rightarrow> mini_expr" where
  "mini_of ns = (case ns of Some (VectorSelector vs) # _ \<Rightarrow>
     (vs_Name vs, map (\<lambda>m. (m_Name m, m_Value m)) (tl (vs_LabelMatchers vs))) | _ \<Rightarrow> ('''', []))"

definition mini_promql :: "mini_expr promql" where
  "mini_promql = \<lparr>ParseExpr = mini_parse,
     Inspect = (\<lambda>e f st. let (ns, st') = run_visits f (mini_visits e) st in (mini_of ns, st')),
     ExprString = (\<lambda>e. mini_enc (fst e) @ mini_pairs (snd e)), Visits = mini_visits,
     NewMatcher = (\<lambda>t n v. \<lparr>m_Type = t, m_Name = n, m_Value = v\<rparr>),
     Matches = (\<lambda>m ls. (ls (m_Name m) = m_Value m) = (m_Type m = MatchEqual))\<rparr>"

lemma mini_dec_enc: "mini_dec (mini_enc s @ r) = Some (s, r)"
proof (induction s)
  case Nil
  show ?case by (cases r) (simp_all add: mini_enc_def)
qed (simp add: mini_enc_def)

lemma mini_unpairs_pairs: "length ms < k \<Longrightarrow> mini_unpairs k (mini_pairs ms) = Some ms"
proof (induction ms arbitrary: k)
  case Nil
  then show ?case by (cases k) simp_all
next
  case (Cons m ms)
  then obtain k' where k: "k = Suc k'" "length ms < k'" by (cases k) auto
  show ?case using Cons.IH[OF k(2)] k(1) by (cases m) (simp add: mini_dec_enc)
qed

lemma mini_parse_print: "mini_parse (mini_enc (fst e) @ mini_pairs (snd e)) = Inr e"
proof -
  have "length ms < length (mini_pairs ms)" for ms by (induction ms rule: mini_pairs.induct) auto
  then show ?thesis by (simp add: mini_parse_def mini_dec_enc mini_unpairs_pairs)
qed

lemma mini_of_visits:
  "\<forall>m \<in> set ms. scope_matcher m \<Longrightarrow>
     mini_visits (mini_of [Some (VectorSelector ((mini_selector e)\<lparr>vs_LabelMatchers :=
        vs_LabelMatchers (mini_selector e) @ ms\<rparr>)), None])
     = [Some (VectorSelector ((mini_selector e)\<lparr>vs_LabelMatchers := vs_LabelMatchers (mini_selector e) @ ms\<rparr>)), None]"
  by (auto simp: mini_visits_def mini_of_def mini_selector_def mini_eq_def scope_matcher_def
      intro!: map_idI matcher.equality)

lemma mini_of_same: "mini_visits (mini_of (mini_visits e)) = mini_visits e"
  using mini_of_visits[of "[]" e] by (simp add: mini_visits_def)

lemma mini_run_shape:
  assumes "appends_only f"
  shows "\<exists>ms. (\<forall>m \<in> set ms. scope_matcher m) \<and> fst (run_visits f (mini_visits e) st) =
     [Some (VectorSelector ((mini_selector e)\<lparr>vs_LabelMatchers := vs_LabelMatchers (mini_selector e) @ ms\<rparr>)), None]"
proof -
  let ?n = "Some (VectorSelector (mini_selector e))"
  have nil: "fst (snd (f None st')) = None" for st'
    using assms by (auto simp: appends_only_def dest: spec[of _ None])
  have self: "(mini_selector e)\<lparr>vs_LabelMatchers := vs_LabelMatchers (mini_selector e) @ []\<rparr> = mini_selector e" by simp
  from assms consider "fst (snd (f ?n st)) = ?n"
    | ms where "\<forall>m \<in> set ms. scope_matcher m" "fst (snd (f ?n st)) = Some (VectorSelector ((mini_selector e)\<lparr>vs_LabelMatchers :=
        vs_LabelMatchers (mini_selector e) @ ms\<rparr>))"
    unfolding appends_only_def by (metis option.inject node.inject(1))
  then have "\<exists>ms. (\<forall>m \<in> set ms. scope_matcher m) \<and> fst (snd (f ?n st)) = Some (VectorSelector ((mini_selector e)\<lparr>vs_LabelMatchers :=
        vs_LabelMatchers (mini_selector e) @ ms\<rparr>))"
    by cases (metis self empty_iff list.set(1), blast)
  moreover have "fst (run_visits f (mini_visits e) st) = [fst (snd (f ?n st)), None]"
    using nil by (auto simp: mini_visits_def split: prod.splits option.splits) (metis fst_conv snd_conv)+
  ultimately show ?thesis by auto
qed

lemma mini_laws: "promql_laws mini_promql"
proof -
  have V: "mini_visits (mini_of (fst (run_visits f (mini_visits e) st))) = fst (run_visits f (mini_visits e) st)"
    if "appends_only f" for f e st using mini_run_shape[OF that, of e st] mini_of_visits by metis
  show ?thesis unfolding promql_laws_def
  proof (intro conjI allI impI)
    show "run_visits f (Visits mini_promql e) st
        = (Visits mini_promql (fst (Inspect mini_promql e f st)), snd (Inspect mini_promql e f st))"
      if "appends_only f" for e f st using V[OF that, of e st] by (auto simp: mini_promql_def split: prod.splits)
    show "\<lparr>m_Type = MatchEqual, m_Name = MetricName, m_Value = vs_Name vs\<rparr> \<in> set (vs_LabelMatchers vs)"
      if "Some (VectorSelector vs) \<in> set (Visits mini_promql e)" for e vs
      using that by (auto simp: mini_promql_def mini_visits_def mini_selector_def mini_eq_def)
    have refl: "same_visit x x" for x by (cases "(x, x)" rule: same_visit.cases) auto
    show "\<exists>e'. ParseExpr mini_promql (ExprString mini_promql (fst (Inspect mini_promql e f st))) = Inr e' \<and>
        list_all2 same_visit (Visits mini_promql e') (Visits mini_promql (fst (Inspect mini_promql e f st)))" for e f st
      by (simp add: mini_promql_def mini_parse_print list_all2_refl refl split: prod.splits)
  qed (simp_all add: mini_promql_def)
qed

definition hour_policy :: Policy where
  "hour_policy = \<lparr>p_AllowedMetrics = [''up''], p_SensitiveLabels = [''tenant''], p_MaxLookback = Hour,
     p_MinStep = Second, p_MaxExecutionTime = 0, p_MaxSamples = 100, p_MaxResponseBytes = 1024,
     p_MaxConcurrency = 2, p_MaxRequestsPerMinute = 10\<rparr>"

definition wide_subquery :: subquery where
  "wide_subquery = \<lparr>sq_Range = 9223372036000000000, sq_OriginalOffset = 15724800000000000,
     sq_Timestamp = None, sq_StartOrEnd = 0, sq_Step = 0\<rparr>"

text \<open>The text of the selector \<open>up\<close> in the small language and what it parses to.\<close>

definition up_query :: string where "up_query = mini_enc ''up'' @ mini_pairs []"

lemma up_query_parses: "ParseExpr mini_promql up_query = Inr (''up'', [])"
  using mini_parse_print[of "(''up'', [])"] by (simp add: mini_promql_def up_query_def)

lemma up_query_accepted:
  "oub \<noteq> [] \<Longrightarrow> td \<noteq> [] \<Longrightarrow> \<exists>q'. Rewrite mini_promql hour_policy up_query oub td = Inr q'"
  by (simp add: Rewrite_Inr_iff[OF mini_laws] up_query_parses run_visits_accepts)
    (simp add: mini_promql_def mini_visits_def mini_selector_def mini_eq_def hour_policy_def checkMatchers_def
      OublietteLabel_def TrustDomainLabel_def MetricName_def Sensitive_def durationMagnitude_def)

section \<open>Properties\<close>

text \<open>C2: tenant isolation of queries. The text that \<open>Rewrite\<close> returns parses, and whatever
  series a vector selector in it matches belongs to the Oubliette and to the trust domain of
  the scope and to a metric the policy allows.\<close>

theorem rewrite_isolates:
  assumes laws: "promql_laws pq" and ok: "Rewrite pq p q oub td = Inr q'"
  shows "\<exists>e'. ParseExpr pq q' = Inr e' \<and>
    (\<forall>vs ls. Some (VectorSelector vs) \<in> set (Visits pq e') \<and> selects pq vs ls \<longrightarrow>
       ls OublietteLabel = oub \<and> ls TrustDomainLabel = td \<and> ls MetricName \<in> set (p_AllowedMetrics p))"
  using Rewrite_isolated[OF laws ok] unfolding isolated_def .

theorem rewrite_isolates_witness:
  "\<exists>q' e'. Rewrite mini_promql hour_policy up_query ''a'' ''b'' = Inr q' \<and> ParseExpr mini_promql q' = Inr e' \<and>
    (\<forall>vs ls. Some (VectorSelector vs) \<in> set (Visits mini_promql e') \<and> selects mini_promql vs ls \<longrightarrow>
       ls OublietteLabel = ''a'' \<and> ls TrustDomainLabel = ''b'' \<and> ls MetricName \<in> {''up''})"
  using up_query_accepted[of "''a''" "''b''"] rewrite_isolates[OF mini_laws, of hour_policy up_query "''a''" "''b''"]
  by (fastforce simp: hour_policy_def)

text \<open>C36: for a complete scope and durations whose sums fit in 64 bits, a query that parses is
  accepted exactly when every node of it is allowed by the policy read over the integers:
  allowed metric names, no reserved and no sensitive label in a matcher, a grouping, a vector
  matching or a string, no explicit timestamp, no label-writing function, and ranges, offsets
  and steps within bounds.\<close>

theorem rewrite_accepts_iff_allowed:
  assumes "promql_laws pq" and "oub \<noteq> ''''" and "td \<noteq> ''''" and "ParseExpr pq q = Inr e"
    and "\<forall>n. Some n \<in> set (Visits pq e) \<longrightarrow> fits n"
  shows "(\<exists>q'. Rewrite pq p q oub td = Inr q') \<longleftrightarrow> (\<forall>n. Some n \<in> set (Visits pq e) \<longrightarrow> node_allowed p n)"
  using assms(2-4) visitNode_accepts_iff[of _ pq p oub td] assms(5)
  by (auto simp: Rewrite_Inr_iff[OF assms(1)] run_visits_accepts)

theorem rewrite_accepts_iff_allowed_witness:
  "(\<exists>q'. Rewrite mini_promql hour_policy up_query ''a'' ''b'' = Inr q') \<longleftrightarrow>
     (\<forall>n. Some n \<in> set (Visits mini_promql (''up'', [])) \<longrightarrow> node_allowed hour_policy n)"
  by (rule rewrite_accepts_iff_allowed[OF mini_laws _ _ up_query_parses])
    (auto simp: mini_promql_def mini_visits_def mini_selector_def)

text \<open>The lookback check of a subquery adds range and offset in 64 bits. A subquery over
  nearly 292 years with an offset of 26 weeks is accepted under a one-hour lookback policy,
  because the sum wraps around to a negative duration.\<close>

theorem subquery_lookback_wraps:
  "visitNode pq hour_policy oub td (SubqueryExpr wide_subquery) = Inr (SubqueryExpr wide_subquery) \<and>
   sint (p_MaxLookback hour_policy) = 3600000000000 \<and>
   sint (sq_Range wide_subquery) = 9223372036000000000 \<and>
   \<not> node_allowed hour_policy (SubqueryExpr wide_subquery)"
  by (simp add: durationMagnitude_def within_lookback_def hour_policy_def wide_subquery_def)

end
