(* ===== verification/Json.thy ===== *)
theory Json
  imports Prelude
begin

text \<open>
  The part of \<open>encoding/json\<close> the components use: values, the encoder of strings, numbers,
  arrays and objects, and the decoder, on bytes. Strings are escaped as \<open>json.Marshal\<close>
  escapes them (HTML characters included) and invalid UTF-8 is replaced by U+FFFD in both
  directions. \<open>decode_encode\<close> is the round trip for values whose strings are valid UTF-8.
\<close>

section \<open>Values\<close>

text \<open>
  An object is the list of its members as they are written; \<open>canon\<close> turns it into the
  content of a Go map, which is encoded in ascending order of its keys. A number is its
  literal (\<open>json.Number\<close>).
\<close>

datatype json =
    JNull
  | JBool bool
  | JNum string
  | JStr string
  | JArr "json list"
  | JObj "(string \<times> json) list"

definition quote :: char where "quote = CHR 0x22"
definition backslash :: char where "backslash = CHR 0x5C"

abbreviation byte :: "char \<Rightarrow> nat" where "byte c \<equiv> of_char c"

section \<open>UTF-8\<close>

definition cont :: "char \<Rightarrow> bool" where
  "cont c \<longleftrightarrow> 0x80 \<le> byte c \<and> byte c \<le> 0xBF"

text \<open>
  The width of the valid multi-byte encoding at the front of a string, 0 if there is none.
\<close>

fun utf8_width :: "string \<Rightarrow> nat" where
  "utf8_width (a # b # cs) =
     (if 0xC2 \<le> byte a \<and> byte a \<le> 0xDF \<and> cont b then 2
      else (case cs of [] \<Rightarrow> 0 | c # ds \<Rightarrow>
        if 0xE0 \<le> byte a \<and> byte a \<le> 0xEF \<and> cont b \<and> cont c
           \<and> (byte a = 0xE0 \<longrightarrow> 0xA0 \<le> byte b) \<and> (byte a = 0xED \<longrightarrow> byte b \<le> 0x9F) then 3
        else (case ds of [] \<Rightarrow> 0 | d # _ \<Rightarrow>
          if 0xF0 \<le> byte a \<and> byte a \<le> 0xF4 \<and> cont b \<and> cont c \<and> cont d
             \<and> (byte a = 0xF0 \<longrightarrow> 0x90 \<le> byte b) \<and> (byte a = 0xF4 \<longrightarrow> byte b \<le> 0x8F) then 4
          else 0)))"
| "utf8_width _ = 0"

fun valid_utf8 :: "string \<Rightarrow> bool" where
  "valid_utf8 [] = True"
| "valid_utf8 (c # cs) =
     (if byte c < 0x80 then valid_utf8 cs
      else (case utf8_width (c # cs) of 0 \<Rightarrow> False | Suc w \<Rightarrow> valid_utf8 (drop w cs)))"

definition rune_error :: string where
  "rune_error = map char_of [0xEF, 0xBF, 0xBD :: nat]"

text \<open>The UTF-8 encoding of a code point.\<close>

definition utf8_encode :: "nat \<Rightarrow> string" where
  "utf8_encode u = map char_of
     (if u < 0x80 then [u]
      else if u < 0x800 then [0xC0 + u div 64, 0x80 + u mod 64]
      else if u < 0x10000 then [0xE0 + u div 4096, 0x80 + u div 64 mod 64, 0x80 + u mod 64]
      else [0xF0 + u div 262144, 0x80 + u div 4096 mod 64, 0x80 + u div 64 mod 64, 0x80 + u mod 64])"

section \<open>Encoding\<close>

definition hexdigit :: "nat \<Rightarrow> char" where
  "hexdigit n = char_of (if n < 10 then 48 + n else 87 + n)"

definition escape_byte :: "char \<Rightarrow> string" where
  "escape_byte c =
     (if c = quote \<or> c = backslash then [backslash, c]
      else if byte c = 8 then [backslash, CHR ''b'']
      else if byte c = 12 then [backslash, CHR ''f'']
      else if byte c = 10 then [backslash, CHR ''n'']
      else if byte c = 13 then [backslash, CHR ''r'']
      else if byte c = 9 then [backslash, CHR ''t'']
      else if byte c < 0x20 \<or> c = CHR ''<'' \<or> c = CHR ''>'' \<or> c = CHR ''&''
      then [backslash, CHR ''u'', CHR ''0'', CHR ''0'', hexdigit (byte c div 16), hexdigit (byte c mod 16)]
      else [c])"

definition line_separator :: "string \<Rightarrow> bool" where
  "line_separator s \<longleftrightarrow> map byte (take 3 s) \<in> {[0xE2, 0x80, 0xA8], [0xE2, 0x80, 0xA9]}"

fun encode_body :: "string \<Rightarrow> string" where
  "encode_body [] = []"
| "encode_body (c # cs) =
     (if byte c < 0x80 then escape_byte c @ encode_body cs
      else (case utf8_width (c # cs) of
        0 \<Rightarrow> backslash # ''ufffd'' @ encode_body cs
      | Suc w \<Rightarrow>
          (if line_separator (c # cs)
           then backslash # ''u202'' @ [hexdigit (byte ((c # cs) ! 2) mod 16)]
           else take (Suc w) (c # cs)) @ encode_body (drop w cs)))"

definition encode_string :: "string \<Rightarrow> string" where
  "encode_string s = [quote] @ encode_body s @ [quote]"

fun encode :: "json \<Rightarrow> string"
  and encode_elems :: "json list \<Rightarrow> string"
  and encode_members :: "(string \<times> json) list \<Rightarrow> string" where
  "encode JNull = ''null''"
| "encode (JBool b) = (if b then ''true'' else ''false'')"
| "encode (JNum lit) = lit"
| "encode (JStr s) = encode_string s"
| "encode (JArr vs) = ''['' @ encode_elems vs @ '']''"
| "encode (JObj ms) = ''{'' @ encode_members ms @ ''}''"
| "encode_elems [] = []"
| "encode_elems (v # vs) = encode v @ (if vs = [] then [] else '','' @ encode_elems vs)"
| "encode_members [] = []"
| "encode_members ((k, v) # ms) = encode_string k @ '':'' @ encode v
     @ (if ms = [] then [] else '','' @ encode_members ms)"

text \<open>The decimal literal of an integer.\<close>

fun nat_digits :: "nat \<Rightarrow> string" where
  "nat_digits n = (if n < 10 then [char_of (48 + n)] else nat_digits (n div 10) @ [char_of (48 + n mod 10)])"

declare nat_digits.simps [simp del]

definition int_digits :: "int \<Rightarrow> string" where
  "int_digits i = (if i < 0 then ''-'' @ nat_digits (nat (- i)) else nat_digits (nat i))"

section \<open>Decoding\<close>

definition is_space :: "char \<Rightarrow> bool" where
  "is_space c \<longleftrightarrow> byte c \<in> {32, 9, 10, 13}"

definition skip_space :: "string \<Rightarrow> string" where
  "skip_space s = dropWhile is_space s"

definition is_digit :: "char \<Rightarrow> bool" where
  "is_digit c \<longleftrightarrow> 48 \<le> byte c \<and> byte c \<le> 57"

text \<open>The longest number at the front; an incomplete fraction or exponent is an error.\<close>

definition lex_digits :: "string \<Rightarrow> (string \<times> string) option" where
  "lex_digits s = (if takeWhile is_digit s = [] then None
     else Some (takeWhile is_digit s, dropWhile is_digit s))"

definition lex_int :: "string \<Rightarrow> (string \<times> string) option" where
  "lex_int s = (case s of [] \<Rightarrow> None | c # cs \<Rightarrow>
     if c = CHR ''0'' then Some ([c], cs) else lex_digits s)"

definition lex_frac :: "string \<Rightarrow> (string \<times> string) option" where
  "lex_frac s = (case s of [] \<Rightarrow> Some ([], []) | c # cs \<Rightarrow>
     if c = CHR ''.'' then map_option (\<lambda>(d, r). (c # d, r)) (lex_digits cs) else Some ([], s))"

definition lex_exp :: "string \<Rightarrow> (string \<times> string) option" where
  "lex_exp s = (case s of [] \<Rightarrow> Some ([], []) | c # cs \<Rightarrow>
     if c = CHR ''e'' \<or> c = CHR ''E'' then
       (case cs of [] \<Rightarrow> None | g # ds \<Rightarrow>
          if g = CHR ''+'' \<or> g = CHR ''-'' then map_option (\<lambda>(d, r). (c # g # d, r)) (lex_digits ds)
          else map_option (\<lambda>(d, r). (c # d, r)) (lex_digits cs))
     else Some ([], s))"

definition lex_number :: "string \<Rightarrow> (string \<times> string) option" where
  "lex_number s =
     (let (sg, s1) = (if take 1 s = ''-'' then (''-'', drop 1 s) else ([], s)) in
      case lex_int s1 of None \<Rightarrow> None | Some (i, s2) \<Rightarrow>
      case lex_frac s2 of None \<Rightarrow> None | Some (f, s3) \<Rightarrow>
      case lex_exp s3 of None \<Rightarrow> None | Some (e, s4) \<Rightarrow> Some (sg @ i @ f @ e, s4))"

definition hexval :: "char \<Rightarrow> nat option" where
  "hexval c = (if 48 \<le> byte c \<and> byte c \<le> 57 then Some (byte c - 48)
     else if 97 \<le> byte c \<and> byte c \<le> 102 then Some (byte c - 87)
     else if 65 \<le> byte c \<and> byte c \<le> 70 then Some (byte c - 55) else None)"

definition hex4 :: "string \<Rightarrow> nat option" where
  "hex4 s = (case map hexval (take 4 s) of
     [Some a, Some b, Some c, Some d] \<Rightarrow> Some (((a * 16 + b) * 16 + c) * 16 + d) | _ \<Rightarrow> None)"

definition high_surrogate :: "nat \<Rightarrow> bool" where
  "high_surrogate u \<longleftrightarrow> 0xD800 \<le> u \<and> u < 0xDC00"

definition low_surrogate :: "nat \<Rightarrow> bool" where
  "low_surrogate u \<longleftrightarrow> 0xDC00 \<le> u \<and> u < 0xE000"

text \<open>A second escape that completes a surrogate pair: the code point of the pair.\<close>

definition pair_rune :: "nat \<Rightarrow> string \<Rightarrow> nat option" where
  "pair_rune u s = (if high_surrogate u \<and> take 2 s = [backslash, CHR ''u''] then
     (case hex4 (drop 2 s) of
        Some v \<Rightarrow> if low_surrogate v then Some (0x10000 + (u - 0xD800) * 1024 + (v - 0xDC00)) else None
      | None \<Rightarrow> None) else None)"

definition simple_escape :: "char \<Rightarrow> char option" where
  "simple_escape e =
     (if e = quote \<or> e = backslash \<or> e = CHR ''/'' then Some e
      else if e = CHR ''b'' then Some (char_of (8 :: nat))
      else if e = CHR ''f'' then Some (char_of (12 :: nat))
      else if e = CHR ''n'' then Some (char_of (10 :: nat))
      else if e = CHR ''r'' then Some (char_of (13 :: nat))
      else if e = CHR ''t'' then Some (char_of (9 :: nat)) else None)"

definition prepend :: "string \<Rightarrow> (string \<times> string) option \<Rightarrow> (string \<times> string) option" where
  "prepend p x = map_option (\<lambda>(s, r). (p @ s, r)) x"

text \<open>The rest of a string after its opening quote: the decoded bytes and what follows.\<close>

function decode_body :: "string \<Rightarrow> (string \<times> string) option" where
  "decode_body [] = None"
| "decode_body (c # cs) =
     (if c = quote then Some ([], cs)
      else if c = backslash then
        (case cs of [] \<Rightarrow> None | e # r \<Rightarrow>
           if e = CHR ''u'' then
             (case hex4 r of None \<Rightarrow> None | Some u \<Rightarrow>
                if high_surrogate u \<or> low_surrogate u then
                  (case pair_rune u (drop 4 r) of
                     Some v \<Rightarrow> prepend (utf8_encode v) (decode_body (drop 10 r))
                   | None \<Rightarrow> prepend rune_error (decode_body (drop 4 r)))
                else prepend (utf8_encode u) (decode_body (drop 4 r)))
           else (case simple_escape e of None \<Rightarrow> None | Some b \<Rightarrow> prepend [b] (decode_body r)))
      else if byte c < 0x20 then None
      else if byte c < 0x80 then prepend [c] (decode_body cs)
      else (case utf8_width (c # cs) of
        0 \<Rightarrow> prepend rune_error (decode_body cs)
      | Suc w \<Rightarrow> prepend (take (Suc w) (c # cs)) (decode_body (drop w cs))))"
  by pat_completeness auto

termination by (relation "measure length") auto

definition maxNestingDepth :: nat where "maxNestingDepth = 10000"

text \<open>
  The parser of a value at nesting depth \<open>d\<close> with fuel; a value or an element list consumes
  at least one byte at every second call, so twice the length of the input is enough fuel
  (\<open>parse_fuel\<close> below).
\<close>

fun parse_value :: "nat \<Rightarrow> nat \<Rightarrow> string \<Rightarrow> (json \<times> string) option"
  and parse_elems :: "nat \<Rightarrow> nat \<Rightarrow> string \<Rightarrow> (json list \<times> string) option"
  and parse_members :: "nat \<Rightarrow> nat \<Rightarrow> string \<Rightarrow> ((string \<times> json) list \<times> string) option" where
  "parse_value 0 d s = None"
| "parse_value (Suc k) d s = (case skip_space s of [] \<Rightarrow> None | c # r \<Rightarrow>
     if c = quote then map_option (\<lambda>(x, t). (JStr x, t)) (decode_body r)
     else if c = CHR ''['' then
       (if maxNestingDepth \<le> d then None
        else if take 1 (skip_space r) = '']'' then Some (JArr [], drop 1 (skip_space r))
        else map_option (\<lambda>(x, t). (JArr x, t)) (parse_elems k (Suc d) r))
     else if c = CHR ''{'' then
       (if maxNestingDepth \<le> d then None
        else if take 1 (skip_space r) = ''}'' then Some (JObj [], drop 1 (skip_space r))
        else map_option (\<lambda>(x, t). (JObj x, t)) (parse_members k (Suc d) r))
     else if HasPrefix (c # r) ''null'' then Some (JNull, drop 3 r)
     else if HasPrefix (c # r) ''true'' then Some (JBool True, drop 3 r)
     else if HasPrefix (c # r) ''false'' then Some (JBool False, drop 4 r)
     else map_option (\<lambda>(x, t). (JNum x, t)) (lex_number (c # r)))"
| "parse_elems 0 d s = None"
| "parse_elems (Suc k) d s = (case parse_value k d s of None \<Rightarrow> None | Some (v, r) \<Rightarrow>
     (case skip_space r of [] \<Rightarrow> None | c # t \<Rightarrow>
        if c = CHR '']'' then Some ([v], t)
        else if c = CHR '','' then map_option (\<lambda>(vs, u). (v # vs, u)) (parse_elems k d t)
        else None))"
| "parse_members 0 d s = None"
| "parse_members (Suc k) d s = (case skip_space s of [] \<Rightarrow> None | q # b \<Rightarrow>
     if q \<noteq> quote then None else
     (case decode_body b of None \<Rightarrow> None | Some (key, r) \<Rightarrow>
     (case skip_space r of [] \<Rightarrow> None | c # t \<Rightarrow>
     if c \<noteq> CHR '':'' then None else
     (case parse_value k d t of None \<Rightarrow> None | Some (v, u) \<Rightarrow>
     (case skip_space u of [] \<Rightarrow> None | e # w \<Rightarrow>
        if e = CHR ''}'' then Some ([(key, v)], w)
        else if e = CHR '','' then map_option (\<lambda>(ms, z). ((key, v) # ms, z)) (parse_members k d w)
        else None)))))"

definition parse :: "string \<Rightarrow> (json \<times> string) option" where
  "parse s = parse_value (2 * length s + 2) 0 s"

text \<open>\<open>json.Unmarshal\<close> wants the whole input, \<open>Decoder.Decode\<close> the first value of it.\<close>

definition unmarshal :: "string \<Rightarrow> json option" where
  "unmarshal s = (case parse s of None \<Rightarrow> None | Some (v, r) \<Rightarrow>
     if skip_space r = [] then Some v else None)"

definition decode_first :: "string \<Rightarrow> json option" where
  "decode_first s = map_option fst (parse s)"

section \<open>Strings round trip\<close>

lemma byte_lt: "byte c < 256"
  using nat_of_char_less_256[of c] by simp

lemma byte_eq_iff: "byte c = n \<longleftrightarrow> n < 256 \<and> c = char_of n"
  by (metis byte_lt char_of_char of_char_of mod_less)

lemma hexval_hexdigit: "n < 16 \<Longrightarrow> hexval (hexdigit n) = Some n"
  by (auto simp: hexval_def hexdigit_def)

lemma utf8_width_le: "utf8_width s \<le> length s"
  by (cases s rule: utf8_width.cases) (auto split: list.splits)

lemma utf8_width_append: "utf8_width s \<noteq> 0 \<Longrightarrow> utf8_width (take (utf8_width s) s @ t) = utf8_width s"
proof (cases s rule: utf8_width.cases)
  case (1 a b cs)
  moreover assume "utf8_width s \<noteq> 0"
  ultimately show ?thesis
    by (cases cs; cases "tl cs") (auto split: if_splits list.splits)
qed auto

lemma utf8_width_high: "utf8_width (c # cs) \<noteq> 0 \<Longrightarrow> 0x80 \<le> byte c"
  by (cases "c # cs" rule: utf8_width.cases) (auto split: if_splits list.splits)

lemma decode_simple:
  "simple_escape e = Some b \<Longrightarrow> e \<noteq> CHR ''u'' \<Longrightarrow> decode_body (backslash # e # t) = prepend [b] (decode_body t)"
  by (simp add: quote_def backslash_def)

lemma decode_unicode:
  "hex4 r = Some u \<Longrightarrow> \<not> high_surrogate u \<Longrightarrow> \<not> low_surrogate u \<Longrightarrow>
     decode_body (backslash # CHR ''u'' # r) = prepend (utf8_encode u) (decode_body (drop 4 r))"
  by (simp add: quote_def backslash_def)

lemma decode_plain:
  "c \<noteq> quote \<Longrightarrow> c \<noteq> backslash \<Longrightarrow> 0x20 \<le> byte c \<Longrightarrow> byte c < 0x80 \<Longrightarrow>
     decode_body (c # t) = prepend [c] (decode_body t)"
  by simp

lemma decode_wide:
  assumes "utf8_width (c # cs) = Suc w"
  shows "decode_body (c # cs) = prepend (c # take w cs) (decode_body (drop w cs))"
proof -
  have "0x80 \<le> byte c" using assms utf8_width_high[of c cs] by simp
  then show ?thesis using assms by (auto simp: quote_def backslash_def)
qed

declare decode_body.simps(2) [simp del]

lemma escape_unicode:
  assumes "byte c < 0x80"
  shows "decode_body (backslash # CHR ''u'' # CHR ''0'' # CHR ''0'' # hexdigit (byte c div 16) # hexdigit (byte c mod 16) # t)
       = prepend [c] (decode_body t)"
proof -
  have h0: "hexval (CHR ''0'') = Some 0" by (simp add: hexval_def)
  have "hex4 (CHR ''0'' # CHR ''0'' # hexdigit (byte c div 16) # hexdigit (byte c mod 16) # t) = Some (byte c)"
    using assms by (simp add: hex4_def h0 hexval_hexdigit)
  moreover have "utf8_encode (byte c) = [c]" using assms by (simp add: utf8_encode_def)
  ultimately show ?thesis
    using assms by (simp add: decode_unicode high_surrogate_def low_surrogate_def)
qed

lemma decode_escape_byte:
  assumes "byte c < 0x80"
  shows "decode_body (escape_byte c @ t) = prepend [c] (decode_body t)"
proof -
  let ?uni = "byte c < 0x20 \<or> c = CHR ''<'' \<or> c = CHR ''>'' \<or> c = CHR ''&''"
  let ?ctl = "byte c \<in> {8, 12, 10, 13, 9}"
  consider (esc) "c = quote \<or> c = backslash" | (ctl) n where "byte c = n" "n \<in> {8, 12, 10, 13, 9}"
    | (uni) "c \<noteq> quote" "c \<noteq> backslash" "\<not> ?ctl" "?uni"
    | (plain) "c \<noteq> quote" "c \<noteq> backslash" "\<not> ?ctl" "\<not> ?uni" by blast
  then show ?thesis
  proof cases
    case esc
    then have "simple_escape c = Some c" "c \<noteq> CHR ''u''" by (auto simp: simple_escape_def quote_def backslash_def)
    then show ?thesis using esc by (simp add: escape_byte_def decode_simple)
  next
    case ctl
    have e: "escape_byte c = [backslash, CHR ''b''] \<and> n = 8 \<or> escape_byte c = [backslash, CHR ''f''] \<and> n = 12 \<or>
        escape_byte c = [backslash, CHR ''n''] \<and> n = 10 \<or> escape_byte c = [backslash, CHR ''r''] \<and> n = 13 \<or>
        escape_byte c = [backslash, CHR ''t''] \<and> n = 9"
      using ctl by (auto simp: escape_byte_def quote_def backslash_def)
    have "c = char_of n" using ctl(1) by auto
    moreover have "simple_escape (CHR ''b'') = Some (char_of (8 :: nat))" "simple_escape (CHR ''f'') = Some (char_of (12 :: nat))"
      "simple_escape (CHR ''n'') = Some (char_of (10 :: nat))" "simple_escape (CHR ''r'') = Some (char_of (13 :: nat))"
      "simple_escape (CHR ''t'') = Some (char_of (9 :: nat))"
      by (simp_all add: simple_escape_def quote_def backslash_def)
    ultimately show ?thesis using e by (auto simp: decode_simple)
  next
    case uni
    then have "escape_byte c = [backslash, CHR ''u'', CHR ''0'', CHR ''0'', hexdigit (byte c div 16), hexdigit (byte c mod 16)]"
      unfolding escape_byte_def by simp
    then show ?thesis using escape_unicode[OF assms] by simp
  next
    case plain
    then have "escape_byte c = [c]" unfolding escape_byte_def by simp
    then show ?thesis using assms plain by (simp add: decode_plain)
  qed
qed

lemma line_separator_shape:
  assumes "line_separator s"
  obtains r n where "s = CHR 0xE2 # CHR 0x80 # char_of n # r" "n \<in> {0xA8, 0xA9 :: nat}"
proof -
  from assms obtain x y z r where s: "s = x # y # z # r"
    by (cases s; cases "tl s"; cases "tl (tl s)") (auto simp: line_separator_def)
  with assms have b: "byte x = 0xE2" "byte y = 0x80" "byte z \<in> {0xA8, 0xA9}" by (auto simp: line_separator_def)
  then have "x = char_of (0xE2 :: nat)" "y = char_of (0x80 :: nat)" by (metis char_of_char)+
  then have "x = CHR 0xE2" "y = CHR 0x80" by (simp_all add: char_of_def bit_0)
  with s b(3) that[of "byte z" r] show thesis by simp
qed

lemma decode_line_separator:
  assumes "line_separator s"
  shows "decode_body (backslash # ''u202'' @ hexdigit (byte (s ! 2) mod 16) # t) = prepend (take 3 s) (decode_body t)"
proof -
  from assms obtain r n where s: "s = CHR 0xE2 # CHR 0x80 # char_of n # r" "n \<in> {0xA8, 0xA9 :: nat}"
    by (rule line_separator_shape)
  have h: "hexval (CHR ''2'') = Some 2" "hexval (CHR ''0'') = Some 0" by (simp_all add: hexval_def)
  have m: "byte (s ! 2) mod 16 = n - 0xA0" "n - 0xA0 < 16" "n \<ge> 0xA0" using s by auto
  have "hex4 (''202'' @ hexdigit (byte (s ! 2) mod 16) # t) = Some (0x2020 + (n - 0xA0))"
    using m by (simp add: hex4_def h hexval_hexdigit)
  moreover have "utf8_encode (0x2020 + (n - 0xA0)) = take 3 s"
    using s by (auto simp: utf8_encode_def char_of_def bit_0)
  moreover have "\<not> high_surrogate (0x2020 + (n - 0xA0))" "\<not> low_surrogate (0x2020 + (n - 0xA0))"
    using s(2) by (auto simp: high_surrogate_def low_surrogate_def)
  ultimately show ?thesis by (simp add: decode_unicode)
qed

lemma line_separator_width: "line_separator s \<Longrightarrow> utf8_width s = 3"
proof -
  assume a: "line_separator s"
  then obtain x y z r where "s = x # y # z # r"
    by (cases s; cases "tl s"; cases "tl (tl s)") (auto simp: line_separator_def)
  with a show ?thesis by (auto simp: line_separator_def cont_def)
qed

lemma decode_encode_body:
  "valid_utf8 s \<Longrightarrow> decode_body (encode_body s @ quote # r) = Some (s, r)"
proof (induction s rule: encode_body.induct)
  case 1
  show ?case by (simp add: decode_body.simps)
next
  case (2 c cs)
  show ?case
  proof (cases "byte c < 0x80")
    case True
    with "2.IH"(1) "2.prems" show ?thesis by (simp add: decode_escape_byte prepend_def)
  next
    case False
    with "2.prems" obtain w where w: "utf8_width (c # cs) = Suc w" "valid_utf8 (drop w cs)"
      by (auto split: nat.splits)
    have IH: "decode_body (encode_body (drop w cs) @ quote # r) = Some (drop w cs, r)"
      using "2.IH"(3)[OF False w] .
    show ?thesis
    proof (cases "line_separator (c # cs)")
      case True
      with w line_separator_width[OF True] have "w = 2" by simp
      with False w True IH decode_line_separator[OF True, of "encode_body (drop w cs) @ quote # r"]
      show ?thesis by (simp add: prepend_def)
    next
      case nsep: False
      let ?t = "encode_body (drop w cs) @ quote # r"
      have "utf8_width (c # take w cs @ ?t) = Suc w"
        using utf8_width_append[of "c # cs" ?t] w by simp
      moreover have "length (take w cs) = w" using utf8_width_le[of "c # cs"] w by simp
      ultimately have "decode_body (c # take w cs @ ?t) = prepend (c # take w cs) (decode_body ?t)"
        by (simp add: decode_wide)
      then show ?thesis using False w nsep IH by (simp add: prepend_def)
    qed
  qed
qed

section \<open>Values round trip\<close>

text \<open>A byte that cannot continue a number.\<close>

definition stops :: "string \<Rightarrow> bool" where
  "stops r \<longleftrightarrow> (case r of [] \<Rightarrow> True | c # _ \<Rightarrow>
     \<not> is_digit c \<and> c \<noteq> CHR ''.'' \<and> c \<noteq> CHR ''e'' \<and> c \<noteq> CHR ''E'')"

definition valid_number :: "string \<Rightarrow> bool" where
  "valid_number lit \<longleftrightarrow> lex_number lit = Some (lit, [])"

lemma lex_digits_append:
  "lex_digits s = Some (d, r) \<Longrightarrow> (r = [] \<Longrightarrow> stops t) \<Longrightarrow> lex_digits (s @ t) = Some (d, r @ t)"
proof -
  assume a: "lex_digits s = Some (d, r)" and st: "r = [] \<Longrightarrow> stops t"
  then have d: "takeWhile is_digit s = d" "dropWhile is_digit s = r" "d \<noteq> []" by (auto simp: lex_digits_def split: if_splits)
  show ?thesis
  proof (cases "r = []")
    case True
    with d have "\<forall>x \<in> set s. is_digit x" by (simp add: dropWhile_eq_Nil_conv)
    moreover from this d(1) have "d = s" by (metis takeWhile_eq_all_conv)
    moreover have "takeWhile is_digit t = []" "dropWhile is_digit t = t"
      using st[OF True] by (cases t; simp add: stops_def)+
    ultimately show ?thesis using d True by (simp add: lex_digits_def takeWhile_append2 dropWhile_append2)
  next
    case False
    with d(2) obtain x where "x \<in> set s" "\<not> is_digit x" by (meson dropWhile_eq_Nil_conv)
    then show ?thesis using d by (simp add: lex_digits_def takeWhile_append1 dropWhile_append1)
  qed
qed

lemma lex_int_append:
  "lex_int s = Some (d, r) \<Longrightarrow> (r = [] \<Longrightarrow> stops t) \<Longrightarrow> lex_int (s @ t) = Some (d, r @ t)"
  using lex_digits_append by (cases s) (fastforce simp: lex_int_def split: if_splits)+

lemma lex_frac_append:
  "lex_frac s = Some (d, r) \<Longrightarrow> (r = [] \<Longrightarrow> stops t) \<Longrightarrow> lex_frac (s @ t) = Some (d, r @ t)"
proof (cases s)
  case Nil
  moreover assume "lex_frac s = Some (d, r)" "r = [] \<Longrightarrow> stops t"
  ultimately show ?thesis by (cases t) (auto simp: lex_frac_def stops_def)
next
  case (Cons c cs)
  moreover assume "lex_frac s = Some (d, r)" "r = [] \<Longrightarrow> stops t"
  ultimately show ?thesis using lex_digits_append[of cs _ r t]
    by (auto simp: lex_frac_def split: if_splits)
qed

lemma lex_exp_append:
  "lex_exp s = Some (d, r) \<Longrightarrow> (r = [] \<Longrightarrow> stops t) \<Longrightarrow> lex_exp (s @ t) = Some (d, r @ t)"
proof (cases s)
  case Nil
  moreover assume "lex_exp s = Some (d, r)" "r = [] \<Longrightarrow> stops t"
  ultimately show ?thesis by (cases t) (auto simp: lex_exp_def stops_def)
next
  case (Cons c cs)
  moreover assume "lex_exp s = Some (d, r)" "r = [] \<Longrightarrow> stops t"
  ultimately show ?thesis using lex_digits_append[of cs _ r t] lex_digits_append[of "tl cs" _ r t]
    by (cases cs) (auto simp: lex_exp_def split: if_splits)
qed

lemma lex_number_parts:
  assumes "lex_int s = Some (i, s2)" "lex_frac s2 = Some (f, s3)" "lex_exp s3 = Some (e, s4)"
  shows "lex_number (CHR ''-'' # s) = Some (CHR ''-'' # i @ f @ e, s4)"
    and "take 1 s \<noteq> ''-'' \<Longrightarrow> lex_number s = Some (i @ f @ e, s4)"
  using assms by (simp_all add: lex_number_def)

lemma lex_number_append:
  assumes "valid_number s" and "stops t"
  shows "lex_number (s @ t) = Some (s, t)"
proof -
  let ?sg = "if take 1 s = ''-'' then ''-'' else []" and ?s1 = "if take 1 s = ''-'' then drop 1 s else s"
  from assms(1) obtain i s2 f s3 e where
    l: "lex_int ?s1 = Some (i, s2)" "lex_frac s2 = Some (f, s3)" "lex_exp s3 = Some (e, [])" "s = ?sg @ i @ f @ e"
    by (auto simp: valid_number_def lex_number_def Let_def split: option.splits prod.splits if_splits)
  have "lex_int (?s1 @ t) = Some (i, s2 @ t)" "lex_frac (s2 @ t) = Some (f, s3 @ t)" "lex_exp (s3 @ t) = Some (e, [] @ t)"
    using lex_int_append[OF l(1)] lex_frac_append[OF l(2)] lex_exp_append[OF l(3)] assms(2) by blast+
  note p = lex_number_parts[OF this]
  have ne: "s \<noteq> []" using l(1) by (auto simp: lex_int_def)
  show ?thesis
  proof (cases "take 1 s = ''-''")
    case True
    then obtain s' where s': "s = CHR ''-'' # s'" by (cases s) auto
    with p(1) l(4) show ?thesis by simp
  next
    case False
    then have "take 1 (s @ t) \<noteq> ''-''" using ne by (cases s) auto
    with p(2) l(4) False show ?thesis by simp
  qed
qed

text \<open>Values that a decoder can read back at depth \<open>d\<close>.\<close>

fun json_ok :: "nat \<Rightarrow> json \<Rightarrow> bool"
  and elems_ok :: "nat \<Rightarrow> json list \<Rightarrow> bool"
  and members_ok :: "nat \<Rightarrow> (string \<times> json) list \<Rightarrow> bool" where
  "json_ok d JNull = True"
| "json_ok d (JBool b) = True"
| "json_ok d (JNum lit) = valid_number lit"
| "json_ok d (JStr s) = valid_utf8 s"
| "json_ok d (JArr vs) = (d < maxNestingDepth \<and> elems_ok (Suc d) vs)"
| "json_ok d (JObj ms) = (d < maxNestingDepth \<and> members_ok (Suc d) ms)"
| "elems_ok d [] = True"
| "elems_ok d (v # vs) = (json_ok d v \<and> elems_ok d vs)"
| "members_ok d [] = True"
| "members_ok d ((k, v) # ms) = (valid_utf8 k \<and> json_ok d v \<and> members_ok d ms)"

lemma valid_number_head: "valid_number s \<Longrightarrow> \<exists>c cs. s = c # cs \<and> (c = CHR ''-'' \<or> is_digit c)"
proof (cases s)
  case Nil
  moreover assume "valid_number s"
  ultimately show ?thesis by (simp add: valid_number_def lex_number_def lex_int_def)
next
  case (Cons c cs)
  moreover assume "valid_number s"
  ultimately show ?thesis
    by (auto simp: valid_number_def lex_number_def lex_int_def lex_digits_def Let_def is_digit_def
        split: if_splits option.splits prod.splits)
qed

lemma digit_head:
  "c = CHR ''-'' \<or> is_digit c \<Longrightarrow> \<not> is_space c \<and> c \<notin> {quote, CHR ''['', CHR ''{'', CHR '']'', CHR ''}'', CHR ''n'', CHR ''t'', CHR ''f''}"
  by (auto simp: is_digit_def is_space_def quote_def)

lemma encode_head:
  "json_ok d v \<Longrightarrow> \<exists>c cs. encode v = c # cs \<and> \<not> is_space c \<and> c \<noteq> CHR '']'' \<and> c \<noteq> CHR ''}''"
proof (cases v)
  case (JNum lit)
  moreover assume "json_ok d v"
  ultimately obtain c cs where "lit = c # cs" "c = CHR ''-'' \<or> is_digit c" using valid_number_head[of lit] by auto
  then show ?thesis using JNum digit_head[of c] by auto
qed (auto simp: encode_string_def is_space_def quote_def)

lemma skip_space_Cons: "\<not> is_space c \<Longrightarrow> skip_space (c # cs) = c # cs"
  by (simp add: skip_space_def)

lemma not_space [simp]: "\<not> is_space quote" "\<not> is_space (CHR '']'')" "\<not> is_space (CHR ''}'')"
  "\<not> is_space (CHR '','')" "\<not> is_space (CHR '':'')" "\<not> is_space (CHR ''['')" "\<not> is_space (CHR ''{'')"
  by (simp_all add: is_space_def quote_def)

lemma parse_number:
  "valid_number lit \<Longrightarrow> stops r \<Longrightarrow> parse_value (Suc k) d (lit @ r) = Some (JNum lit, r)"
proof -
  assume v: "valid_number lit" and r: "stops r"
  obtain c cs where c: "lit = c # cs" "c = CHR ''-'' \<or> is_digit c" using valid_number_head[OF v] by blast
  from digit_head[OF c(2)] c(1) lex_number_append[OF v r] show ?thesis
    by (auto simp: skip_space_Cons HasPrefix_def)
qed

lemma parse_string: "valid_utf8 s \<Longrightarrow> parse_value (Suc k) d (encode_string s @ r) = Some (JStr s, r)"
  by (simp add: encode_string_def skip_space_Cons decode_encode_body)

lemma stops_sep: "stops (CHR '','' # r)" "stops (CHR '']'' # r)" "stops (CHR ''}'' # r)" "stops []"
  by (simp_all add: stops_def is_digit_def)

lemma parse_encode_mutual:
  "json_ok d v \<Longrightarrow> stops r \<Longrightarrow> 2 * length (encode v) \<le> k \<Longrightarrow> parse_value k d (encode v @ r) = Some (v, r)"
  "elems_ok d vs \<Longrightarrow> vs \<noteq> [] \<Longrightarrow> 2 * length (encode_elems vs) + 1 \<le> k \<Longrightarrow>
     parse_elems k d (encode_elems vs @ CHR '']'' # r) = Some (vs, r)"
  "members_ok d ms \<Longrightarrow> ms \<noteq> [] \<Longrightarrow> 2 * length (encode_members ms) + 1 \<le> k \<Longrightarrow>
     parse_members k d (encode_members ms @ CHR ''}'' # r) = Some (ms, r)"
proof (induction v and vs and ms arbitrary: k d r and k d r and k d r rule: encode_encode_elems_encode_members.induct)
  case 1
  then show ?case by (cases k) (auto simp: skip_space_Cons is_space_def HasPrefix_def quote_def)
next
  case (2 b)
  then show ?case by (cases k; cases b) (auto simp: skip_space_Cons is_space_def HasPrefix_def quote_def)
next
  case (3 lit)
  then obtain k' where "k = Suc k'" using valid_number_head[of lit] by (cases k) auto
  with 3 show ?case by (simp add: parse_number del: parse_value.simps)
next
  case (4 s)
  then obtain k' where "k = Suc k'" by (cases k) (auto simp: encode_string_def)
  with 4 show ?case by (simp add: parse_string del: parse_value.simps)
next
  case (5 vs)
  then obtain k' where k: "k = Suc k'" by (cases k) auto
  show ?case
  proof (cases vs)
    case Nil
    with 5 k show ?thesis by (simp add: skip_space_Cons quote_def)
  next
    case (Cons v us)
    with 5(2) encode_head[of "Suc d" v] obtain c cs where c: "encode v = c # cs" "\<not> is_space c" "c \<noteq> CHR '']''" by auto
    have "parse_elems k' (Suc d) (encode_elems vs @ CHR '']'' # r) = Some (vs, r)"
      using 5 k Cons by simp
    with 5 k c Cons show ?thesis by (simp add: skip_space_Cons quote_def)
  qed
next
  case (6 ms)
  then obtain k' where k: "k = Suc k'" by (cases k) auto
  show ?case
  proof (cases ms)
    case Nil
    with 6 k show ?thesis by (simp add: skip_space_Cons quote_def)
  next
    case (Cons m us)
    have "parse_members k' (Suc d) (encode_members ms @ CHR ''}'' # r) = Some (ms, r)"
      using 6 k Cons by simp
    with 6 k Cons show ?thesis by (cases m) (simp add: skip_space_Cons encode_string_def, simp add: quote_def)
  qed
next
  case (8 v vs)
  then obtain k' where k: "k = Suc k'" by (cases k) auto
  have rest: "stops ((if vs = [] then [] else '','' @ encode_elems vs) @ CHR '']'' # r)" by (simp add: stops_sep)
  have "parse_value k' d (encode v @ (if vs = [] then [] else '','' @ encode_elems vs) @ CHR '']'' # r)
      = Some (v, (if vs = [] then [] else '','' @ encode_elems vs) @ CHR '']'' # r)"
    using 8(1)[OF _ rest, of d k'] 8(3-) k by simp
  moreover have "vs \<noteq> [] \<Longrightarrow> parse_elems k' d (encode_elems vs @ CHR '']'' # r) = Some (vs, r)"
    using 8(2)[of d k' r] 8(3-) k by simp
  ultimately show ?case using k by (simp add: skip_space_Cons)
next
  case (10 key v ms)
  then obtain k' where k: "k = Suc k'" by (cases k) auto
  have rest: "stops ((if ms = [] then [] else '','' @ encode_members ms) @ CHR ''}'' # r)" by (simp add: stops_sep)
  have "parse_value k' d (encode v @ (if ms = [] then [] else '','' @ encode_members ms) @ CHR ''}'' # r)
      = Some (v, (if ms = [] then [] else '','' @ encode_members ms) @ CHR ''}'' # r)"
    using 10(1)[OF _ rest, of d k'] 10(3-) k by simp
  moreover have "ms \<noteq> [] \<Longrightarrow> parse_members k' d (encode_members ms @ CHR ''}'' # r) = Some (ms, r)"
    using 10(2)[of d k' r] 10(3-) k by simp
  ultimately show ?case using k 10(3)
    by (simp add: skip_space_Cons encode_string_def decode_encode_body)
qed simp_all

theorem decode_encode: "json_ok 0 v \<Longrightarrow> unmarshal (encode v) = Some v"
  using parse_encode_mutual(1)[of 0 v "[]" "2 * length (encode v) + 2"]
  by (simp add: unmarshal_def parse_def stops_sep skip_space_def)

section \<open>Enough fuel\<close>

lemma skip_space_le: "length (skip_space s) \<le> length s"
  by (simp add: skip_space_def length_dropWhile_le)

lemma skip_space_ConsD: "skip_space s = c # r \<Longrightarrow> length r < length s"
  using skip_space_le[of s] by simp

lemma decode_body_step:
  assumes "decode_body (c # cs) = Some (x, r)"
  shows "r = cs \<or> (\<exists>t a. length t \<le> length cs \<and> decode_body t = Some (a, r))"
proof -
  have E: "\<exists>t a. length t \<le> n \<and> decode_body t = Some (a, r)" if "decode_body t = Some (a, r)" "length t \<le> n" for t a n
    using that by blast
  show ?thesis using assms
    by (auto simp: decode_body.simps(2) prepend_def split: if_splits list.splits option.splits nat.splits
        intro: E)
qed

lemma decode_body_shorter: "decode_body s = Some (x, r) \<Longrightarrow> length r < length s"
proof (induction s arbitrary: x rule: length_induct)
  case (1 s)
  show ?case
  proof (cases s)
    case (Cons c cs)
    from decode_body_step[of c cs x r] 1(2) Cons
    consider "r = cs" | t a where "length t \<le> length cs" "decode_body t = Some (a, r)" by blast
    then show ?thesis
    proof cases
      case 2
      with 1(1) Cons have "length r < length t" by simp
      with 2 Cons show ?thesis by simp
    qed (simp add: Cons)
  qed (use 1(2) in simp)
qed

lemma lex_digits_lt: "lex_digits s = Some (d, r) \<Longrightarrow> length r < length s"
proof -
  assume "lex_digits s = Some (d, r)"
  then have s: "s = d @ r" and "d \<noteq> []" by (auto simp: lex_digits_def split: if_splits)
  then show ?thesis by simp
qed

lemma lex_number_shorter: "lex_number s = Some (l, r) \<Longrightarrow> length r < length s"
proof -
  define s1 where "s1 = (if take 1 s = ''-'' then drop 1 s else s)"
  assume "lex_number s = Some (l, r)"
  then obtain i s2 f s3 e where l: "lex_int s1 = Some (i, s2)" "lex_frac s2 = Some (f, s3)" "lex_exp s3 = Some (e, r)"
    by (auto simp: lex_number_def s1_def split: option.splits prod.splits if_splits)
  have "length s1 \<le> length s" by (simp add: s1_def)
  moreover have "length s2 < length s1"
    using l(1) by (auto simp: lex_int_def dest: lex_digits_lt split: list.splits if_splits)
  moreover have "length s3 \<le> length s2"
    using l(2) by (auto simp: lex_frac_def dest!: lex_digits_lt split: list.splits if_splits)
  moreover have "length r \<le> length s3"
    using l(3) by (auto simp: lex_exp_def dest!: lex_digits_lt split: list.splits if_splits)
  ultimately show ?thesis by linarith
qed

lemma parse_elems_SucE:
  assumes "parse_elems (Suc k) d s = Some (vs, r)"
  obtains (last) v t where "parse_value k d s = Some (v, t)" "skip_space t = CHR '']'' # r" "vs = [v]"
  | (more) v t u ws where "parse_value k d s = Some (v, t)" "skip_space t = CHR '','' # u"
      "parse_elems k d u = Some (ws, r)" "vs = v # ws"
  using assms by (auto split: option.splits list.splits if_splits prod.splits)

lemma parse_members_SucE:
  assumes "parse_members (Suc k) d s = Some (ms, r)"
  obtains (last) b key t u v w where "skip_space s = quote # b" "decode_body b = Some (key, t)"
      "skip_space t = CHR '':'' # u" "parse_value k d u = Some (v, w)" "skip_space w = CHR ''}'' # r" "ms = [(key, v)]"
  | (more) b key t u v w x ns where "skip_space s = quote # b" "decode_body b = Some (key, t)"
      "skip_space t = CHR '':'' # u" "parse_value k d u = Some (v, w)" "skip_space w = CHR '','' # x"
      "parse_members k d x = Some (ns, r)" "ms = (key, v) # ns"
  using assms by (auto split: option.splits list.splits if_splits prod.splits)

lemma parse_value_SucE:
  assumes "parse_value (Suc k) d s = Some (v, r)"
  obtains (arr) t vs where "skip_space s = CHR ''['' # t" "d < maxNestingDepth" "take 1 (skip_space t) \<noteq> '']''"
      "parse_elems k (Suc d) t = Some (vs, r)" "v = JArr vs"
  | (obj) t ms where "skip_space s = CHR ''{'' # t" "d < maxNestingDepth" "take 1 (skip_space t) \<noteq> ''}''"
      "parse_members k (Suc d) t = Some (ms, r)" "v = JObj ms"
  | (leaf) "length r < length s" "\<forall>k'. parse_value (Suc k') d s = Some (v, r)"
proof -
  obtain c t where t: "skip_space s = c # t" using assms by (cases "skip_space s") auto
  have lt: "length t < length s" using skip_space_ConsD[OF t] .
  have sp: "length (skip_space t) \<le> length t" by (rule skip_space_le)
  have kw: "length (drop n t) < length s" for n using lt by simp
  have sh: "length (drop n (skip_space t)) < length s" for n using lt sp by simp
  have st: "length r < length s" if "decode_body t = Some (x, r)" for x
    using decode_body_shorter[OF that] lt by simp
  have nu: "length r < length s" if "lex_number (c # t) = Some (l, r)" for l
    using lex_number_shorter[OF that] skip_space_le[of s] t by simp
  consider "c = CHR ''['' \<and> take 1 (skip_space t) \<noteq> '']''" | "c = CHR ''{'' \<and> take 1 (skip_space t) \<noteq> ''}''"
    | "\<not> (c = CHR ''['' \<and> take 1 (skip_space t) \<noteq> '']'')" "\<not> (c = CHR ''{'' \<and> take 1 (skip_space t) \<noteq> ''}'')" by blast
  then show thesis
  proof cases
    case 1
    with assms t arr show thesis by (auto simp: quote_def split: if_splits)
  next
    case 2
    with assms t obj show thesis by (auto simp: quote_def split: if_splits)
  next
    case 3
    have "\<forall>k'. parse_value (Suc k') d s = Some (v, r)" using assms t 3 by (auto split: if_splits)
    moreover have "length r < length s" using assms t 3
      by (simp split: if_splits) (use kw sh st nu in auto)
    ultimately show thesis using leaf by blast
  qed
qed

lemma parse_shorter:
  "(\<forall>d s v r. parse_value k d s = Some (v, r) \<longrightarrow> length r < length s) \<and>
   (\<forall>d s vs r. parse_elems k d s = Some (vs, r) \<longrightarrow> length r < length s) \<and>
   (\<forall>d s ms r. parse_members k d s = Some (ms, r) \<longrightarrow> length r < length s)"
proof (induction k)
  case (Suc k)
  note IH = Suc[THEN conjunct1, rule_format] Suc[THEN conjunct2, THEN conjunct1, rule_format]
    Suc[THEN conjunct2, THEN conjunct2, rule_format]
  show ?case
  proof (intro conjI allI impI)
    show "length r < length s" if "parse_value (Suc k) d s = Some (v, r)" for d s v r
      using that by (cases rule: parse_value_SucE) (auto dest!: IH skip_space_ConsD)
    show "length r < length s" if "parse_elems (Suc k) d s = Some (vs, r)" for d s vs r
      using that by (cases rule: parse_elems_SucE) (auto dest!: IH skip_space_ConsD)
    show "length r < length s" if "parse_members (Suc k) d s = Some (ms, r)" for d s ms r
      using that by (cases rule: parse_members_SucE) (auto dest!: IH skip_space_ConsD decode_body_shorter)
  qed
qed simp

lemma parse_value_shorter: "parse_value k d s = Some (v, r) \<Longrightarrow> length r < length s"
  using parse_shorter by blast

text \<open>Whatever any amount of fuel finds, twice the length of the input finds.\<close>

lemma parse_fuel:
  "(\<forall>d s v r K. parse_value k d s = Some (v, r) \<longrightarrow> 2 * length s \<le> K \<longrightarrow> parse_value K d s = Some (v, r)) \<and>
   (\<forall>d s vs r K. parse_elems k d s = Some (vs, r) \<longrightarrow> 2 * length s < K \<longrightarrow> parse_elems K d s = Some (vs, r)) \<and>
   (\<forall>d s ms r K. parse_members k d s = Some (ms, r) \<longrightarrow> 2 * length s < K \<longrightarrow> parse_members K d s = Some (ms, r))"
proof (induction k)
  case (Suc k)
  note IH = Suc[THEN conjunct1, rule_format] Suc[THEN conjunct2, THEN conjunct1, rule_format]
    Suc[THEN conjunct2, THEN conjunct2, rule_format]
  show ?case
  proof (intro conjI allI impI)
    fix d s v r K
    assume p: "parse_value (Suc k) d s = Some (v, r)" and K: "2 * length s \<le> K"
    have "0 < length s" using parse_value_shorter[OF p] by linarith
    with K obtain K' where K': "K = Suc K'" by (cases K) auto
    from p show "parse_value K d s = Some (v, r)"
    proof (cases rule: parse_value_SucE)
      case (arr t vs)
      with skip_space_ConsD[OF arr(1)] K K' IH(2)[OF arr(4), of K'] show ?thesis by (simp add: quote_def)
    next
      case (obj t ms)
      with skip_space_ConsD[OF obj(1)] K K' IH(3)[OF obj(4), of K'] show ?thesis by (simp add: quote_def)
    qed (use K' in blast)
  next
    fix d s vs r K
    assume p: "parse_elems (Suc k) d s = Some (vs, r)" and K: "2 * length s < K"
    from K obtain K' where K': "K = Suc K'" by (cases K) auto
    from p show "parse_elems K d s = Some (vs, r)"
    proof (cases rule: parse_elems_SucE)
      case (last v t)
      with K K' IH(1)[OF last(1), of K'] show ?thesis by simp
    next
      case (more v t u ws)
      have "length u < length s" using skip_space_ConsD[OF more(2)] parse_value_shorter[OF more(1)] by simp
      with more K K' IH(1)[OF more(1), of K'] IH(2)[OF more(3), of K'] show ?thesis by simp
    qed
  next
    fix d s ms r K
    assume p: "parse_members (Suc k) d s = Some (ms, r)" and K: "2 * length s < K"
    from K obtain K' where K': "K = Suc K'" by (cases K) auto
    from p show "parse_members K d s = Some (ms, r)"
    proof (cases rule: parse_members_SucE)
      case (last b key t u v w)
      have "length u < length s"
        using skip_space_ConsD[OF last(1)] decode_body_shorter[OF last(2)] skip_space_ConsD[OF last(3)] by simp
      with last K K' IH(1)[OF last(4), of K'] show ?thesis by simp
    next
      case (more b key t u v w x ns)
      have "length u < length s"
        using skip_space_ConsD[OF more(1)] decode_body_shorter[OF more(2)] skip_space_ConsD[OF more(3)] by simp
      moreover have "length x < length u" using skip_space_ConsD[OF more(5)] parse_value_shorter[OF more(4)] by simp
      ultimately show ?thesis using more K K' IH(1)[OF more(4), of K'] IH(3)[OF more(6), of K'] by simp
    qed
  qed
qed simp

lemma parse_complete: "parse_value k 0 s = Some (v, r) \<Longrightarrow> parse s = Some (v, r)"
  using parse_fuel[of k, THEN conjunct1, rule_format, of 0 s v r "2 * length s + 2"]
  unfolding parse_def by (meson le_add1)

section \<open>Integers\<close>

definition digits_value :: "string \<Rightarrow> nat" where
  "digits_value ds = foldl (\<lambda>n c. n * 10 + (byte c - 48)) 0 ds"

text \<open>\<open>strconv.ParseInt\<close> in base 10 with 64 bits.\<close>

definition ParseInt :: "string \<Rightarrow> int64 option" where
  "ParseInt s =
     (let neg = (take 1 s = ''-''); ds = (if take 1 s = ''-'' \<or> take 1 s = ''+'' then drop 1 s else s);
          v = (if neg then - int (digits_value ds) else int (digits_value ds))
      in if ds = [] \<or> \<not> list_all is_digit ds \<or> v < - (2 ^ 63) \<or> v \<ge> 2 ^ 63 then None
         else Some (of_int v))"

lemma digit_char: "n < 10 \<Longrightarrow> is_digit (char_of (48 + n)) \<and> byte (char_of (48 + n)) = 48 + n"
  by (simp add: is_digit_def)

lemma nat_digits_digits: "list_all is_digit (nat_digits n) \<and> nat_digits n \<noteq> []"
proof (induction n rule: nat_digits.induct)
  case (1 n)
  then show ?case
    using digit_char[of "n mod 10"] digit_char[of n] by (subst (1 2) nat_digits.simps) auto
qed

lemma digits_value_snoc: "digits_value (ds @ [c]) = digits_value ds * 10 + (byte c - 48)"
  by (simp add: digits_value_def)

lemma digits_value_digits: "digits_value (nat_digits n) = n"
proof (induction n rule: nat_digits.induct)
  case (1 n)
  show ?case
  proof (cases "n < 10")
    case True
    then show ?thesis by (subst nat_digits.simps) (simp add: digits_value_def)
  next
    case False
    then show ?thesis using 1 by (subst nat_digits.simps) (simp add: digits_value_snoc)
  qed
qed

lemma nat_digits_head: "nat_digits n = c # cs \<Longrightarrow> c = CHR ''0'' \<Longrightarrow> n = 0 \<and> cs = []"
proof (induction n arbitrary: c cs rule: nat_digits.induct)
  case (1 n)
  show ?case
  proof (cases "n < 10")
    case True
    then have "char_of (48 + n) = CHR ''0'' \<and> cs = []" using 1(2,3) by (subst (asm) nat_digits.simps) simp
    then have "48 + n = byte (CHR ''0'')" "cs = []" using digit_char[of n] True by metis+
    then show ?thesis by simp
  next
    case False
    obtain d ds where d: "nat_digits (n div 10) = d # ds" using nat_digits_digits by (meson neq_Nil_conv)
    then have "c = d" using 1(2) False by (subst (asm) nat_digits.simps) simp
    then have "n div 10 = 0" using 1(1)[OF False d] 1(3) by simp
    with False show ?thesis by simp
  qed
qed

lemma valid_number_digits: "valid_number (nat_digits n)" "valid_number (CHR ''-'' # nat_digits n)"
proof -
  obtain c cs where c: "nat_digits n = c # cs" using nat_digits_digits by (meson neq_Nil_conv)
  have all: "\<forall>x \<in> set (nat_digits n). is_digit x" using nat_digits_digits by (simp add: list_all_iff)
  have "lex_int (nat_digits n) = Some (nat_digits n, [])"
  proof (cases "c = CHR ''0''")
    case True
    with nat_digits_head[OF c] c show ?thesis by (simp add: lex_int_def)
  next
    case False
    have "takeWhile is_digit (nat_digits n) = nat_digits n" "dropWhile is_digit (nat_digits n) = []" using all by simp_all
    with False c show ?thesis by (simp add: lex_int_def lex_digits_def)
  qed
  note p = lex_number_parts[OF this, of "[]" "[]" "[]" "[]"]
  have "is_digit c" using all c by simp
  then have "take 1 (nat_digits n) \<noteq> ''-''" using c by (auto simp: is_digit_def)
  with p show "valid_number (nat_digits n)" "valid_number (CHR ''-'' # nat_digits n)"
    by (simp_all add: valid_number_def lex_frac_def lex_exp_def)
qed

lemma valid_number_int [simp]: "valid_number (int_digits i)"
  using valid_number_digits by (simp add: int_digits_def)

lemma ParseInt_int_digits: "ParseInt (int_digits (sint w)) = Some w"
proof (cases "sint w < 0")
  case True
  then show ?thesis using nat_digits_digits sint64_lower[of w]
    by (simp add: int_digits_def ParseInt_def digits_value_digits)
next
  case False
  let ?n = "nat (sint w)"
  obtain c cs where c: "nat_digits ?n = c # cs" using nat_digits_digits by (meson neq_Nil_conv)
  with nat_digits_digits[of ?n] have "is_digit c" by simp
  then have "take 1 (nat_digits ?n) \<noteq> ''-''" "take 1 (nat_digits ?n) \<noteq> ''+''" using c by (auto simp: is_digit_def)
  with False show ?thesis using nat_digits_digits sint64_upper[of w] sint64_lower[of w]
    by (simp add: int_digits_def ParseInt_def digits_value_digits)
qed

section \<open>Struct fields and maps\<close>

text \<open>
  An object member belongs to a struct field when the names agree up to simple case folding.
  The only runes outside ASCII that fold to ASCII letters are the long s (U+017F) and the
  Kelvin sign (U+212A).
\<close>

definition upper :: "char \<Rightarrow> char" where
  "upper c = (if 97 \<le> byte c \<and> byte c \<le> 122 then char_of (byte c - 32) else c)"

fun foldName :: "string \<Rightarrow> string" where
  "foldName [] = []"
| "foldName (a # cs) =
     (if byte a = 0xC5 \<and> take 1 cs = [char_of (0xBF :: nat)] then CHR ''S'' # foldName (drop 1 cs)
      else if byte a = 0xE2 \<and> take 2 cs = map char_of [0x84, 0xAA :: nat] then CHR ''K'' # foldName (drop 2 cs)
      else upper a # foldName cs)"

definition field_is :: "string \<Rightarrow> string \<Rightarrow> bool" where
  "field_is name key \<longleftrightarrow> foldName key = foldName name"

text \<open>Storing a value in a string or an integer field: \<open>null\<close> leaves it, another type is an
  error.\<close>

fun set_string :: "json \<Rightarrow> string \<Rightarrow> string option" where
  "set_string (JStr s) old = Some s"
| "set_string JNull old = Some old"
| "set_string _ old = None"

fun set_int64 :: "json \<Rightarrow> int64 \<Rightarrow> int64 option" where
  "set_int64 (JNum lit) old = ParseInt lit"
| "set_int64 JNull old = Some old"
| "set_int64 _ old = None"

text \<open>Decoding an object into a structure: its members in order, each into the field that takes it.\<close>

fun setMembers :: "(string \<times> json \<Rightarrow> 'a \<Rightarrow> 'a option) \<Rightarrow> (string \<times> json) list \<Rightarrow> 'a \<Rightarrow> 'a option" where
  "setMembers set1 [] x = Some x"
| "setMembers set1 (m # ms) x = (case set1 m x of None \<Rightarrow> None | Some y \<Rightarrow> setMembers set1 ms y)"

text \<open>Decoding into \<open>map[string]any\<close>: the last member of a name counts, the map is encoded in
  ascending order of its keys.\<close>

definition last_members :: "(string \<times> 'a) list \<Rightarrow> (string \<times> 'a) list" where
  "last_members ms = map (\<lambda>k. (k, the (map_of (rev ms) k))) (sorted_list_of_set (set (map fst ms)))"

fun canon :: "json \<Rightarrow> json"
  and canon_elems :: "json list \<Rightarrow> json list"
  and canon_members :: "(string \<times> json) list \<Rightarrow> (string \<times> json) list" where
  "canon (JArr vs) = JArr (canon_elems vs)"
| "canon (JObj ms) = JObj (last_members (canon_members ms))"
| "canon JNull = JNull"
| "canon (JBool b) = JBool b"
| "canon (JNum l) = JNum l"
| "canon (JStr s) = JStr s"
| "canon_elems [] = []"
| "canon_elems (v # vs) = canon v # canon_elems vs"
| "canon_members [] = []"
| "canon_members ((k, v) # ms) = (k, canon v) # canon_members ms"

section \<open>Decoded values are well-formed\<close>

lemma valid_utf8_cases:
  "valid_utf8 (c # cs) \<longleftrightarrow> (if byte c < 0x80 then valid_utf8 cs
     else \<exists>w. utf8_width (c # cs) = Suc w \<and> valid_utf8 (drop w cs))"
  by (auto split: nat.splits)

declare valid_utf8.simps(2) [simp del]

lemma valid_utf8_ascii: "byte c < 0x80 \<Longrightarrow> valid_utf8 (c # cs) = valid_utf8 cs"
  by (simp add: valid_utf8_cases)

lemma valid_utf8_wide:
  assumes "utf8_width p = length p" "p \<noteq> []" "valid_utf8 t"
  shows "valid_utf8 (p @ t)"
proof -
  from assms(2) obtain c cs where p: "p = c # cs" by (cases p) auto
  have "utf8_width (p @ t) = length p" using utf8_width_append[of p t] assms by simp
  with p have "utf8_width (c # cs @ t) = Suc (length cs)" by simp
  then show ?thesis using utf8_width_high[of c "cs @ t"] assms(3) p by (simp add: valid_utf8_cases)
qed

lemma mod_offset: "k * 64 \<le> x \<Longrightarrow> x < k * 64 + b \<Longrightarrow> b \<le> 64 \<Longrightarrow> x mod 64 < (b :: nat)"
proof -
  assume a: "k * 64 \<le> x" "x < k * 64 + b" "b \<le> 64"
  then obtain y where "x = k * 64 + y" by (metis le_Suc_ex)
  with a show ?thesis by simp
qed

lemma utf8_encode_width:
  assumes "0x80 \<le> u" "u < 0x110000" "\<not> high_surrogate u" "\<not> low_surrogate u"
  shows "utf8_width (utf8_encode u) = length (utf8_encode u)"
proof -
  have m: "n < 256 \<Longrightarrow> byte (char_of n) = n" for n :: nat by simp
  consider "u < 0x800" | "0x800 \<le> u" "u < 0x10000" | "0x10000 \<le> u" by linarith
  then show ?thesis
  proof cases
    case 1
    have "0xC2 \<le> 0xC0 + u div 64" "0xC0 + u div 64 \<le> 0xDF" "0x80 + u mod 64 \<le> 0xBF" using assms(1) 1 by linarith+
    then show ?thesis using assms(1) 1 by (simp add: utf8_encode_def cont_def)
  next
    case 2
    have a: "0xE0 \<le> 0xE0 + u div 4096" "0xE0 + u div 4096 \<le> 0xEF" "0x80 + u div 64 mod 64 \<le> 0xBF" "0x80 + u mod 64 \<le> 0xBF"
      using 2 by linarith+
    have b: "u div 4096 = 0 \<Longrightarrow> 0x20 \<le> u div 64 mod 64"
    proof -
      assume "u div 4096 = 0"
      then have "u < 4096" by simp
      then have "u div 64 < 64" by linarith
      then show ?thesis using 2(1) by simp
    qed
    have c: "u div 4096 = 0xD \<Longrightarrow> u div 64 mod 64 \<le> 0x1F"
    proof -
      assume "u div 4096 = 0xD"
      then have "0xD000 \<le> u" "u < 0xE000" by linarith+
      then have "u < 0xD800" using assms(3,4) by (auto simp: high_surrogate_def low_surrogate_def)
      then have "u div 64 < 0x360" "0x340 \<le> u div 64" using \<open>0xD000 \<le> u\<close> by linarith+
      then show ?thesis using mod_offset[of 13 "u div 64" 32] by simp
    qed
    show ?thesis using 2 a b c by (simp add: utf8_encode_def cont_def)
  next
    case 3
    have a: "u div 262144 \<le> 4" "u div 4096 mod 64 \<le> 63" "u div 64 mod 64 \<le> 63" "u mod 64 \<le> 63"
      using assms(2) by linarith+
    have b: "u div 262144 = 0 \<Longrightarrow> 0x10 \<le> u div 4096 mod 64"
    proof -
      assume "u div 262144 = 0"
      then have "u < 262144" by simp
      then have "u div 4096 < 64" by linarith
      then show ?thesis using 3 by simp
    qed
    have c: "u div 262144 = 4 \<Longrightarrow> u div 4096 mod 64 \<le> 0xF"
    proof -
      assume "u div 262144 = 4"
      then have "0x100 \<le> u div 4096" by linarith
      moreover have "u div 4096 < 0x110" using assms(2) by linarith
      ultimately show ?thesis using mod_offset[of 4 "u div 4096" 16] by simp
    qed
    show ?thesis using 3 a b c by (simp add: utf8_encode_def cont_def)
  qed
qed

lemma valid_utf8_encode:
  assumes "u < 0x110000" "\<not> high_surrogate u" "\<not> low_surrogate u" "valid_utf8 t"
  shows "valid_utf8 (utf8_encode u @ t)"
proof (cases "u < 0x80")
  case True
  then show ?thesis using assms(4) by (simp add: utf8_encode_def valid_utf8_ascii)
next
  case False
  then show ?thesis using assms utf8_encode_width[of u]
    by (intro valid_utf8_wide) (auto simp: utf8_encode_def)
qed

lemma valid_rune_error: "valid_utf8 t \<Longrightarrow> valid_utf8 (rune_error @ t)"
  by (rule valid_utf8_wide) (simp_all add: rune_error_def cont_def)

lemma hex4_bound: "hex4 s = Some u \<Longrightarrow> u < 0x10000"
proof -
  have v: "hexval c = Some n \<Longrightarrow> n < 16" for c n by (auto simp: hexval_def split: if_splits)
  assume "hex4 s = Some u"
  then obtain a b c d w x y z where h: "hexval w = Some a" "hexval x = Some b" "hexval y = Some c" "hexval z = Some d"
    and u: "u = ((a * 16 + b) * 16 + c) * 16 + d"
    by (auto simp: hex4_def map_eq_Cons_conv split: list.splits option.splits)
  show ?thesis using u v[OF h(1)] v[OF h(2)] v[OF h(3)] v[OF h(4)] by simp
qed

lemma pair_rune_bound:
  "pair_rune u s = Some v \<Longrightarrow> v < 0x110000 \<and> \<not> high_surrogate v \<and> \<not> low_surrogate v"
  by (auto simp: pair_rune_def high_surrogate_def low_surrogate_def split: if_splits option.splits)

lemma prepend_Some: "prepend p x = Some (s, r) \<longleftrightarrow> (\<exists>t. x = Some (t, r) \<and> s = p @ t)"
  by (auto simp: prepend_def)

text \<open>What one step of the string decoder puts in front of the rest is valid UTF-8.\<close>

lemma decode_body_cases:
  assumes "decode_body (c # cs) = Some (x, r)"
  obtains (quoted) "x = []"
  | (simple) e r' b where "cs = e # r'" "simple_escape e = Some b" "prepend [b] (decode_body r') = Some (x, r)"
  | (uni) r' u where "cs = CHR ''u'' # r'" "hex4 r' = Some u" "\<not> high_surrogate u" "\<not> low_surrogate u"
      "prepend (utf8_encode u) (decode_body (drop 4 r')) = Some (x, r)"
  | (pair) r' u v where "cs = CHR ''u'' # r'" "pair_rune u (drop 4 r') = Some v"
      "prepend (utf8_encode v) (decode_body (drop 10 r')) = Some (x, r)"
  | (bad) t where "length t \<le> length cs" "prepend rune_error (decode_body t) = Some (x, r)"
  | (plain) "byte c < 0x80" "prepend [c] (decode_body cs) = Some (x, r)"
  | (wide) w where "utf8_width (c # cs) = Suc w"
      "prepend (take (Suc w) (c # cs)) (decode_body (drop w cs)) = Some (x, r)"
proof (cases "c = backslash \<and> c \<noteq> quote")
  case True
  then obtain e r' where cs: "cs = e # r'" using assms by (cases cs) (auto simp: decode_body.simps(2))
  show thesis
  proof (cases "e = CHR ''u''")
    case u: True
    then obtain u where h: "hex4 r' = Some u" using assms True cs by (auto simp: decode_body.simps(2) split: option.splits)
    have l: "length (drop 4 r') \<le> length cs" using cs by simp
    show thesis using assms True cs u h uni[of r' u] pair[of r' u] bad[of "drop 4 r'"] l
      by (auto simp: decode_body.simps(2) split: option.splits if_splits)
  next
    case False
    then show thesis using assms True cs simple[of e r']
      by (auto simp: decode_body.simps(2) split: option.splits)
  qed
next
  case False
  show thesis
  proof (cases "c = quote \<or> byte c < 0x80")
    case True
    then show thesis using assms False quoted plain by (auto simp: decode_body.simps(2) split: if_splits)
  next
    case wide': False
    then show thesis using assms False bad[of cs] wide
      by (auto simp: decode_body.simps(2) split: nat.splits)
  qed
qed

lemma decode_body_prefix:
  assumes "decode_body (c # cs) = Some (x, r)"
  shows "x = [] \<or> (\<exists>t a p. length t \<le> length cs \<and> decode_body t = Some (a, r) \<and> x = p @ a \<and>
    (valid_utf8 a \<longrightarrow> valid_utf8 (p @ a)))"
proof -
  have E: "\<exists>t a p. length t \<le> n \<and> decode_body t = Some (a, r) \<and> x = p @ a \<and> (valid_utf8 a \<longrightarrow> valid_utf8 (p @ a))"
    if "prepend p (decode_body t) = Some (x, r)" "length t \<le> n" "\<And>z. valid_utf8 z \<Longrightarrow> valid_utf8 (p @ z)" for t n p
    using that by (auto simp: prepend_Some)
  from assms show ?thesis
  proof (cases rule: decode_body_cases)
    case (simple e r' b)
    then have "byte b < 0x80" by (auto simp: simple_escape_def quote_def backslash_def split: if_splits)
    with simple E[of "[b]" r' "length cs"] show ?thesis by (simp add: valid_utf8_ascii)
  next
    case (uni r' u)
    with E[of "utf8_encode u" "drop 4 r'" "length cs"] hex4_bound[of r' u] show ?thesis
      by (simp add: valid_utf8_encode)
  next
    case (pair r' u v)
    with E[of "utf8_encode v" "drop 10 r'" "length cs"] pair_rune_bound[OF pair(2)] show ?thesis
      by (simp add: valid_utf8_encode)
  next
    case (bad t)
    with E[of rune_error t "length cs"] valid_rune_error show ?thesis by simp
  next
    case plain
    with E[of "[c]" cs "length cs"] show ?thesis by (simp add: valid_utf8_ascii)
  next
    case (wide w)
    have "utf8_width (take (Suc w) (c # cs)) = length (take (Suc w) (c # cs))"
      using utf8_width_append[of "c # cs" "[]"] utf8_width_le[of "c # cs"] wide(1) by simp
    then have "valid_utf8 (take (Suc w) (c # cs) @ z)" if "valid_utf8 z" for z
      using that by (intro valid_utf8_wide) auto
    with E[of "take (Suc w) (c # cs)" "drop w cs" "length cs"] wide(2) show ?thesis by simp
  qed simp
qed

lemma decode_body_utf8: "decode_body s = Some (x, r) \<Longrightarrow> valid_utf8 x"
proof (induction s arbitrary: x rule: length_induct)
  case (1 s)
  show ?case
  proof (cases s)
    case (Cons c cs)
    from decode_body_prefix[of c cs x r] 1(2) Cons
    consider "x = []" | t a p where "length t \<le> length cs" "decode_body t = Some (a, r)" "x = p @ a"
      "valid_utf8 a \<longrightarrow> valid_utf8 (p @ a)" by blast
    then show ?thesis
    proof cases
      case 2
      then have "length t < length s" using Cons by simp
      with 1(1) 2 show ?thesis by blast
    qed simp
  qed (use 1(2) in simp)
qed

text \<open>A lexer looks at no more than the first byte of the rest it leaves.\<close>

definition compat :: "string \<Rightarrow> string \<Rightarrow> bool" where
  "compat r r' \<longleftrightarrow> r' = [] \<or> (r \<noteq> [] \<and> hd r' = hd r)"

lemma lex_digits_iff:
  "lex_digits s = Some (d, r) \<longleftrightarrow> s = d @ r \<and> d \<noteq> [] \<and> (\<forall>x \<in> set d. is_digit x) \<and> (r = [] \<or> \<not> is_digit (hd r))"
proof
  assume "lex_digits s = Some (d, r)"
  then have d: "d = takeWhile is_digit s" "r = dropWhile is_digit s" "d \<noteq> []" by (auto simp: lex_digits_def split: if_splits)
  then show "s = d @ r \<and> d \<noteq> [] \<and> (\<forall>x \<in> set d. is_digit x) \<and> (r = [] \<or> \<not> is_digit (hd r))"
    using hd_dropWhile set_takeWhileD by (metis takeWhile_dropWhile_id)
next
  assume a: "s = d @ r \<and> d \<noteq> [] \<and> (\<forall>x \<in> set d. is_digit x) \<and> (r = [] \<or> \<not> is_digit (hd r))"
  then have "takeWhile is_digit r = [] \<and> dropWhile is_digit r = r" by (cases r) auto
  with a show "lex_digits s = Some (d, r)" by (simp add: lex_digits_def takeWhile_append2 dropWhile_append2)
qed

lemma lex_digits_swap: "lex_digits s = Some (d, r) \<Longrightarrow> compat r r' \<Longrightarrow> lex_digits (d @ r') = Some (d, r')"
  by (auto simp: lex_digits_iff compat_def)

lemma lex_int_swap: "lex_int s = Some (d, r) \<Longrightarrow> compat r r' \<Longrightarrow> s = d @ r \<and> lex_int (d @ r') = Some (d, r')"
proof (cases "take 1 s = ''0''")
  case True
  moreover assume "lex_int s = Some (d, r)"
  ultimately show ?thesis by (cases s) (auto simp: lex_int_def)
next
  case False
  assume a: "lex_int s = Some (d, r)" and c: "compat r r'"
  from a False have l: "lex_digits s = Some (d, r)" by (cases s) (auto simp: lex_int_def)
  then obtain y ys where y: "d = y # ys" by (cases d) (auto simp: lex_digits_iff)
  have s: "s = d @ r" using l by (simp add: lex_digits_iff)
  with y False have "y \<noteq> CHR ''0''" by simp
  with lex_digits_swap[OF l c] y s show ?thesis by (simp add: lex_int_def)
qed

lemma lex_frac_swap:
  assumes "lex_frac s = Some (d, r)" "compat r r'"
  shows "s = d @ r \<and> lex_frac (d @ r') = Some (d, r')"
proof (cases "take 1 s = ''.''")
  case True
  then obtain cs e where e: "s = CHR ''.'' # cs" "lex_digits cs = Some (e, r)" "d = CHR ''.'' # e"
    using assms(1) by (cases s) (auto simp: lex_frac_def)
  have "cs = e @ r" using e(2) by (simp add: lex_digits_iff)
  then show ?thesis using e lex_digits_swap[OF e(2) assms(2)] by (simp add: lex_frac_def)
next
  case False
  then have "d = []" "r = s" using assms(1) by (cases s; auto simp: lex_frac_def)+
  then show ?thesis using False assms(2) by (cases s; cases r') (auto simp: lex_frac_def compat_def)
qed

lemma lex_exp_swap:
  assumes "lex_exp s = Some (d, r)" "compat r r'"
  shows "s = d @ r \<and> lex_exp (d @ r') = Some (d, r')"
proof (cases "take 1 s \<in> {''e'', ''E''}")
  case True
  then obtain c cs where s: "s = c # cs" "c = CHR ''e'' \<or> c = CHR ''E''" by (cases s) auto
  show ?thesis
  proof (cases "take 1 cs \<in> {''+'', ''-''}")
    case True
    then obtain g ds e where "cs = g # ds" "g = CHR ''+'' \<or> g = CHR ''-''" "lex_digits ds = Some (e, r)" "d = c # g # e"
      using assms(1) s by (cases cs) (auto simp: lex_exp_def)
    then show ?thesis using s lex_digits_swap[of ds e r r'] assms(2) by (auto simp: lex_exp_def lex_digits_iff)
  next
    case False
    then obtain e where e: "lex_digits cs = Some (e, r)" "d = c # e"
      using assms(1) s by (cases cs) (auto simp: lex_exp_def)
    obtain y ys where y: "e = y # ys" using e(1) by (cases e) (auto simp: lex_digits_iff)
    have "cs = e @ r" using e(1) by (simp add: lex_digits_iff)
    with y False have "y \<noteq> CHR ''+''" "y \<noteq> CHR ''-''" by auto
    then show ?thesis using s e y lex_digits_swap[OF e(1) assms(2)] \<open>cs = e @ r\<close> by (auto simp: lex_exp_def)
  qed
next
  case False
  then have "d = []" "r = s" using assms(1) by (cases s; auto simp: lex_exp_def)+
  then show ?thesis using False assms(2) by (cases s; cases r') (auto simp: lex_exp_def compat_def)
qed

lemma lex_number_valid:
  assumes "lex_number s = Some (l, r)"
  shows "valid_number l"
proof -
  define s1 where "s1 = (if take 1 s = ''-'' then drop 1 s else s)"
  from assms obtain i s2 f s3 e where l: "lex_int s1 = Some (i, s2)" "lex_frac s2 = Some (f, s3)" "lex_exp s3 = Some (e, r)"
    "l = (if take 1 s = ''-'' then ''-'' else []) @ i @ f @ e"
    by (auto simp: lex_number_def s1_def split: option.splits prod.splits if_splits)
  have e: "s3 = e @ r" "lex_exp e = Some (e, [])" using lex_exp_swap[OF l(3), of "[]"] by (simp_all add: compat_def)
  have f: "s2 = f @ s3" "lex_frac (f @ e) = Some (f, e)"
    using lex_frac_swap[OF l(2), of e] e(1) by (cases e; simp add: compat_def)+
  have "compat s2 (f @ e)" using f(1) e(1) by (cases f; cases e) (simp_all add: compat_def)
  then have i: "s1 = i @ s2" "lex_int (i @ f @ e) = Some (i, f @ e)" using lex_int_swap[OF l(1)] by simp_all
  note p = lex_number_parts[OF i(2) f(2) e(2)]
  show ?thesis
  proof (cases "take 1 s = ''-''")
    case True
    then show ?thesis using p(1) l(4) by (simp add: valid_number_def)
  next
    case False
    have "i \<noteq> []" using l(1) by (auto simp: lex_int_def lex_digits_iff split: list.splits if_splits)
    then have "take 1 (i @ f @ e) \<noteq> ''-''" using False i(1) s1_def by (cases i) auto
    then show ?thesis using p(2) l(4) False by (simp add: valid_number_def)
  qed
qed

lemma parse_leaf_ok:
  assumes "parse_value (Suc k) d s = Some (v, r)" "\<forall>k'. parse_value (Suc k') d s = Some (v, r)"
  shows "json_ok d v"
proof -
  obtain c t where t: "skip_space s = c # t" using assms(1) by (cases "skip_space s") auto
  have 0: "parse_value (Suc 0) d s = Some (v, r)" using assms(2) by blast
  then show ?thesis using t
    by (auto split: if_splits dest: decode_body_utf8 lex_number_valid)
qed

lemma parse_ok:
  "(\<forall>d s v r. parse_value k d s = Some (v, r) \<longrightarrow> json_ok d v) \<and>
   (\<forall>d s vs r. parse_elems k d s = Some (vs, r) \<longrightarrow> elems_ok d vs) \<and>
   (\<forall>d s ms r. parse_members k d s = Some (ms, r) \<longrightarrow> members_ok d ms)"
proof (induction k)
  case (Suc k)
  note IH = Suc[THEN conjunct1, rule_format] Suc[THEN conjunct2, THEN conjunct1, rule_format]
    Suc[THEN conjunct2, THEN conjunct2, rule_format]
  show ?case
  proof (intro conjI allI impI)
    show "json_ok d v" if "parse_value (Suc k) d s = Some (v, r)" for d s v r
      using that
    proof (cases rule: parse_value_SucE)
      case leaf
      then show ?thesis using parse_leaf_ok[OF that] by blast
    qed (auto dest: IH)
    show "elems_ok d vs" if "parse_elems (Suc k) d s = Some (vs, r)" for d s vs r
      using that by (cases rule: parse_elems_SucE) (auto dest: IH)
    show "members_ok d ms" if "parse_members (Suc k) d s = Some (ms, r)" for d s ms r
      using that by (cases rule: parse_members_SucE) (auto dest: IH decode_body_utf8)
  qed
qed simp

lemma decode_first_ok: "decode_first s = Some v \<Longrightarrow> json_ok 0 v"
  using parse_ok[of "2 * length s + 2", THEN conjunct1, rule_format, of 0 s v]
  unfolding decode_first_def parse_def by (cases "parse_value (2 * length s + 2) 0 s") auto

lemma elems_ok_iff: "elems_ok d vs \<longleftrightarrow> (\<forall>v \<in> set vs. json_ok d v)"
  by (induction vs) auto

lemma members_ok_iff: "members_ok d ms \<longleftrightarrow> (\<forall>m \<in> set ms. valid_utf8 (fst m) \<and> json_ok d (snd m))"
  by (induction ms) auto

lemma canon_elems_map: "canon_elems vs = map canon vs"
  by (induction vs) auto

lemma canon_members_map: "canon_members ms = map (\<lambda>m. (fst m, canon (snd m))) ms"
  by (induction ms) auto

lemma last_members_subset: "set (last_members ms) \<subseteq> set ms"
proof
  fix m
  assume "m \<in> set (last_members ms)"
  then obtain k where k: "k \<in> fst ` set ms" "m = (k, the (map_of (rev ms) k))" by (auto simp: last_members_def)
  then have "k \<in> dom (map_of (rev ms))" by (simp add: dom_map_of_conv_image_fst)
  then obtain v where v: "map_of (rev ms) k = Some v" by blast
  then show "m \<in> set ms" using k map_of_SomeD[OF v] by simp
qed

lemma last_members_sorted: "sorted_wrt (<) (map fst (last_members ms))"
  using strict_sorted_list_of_set[of "set (map fst ms)"] by (simp add: last_members_def comp_def)

lemma canon_ok: "json_ok d v \<Longrightarrow> json_ok d (canon v)"
proof (induction v arbitrary: d)
  case (JArr vs)
  then show ?case by (auto simp: elems_ok_iff canon_elems_map)
next
  case (JObj ms)
  have "json_ok (Suc d) (snd m) \<and> valid_utf8 (fst m)" if "m \<in> set (canon_members ms)" for m
  proof -
    from that obtain n where n: "n \<in> set ms" "m = (fst n, canon (snd n))" by (auto simp: canon_members_map)
    with JObj show ?thesis by (cases n) (fastforce simp: members_ok_iff)
  qed
  with JObj.prems last_members_subset[of "canon_members ms"] show ?case by (auto simp: members_ok_iff)
qed auto

end
