(* ===== verification/Base64.thy ===== *)
theory Base64
  imports Prelude
begin

text \<open>
  \<open>base64.RawURLEncoding\<close> of the Go standard library: the URL-safe alphabet without
  padding. Decoding is the lenient one the library uses by default: carriage returns and
  newlines are skipped and the unused low bits of the last symbol are not checked.
\<close>

definition b64_char :: "nat \<Rightarrow> char" where
  "b64_char n =
     (if n < 26 then char_of (65 + n)
      else if n < 52 then char_of (71 + n)
      else if n < 62 then char_of (n - 4)
      else if n = 62 then CHR ''-'' else CHR ''_'')"

definition b64_val :: "char \<Rightarrow> nat option" where
  "b64_val c =
     (let n = of_char c :: nat in
      if 65 \<le> n \<and> n \<le> 90 then Some (n - 65)
      else if 97 \<le> n \<and> n \<le> 122 then Some (n - 71)
      else if 48 \<le> n \<and> n \<le> 57 then Some (n + 4)
      else if n = 45 then Some 62
      else if n = 95 then Some 63
      else None)"

fun b64_encode :: "string \<Rightarrow> string" where
  "b64_encode [] = []"
| "b64_encode [a] =
     (let n = of_char a :: nat in [b64_char (n div 4), b64_char (n mod 4 * 16)])"
| "b64_encode [a, b] =
     (let n = of_char a * 256 + of_char b :: nat
      in [b64_char (n div 1024), b64_char (n div 16 mod 64), b64_char (n mod 16 * 4)])"
| "b64_encode (a # b # c # s) =
     (let n = (of_char a * 256 + of_char b) * 256 + of_char c :: nat
      in b64_char (n div 262144) # b64_char (n div 4096 mod 64) # b64_char (n div 64 mod 64)
         # b64_char (n mod 64) # b64_encode s)"

fun b64_groups :: "nat list \<Rightarrow> string option" where
  "b64_groups [] = Some []"
| "b64_groups [w] = None"
| "b64_groups [w, x] = Some [char_of (w * 4 + x div 16)]"
| "b64_groups [w, x, y] =
     (let n = (w * 64 + x) * 64 + y in Some [char_of (n div 1024), char_of (n div 4 mod 256)])"
| "b64_groups (w # x # y # z # ns) =
     (let n = ((w * 64 + x) * 64 + y) * 64 + z
      in map_option (\<lambda>r. char_of (n div 65536) # char_of (n div 256 mod 256)
           # char_of (n mod 256) # r) (b64_groups ns))"

definition b64_decode :: "string \<Rightarrow> string option" where
  "b64_decode s =
     (let vs = map b64_val (filter (\<lambda>c. c \<noteq> CHR 0x0A \<and> c \<noteq> CHR 0x0D) s)
      in if None \<in> set vs then None else b64_groups (map the vs))"

section \<open>Round trip\<close>

fun b64_sextets :: "string \<Rightarrow> nat list" where
  "b64_sextets [] = []"
| "b64_sextets [a] = (let n = of_char a :: nat in [n div 4, n mod 4 * 16])"
| "b64_sextets [a, b] =
     (let n = of_char a * 256 + of_char b :: nat
      in [n div 1024, n div 16 mod 64, n mod 16 * 4])"
| "b64_sextets (a # b # c # s) =
     (let n = (of_char a * 256 + of_char b) * 256 + of_char c :: nat
      in n div 262144 # n div 4096 mod 64 # n div 64 mod 64 # n mod 64 # b64_sextets s)"

lemma b64_encode_sextets: "b64_encode s = map b64_char (b64_sextets s)"
  by (induction s rule: b64_encode.induct) (auto simp: Let_def)

lemma byte_bound: "of_char c \<le> (255 :: nat)"
proof -
  have "of_char c < (256 :: nat)" by (rule nat_of_char_less_256)
  then show ?thesis by linarith
qed

lemma b64_sextets_bound: "n \<in> set (b64_sextets s) \<Longrightarrow> n < 64"
proof (induction s rule: b64_sextets.induct)
  case (2 a)
  then show ?case using byte_bound[of a] by (auto simp: Let_def)
next
  case (3 a b)
  then show ?case using byte_bound[of a] byte_bound[of b] by (auto simp: Let_def)
next
  case (4 a b c s)
  then show ?case using byte_bound[of a] byte_bound[of b] byte_bound[of c]
    by (auto simp: Let_def)
qed simp

lemma b64_val_char: "n < 64 \<Longrightarrow> b64_val (b64_char n) = Some n"
  by (auto simp: b64_char_def b64_val_def Let_def)

lemma b64_char_plain:
  assumes "n < 64"
  shows "b64_char n \<noteq> CHR 0x0A" "b64_char n \<noteq> CHR 0x0D" "b64_char n \<noteq> CHR ''.''"
proof -
  have "b64_val (CHR 0x0A) = None" "b64_val (CHR 0x0D) = None" "b64_val (CHR ''.'') = None"
    by (simp_all add: b64_val_def)
  with b64_val_char[OF assms] show "b64_char n \<noteq> CHR 0x0A" "b64_char n \<noteq> CHR 0x0D"
    "b64_char n \<noteq> CHR ''.''" by auto
qed

lemma digits3:
  fixes x y z :: nat
  assumes "y \<le> 255" "z \<le> 255"
  shows "((x * 256 + y) * 256 + z) div 65536 = x"
    and "x \<le> 255 \<Longrightarrow> ((x * 256 + y) * 256 + z) div 256 mod 256 = y"
    and "((x * 256 + y) * 256 + z) mod 256 = z"
proof -
  have q: "((x * 256 + y) * 256 + z) div 256 = x * 256 + y" using assms by simp
  then have "((x * 256 + y) * 256 + z) div (256 * 256) = (x * 256 + y) div 256"
    by (simp only: div_mult2_eq)
  then show "((x * 256 + y) * 256 + z) div 65536 = x" using assms by simp
  note q
  moreover have "(x * 256 + y) mod 256 = y" using assms by simp
  ultimately show "x \<le> 255 \<Longrightarrow> ((x * 256 + y) * 256 + z) div 256 mod 256 = y" by simp
  show "((x * 256 + y) * 256 + z) mod 256 = z"
    using assms by (simp only: mod_mult_self3) simp
qed

lemma char_of_nat_digits:
  fixes a b c :: char
  shows "char_of (((of_char a * 256 + of_char b) * 256 + of_char c :: nat) div 65536) = a"
    and "char_of (((of_char a * 256 + of_char b) * 256 + of_char c :: nat) div 256 mod 256) = b"
    and "char_of (((of_char a * 256 + of_char b) * 256 + of_char c :: nat) mod 256) = c"
proof -
  let ?n = "(of_char a * 256 + of_char b) * 256 + of_char c :: nat"
  have "?n div 65536 = of_char a" "?n div 256 mod 256 = of_char b" "?n mod 256 = of_char c"
    by (intro digits3 byte_bound)+
  then show "char_of (?n div 65536) = a" "char_of (?n div 256 mod 256) = b"
    "char_of (?n mod 256) = c" by simp_all
qed

lemma sextets_rebuild:
  fixes n :: nat
  shows "((n div 262144 * 64 + n div 4096 mod 64) * 64 + n div 64 mod 64) * 64 + n mod 64 = n"
proof -
  have "n div 64 = n div 4096 * 64 + n div 64 mod 64"
    using div_mult_mod_eq[of "n div 64" 64] by (simp add: div_mult2_eq[symmetric])
  moreover have "n div 4096 = n div 262144 * 64 + n div 4096 mod 64"
    using div_mult_mod_eq[of "n div 4096" 64] by (simp add: div_mult2_eq[symmetric])
  ultimately show ?thesis using div_mult_mod_eq[of n 64] by simp
qed

lemma sextets_rebuild2:
  fixes n :: nat
  shows "(n div 1024 * 64 + n div 16 mod 64) * 64 + n mod 16 * 4 = n * 4"
proof -
  have "n div 16 = n div 1024 * 64 + n div 16 mod 64"
    using div_mult_mod_eq[of "n div 16" 64] by (simp add: div_mult2_eq[symmetric])
  then have "(n div 1024 * 64 + n div 16 mod 64) * 64 + n mod 16 * 4
      = n div 16 * 64 + n mod 16 * 4" by simp
  also have "\<dots> = (n div 16 * 16 + n mod 16) * 4" by (simp only: algebra_simps)
  also have "\<dots> = n * 4" by (simp only: div_mult_mod_eq)
  finally show ?thesis .
qed

lemma b64_groups_sextets: "b64_groups (b64_sextets s) = Some s"
proof (induction s rule: b64_sextets.induct)
  case (2 a)
  have "(of_char a :: nat) div 4 * 4 + of_char a mod 4 = of_char a" by simp
  then show ?case by (simp add: Let_def)
next
  case (3 a b)
  define n where "n = (of_char a * 256 + of_char b :: nat)"
  have "n * 4 div 1024 = of_char a" "n * 4 div 4 mod 256 = of_char b"
    using byte_bound[of a] byte_bound[of b] unfolding n_def by simp_all
  then show ?case by (simp only: b64_sextets.simps b64_groups.simps Let_def n_def[symmetric]
      sextets_rebuild2 char_of_char)
next
  case (4 a b c s)
  then show ?case
    by (simp only: b64_sextets.simps b64_groups.simps Let_def sextets_rebuild
        char_of_nat_digits option.map)
qed simp

theorem b64_decode_encode: "b64_decode (b64_encode s) = Some s"
proof -
  let ?vs = "b64_sextets s"
  have keep: "filter (\<lambda>c. c \<noteq> CHR 0x0A \<and> c \<noteq> CHR 0x0D) (map b64_char ?vs) = map b64_char ?vs"
    using b64_sextets_bound b64_char_plain by (fastforce simp: filter_id_conv)
  have vals: "map b64_val (map b64_char ?vs) = map Some ?vs"
    by (auto dest!: b64_sextets_bound simp: b64_val_char)
  show ?thesis
    unfolding b64_decode_def b64_encode_sextets Let_def keep vals
    by (auto simp: b64_groups_sextets comp_def)
qed

lemma b64_encode_no_dot: "CHR ''.'' \<notin> set (b64_encode s)"
  unfolding b64_encode_sextets using b64_sextets_bound b64_char_plain(3) by fastforce

end
