(* ===== verification/MetricsToken.thy ===== *)
theory MetricsToken
  imports Kube MetricsPolicy Json Base64 Sha256 Http
begin

text \<open>
  Credentials of the metrics gateway, \<open>internal/metricsgateway/auth.go\<close> and
  \<open>kubernetes.go\<close>: signed tokens with an HMAC over a base64 JSON payload, the resolver that
  turns a validated token into a scope, and the Kubernetes resolver that ties the scope to
  the current state of the Oubliette. Clock readings are arguments, one per reading in the
  code.
\<close>

section \<open>Claims and codec\<close>

record Claims =
  tk_Subject :: string
  tk_Oubliette :: string
  tk_TrustDomain :: string
  tk_Audience :: string
  tk_IssuedUnix :: int64
  tk_ExpiresUnix :: int64

record TokenCodec =
  k_Key :: string
  k_Audience :: string
  k_MaxTTL :: duration

datatype cred_err =
    ErrInvalidCredential
  | ErrExpiredCredential
  | ErrResolveClaims cred_err
  | ErrJoin cred_err cred_err

datatype issue_err = KeyTooShort | InvalidClaims

definition zeroClaims :: Claims where
  "zeroClaims = \<lparr>tk_Subject = '''', tk_Oubliette = '''', tk_TrustDomain = '''', tk_Audience = '''',
     tk_IssuedUnix = 0, tk_ExpiresUnix = 0\<rparr>"

definition maxTTL :: "TokenCodec \<Rightarrow> duration" where
  "maxTTL c = (if sint (k_MaxTTL c) > 0 then k_MaxTTL c else 15 * Minute)"

definition sign :: "TokenCodec \<Rightarrow> string \<Rightarrow> string" where
  "sign c payload = hmac_sha256 (k_Key c) payload"

text \<open>The lifetime check multiplies in 64 bits.\<close>

definition lifetimeOK :: "TokenCodec \<Rightarrow> Claims \<Rightarrow> bool" where
  "lifetimeOK c claims \<longleftrightarrow> sint (tk_IssuedUnix claims) < sint (tk_ExpiresUnix claims) \<and>
     sint ((tk_ExpiresUnix claims - tk_IssuedUnix claims) * Second) \<le> sint (maxTTL c)"

section \<open>The payload\<close>

text \<open>The JSON tags of \<open>Claims\<close>, in the order of its fields.\<close>

definition claims_json :: "Claims \<Rightarrow> json" where
  "claims_json c = JObj [(''sub'', JStr (tk_Subject c)), (''oubliette'', JStr (tk_Oubliette c)),
     (''trustDomain'', JStr (tk_TrustDomain c)), (''aud'', JStr (tk_Audience c)),
     (''iat'', JNum (int_digits (sint (tk_IssuedUnix c)))),
     (''exp'', JNum (int_digits (sint (tk_ExpiresUnix c))))]"

definition setClaim :: "string \<times> json \<Rightarrow> Claims \<Rightarrow> Claims option" where
  "setClaim m c = (let k = fst m; v = snd m in
     if field_is ''sub'' k then map_option (\<lambda>x. c\<lparr>tk_Subject := x\<rparr>) (set_string v (tk_Subject c))
     else if field_is ''oubliette'' k then map_option (\<lambda>x. c\<lparr>tk_Oubliette := x\<rparr>) (set_string v (tk_Oubliette c))
     else if field_is ''trustDomain'' k then map_option (\<lambda>x. c\<lparr>tk_TrustDomain := x\<rparr>) (set_string v (tk_TrustDomain c))
     else if field_is ''aud'' k then map_option (\<lambda>x. c\<lparr>tk_Audience := x\<rparr>) (set_string v (tk_Audience c))
     else if field_is ''iat'' k then map_option (\<lambda>x. c\<lparr>tk_IssuedUnix := x\<rparr>) (set_int64 v (tk_IssuedUnix c))
     else if field_is ''exp'' k then map_option (\<lambda>x. c\<lparr>tk_ExpiresUnix := x\<rparr>) (set_int64 v (tk_ExpiresUnix c))
     else Some c)"

fun setClaims :: "(string \<times> json) list \<Rightarrow> Claims \<Rightarrow> Claims option" where
  "setClaims [] c = Some c"
| "setClaims (m # ms) c = (case setClaim m c of None \<Rightarrow> None | Some c' \<Rightarrow> setClaims ms c')"

fun claims_of :: "json \<Rightarrow> Claims option" where
  "claims_of (JObj ms) = setClaims ms zeroClaims"
| "claims_of JNull = Some zeroClaims"
| "claims_of _ = None"

definition unmarshalClaims :: "string \<Rightarrow> Claims option" where
  "unmarshalClaims payload = (case unmarshal payload of None \<Rightarrow> None | Some v \<Rightarrow> claims_of v)"

section \<open>Issuing and validating\<close>

definition Issue :: "TokenCodec \<Rightarrow> time \<Rightarrow> Claims \<Rightarrow> issue_err + string" where
  "Issue c now claims0 =
     (if length (k_Key c) < 32 then Inl KeyTooShort
      else let claims = (if tk_IssuedUnix claims0 = 0 then claims0\<lparr>tk_IssuedUnix := Time_Unix now\<rparr> else claims0) in
      if tk_Subject claims = '''' \<or> tk_Oubliette claims = '''' \<or> tk_TrustDomain claims = ''''
         \<or> tk_Audience claims \<noteq> k_Audience c \<or> \<not> lifetimeOK c claims
      then Inl InvalidClaims
      else let encoded = b64_encode (encode (claims_json claims))
           in Inr (encoded @ ''.'' @ b64_encode (sign c encoded)))"

definition Validate :: "TokenCodec \<Rightarrow> time \<Rightarrow> time \<Rightarrow> string \<Rightarrow> cred_err + Claims" where
  "Validate c now1 now2 token =
     (if length (k_Key c) < 32 then Inl ErrInvalidCredential
      else (case Split token (CHR ''.'') of
        [part0, part1] \<Rightarrow>
          if b64_decode part1 \<noteq> Some (sign c part0) then Inl ErrInvalidCredential
          else (case Option.bind (b64_decode part0) unmarshalClaims of
            None \<Rightarrow> Inl ErrInvalidCredential
          | Some claims \<Rightarrow>
              let now = Time_Unix now1 in
              if tk_Subject claims = '''' \<or> tk_Oubliette claims = '''' \<or> tk_TrustDomain claims = ''''
                 \<or> tk_Audience claims \<noteq> k_Audience c \<or> sint (tk_IssuedUnix claims) > sint (now + 30)
                 \<or> \<not> lifetimeOK c claims
              then Inl ErrInvalidCredential
              else if sint (tk_ExpiresUnix claims) \<le> sint (Time_Unix now2) then Inl ErrExpiredCredential
              else Inr claims)
      | _ \<Rightarrow> Inl ErrInvalidCredential))"

section \<open>Resolving a token to a scope\<close>

definition TokenResolver_Resolve ::
  "TokenCodec \<Rightarrow> (Claims \<Rightarrow> 's \<Rightarrow> (cred_err + Scope) \<times> 's) option \<Rightarrow> time \<Rightarrow> time \<Rightarrow> string \<Rightarrow> 's
   \<Rightarrow> (cred_err + Scope) \<times> 's" where
  "TokenResolver_Resolve codec resolveClaims now1 now2 authorization s =
     (if \<not> HasPrefix authorization bearer then (Inl ErrInvalidCredential, s)
      else (case Validate codec now1 now2 (TrimPrefix authorization bearer) of
        Inl e \<Rightarrow> (Inl e, s)
      | Inr claims \<Rightarrow>
          (case resolveClaims of
             None \<Rightarrow> (Inl (ErrResolveClaims ErrInvalidCredential), s)
           | Some resolve \<Rightarrow>
               (case resolve claims s of
                  (Inl e, s1) \<Rightarrow> (Inl e, s1)
                | (Inr scope, s1) \<Rightarrow>
                    if sc_Oubliette scope \<noteq> tk_Oubliette claims \<or> sc_TrustDomain scope \<noteq> tk_TrustDomain claims
                    then (Inl ErrInvalidCredential, s1)
                    else (Inr (scope\<lparr>sc_Subject := tk_Subject claims\<rparr>), s1)))))"

record 's KubernetesResolver =
  kr_Client :: "'s oub_client option"
  kr_Codec :: TokenCodec
  kr_Upstream :: string
  kr_UpstreamAuthorization :: string
  kr_ProfileGeneration :: string
  kr_Policy :: Policy

definition resolveClaims ::
  "apimeta \<Rightarrow> 's KubernetesResolver \<Rightarrow> time \<Rightarrow> Claims \<Rightarrow> 's \<Rightarrow> (cred_err + Scope) \<times> 's" where
  "resolveClaims am r now claims s =
     (case kr_Client r of
        None \<Rightarrow> (Inl ErrInvalidCredential, s)
      | Some C \<Rightarrow>
          if kr_ProfileGeneration r = '''' then (Inl ErrInvalidCredential, s)
          else (case cl_Get C (tk_Oubliette claims) s of
            (Inl e, s1) \<Rightarrow> (Inl ErrInvalidCredential, s1)
          | (Inr obj, s1) \<Rightarrow>
              let cs = st_Conditions (o_Status obj) in
              if \<not> optIsZero (o_DeletionTimestamp obj) \<or> \<not> now < spec_ExpiresAt (o_Spec obj)
                 \<or> IsStatusConditionTrue am cs ConditionForgotten
                 \<or> \<not> IsStatusConditionTrue am cs ConditionMetricsReady
              then (Inl ErrInvalidCredential, s1)
              else if st_MetricsEndpoint (o_Status obj) = ''''
                 \<or> st_MetricsProfileGeneration (o_Status obj) \<noteq> kr_ProfileGeneration r
                 \<or> st_MetricsTrustDomain (o_Status obj) \<noteq> tk_TrustDomain claims
              then (Inl ErrInvalidCredential, s1)
              else (Inr \<lparr>sc_Subject = '''', sc_Oubliette = o_Name obj,
                     sc_TrustDomain = st_MetricsTrustDomain (o_Status obj), sc_Upstream = kr_Upstream r,
                     sc_UpstreamAuthorization = kr_UpstreamAuthorization r, sc_Policy = kr_Policy r\<rparr>, s1)))"

definition KubernetesResolver_Resolve ::
  "apimeta \<Rightarrow> 's KubernetesResolver \<Rightarrow> time \<Rightarrow> time \<Rightarrow> time \<Rightarrow> string \<Rightarrow> 's \<Rightarrow> (cred_err + Scope) \<times> 's" where
  "KubernetesResolver_Resolve am r now1 now2 now3 authorization s =
     (case TokenResolver_Resolve (kr_Codec r) (Some (resolveClaims am r now3)) now1 now2 authorization s of
        (Inl e, s1) \<Rightarrow> (Inl (ErrJoin ErrInvalidCredential e), s1)
      | (Inr scope, s1) \<Rightarrow> (Inr scope, s1))"

section \<open>Facts about tokens\<close>

definition claims_utf8 :: "Claims \<Rightarrow> bool" where
  "claims_utf8 c \<longleftrightarrow> valid_utf8 (tk_Subject c) \<and> valid_utf8 (tk_Oubliette c) \<and>
     valid_utf8 (tk_TrustDomain c) \<and> valid_utf8 (tk_Audience c)"

lemma fields_distinct:
  "field_is ''sub'' ''sub''" "\<not> field_is ''sub'' ''oubliette''" "field_is ''oubliette'' ''oubliette''"
  "\<not> field_is ''sub'' ''trustDomain''" "\<not> field_is ''oubliette'' ''trustDomain''" "field_is ''trustDomain'' ''trustDomain''"
  "\<not> field_is ''sub'' ''aud''" "\<not> field_is ''oubliette'' ''aud''" "\<not> field_is ''trustDomain'' ''aud''"
  "field_is ''aud'' ''aud''" "\<not> field_is ''sub'' ''iat''" "\<not> field_is ''oubliette'' ''iat''"
  "\<not> field_is ''trustDomain'' ''iat''" "\<not> field_is ''aud'' ''iat''" "field_is ''iat'' ''iat''"
  "\<not> field_is ''sub'' ''exp''" "\<not> field_is ''oubliette'' ''exp''" "\<not> field_is ''trustDomain'' ''exp''"
  "\<not> field_is ''aud'' ''exp''" "\<not> field_is ''iat'' ''exp''" "field_is ''exp'' ''exp''"
  by code_simp+

lemma claims_of_json: "claims_of (claims_json c) = Some c"
  by (simp add: claims_json_def setClaim_def fields_distinct ParseInt_int_digits zeroClaims_def)

lemma claims_json_ok: "claims_utf8 c \<Longrightarrow> json_ok 0 (claims_json c)"
proof -
  have "valid_utf8 ''sub''" "valid_utf8 ''oubliette''" "valid_utf8 ''trustDomain''" "valid_utf8 ''aud''"
    "valid_utf8 ''iat''" "valid_utf8 ''exp''" by code_simp+
  then show "claims_utf8 c \<Longrightarrow> json_ok 0 (claims_json c)"
    by (simp add: claims_json_def claims_utf8_def maxNestingDepth_def del: valid_utf8.simps)
qed

lemma unmarshalClaims_encode: "claims_utf8 c \<Longrightarrow> unmarshalClaims (encode (claims_json c)) = Some c"
  by (simp add: unmarshalClaims_def decode_encode claims_json_ok claims_of_json)

text \<open>What a validated token carries, read over the integers.\<close>

lemma Validate_Inr:
  assumes "Validate c now1 now2 token = Inr claims"
  obtains part0 part1 payload where "32 \<le> length (k_Key c)" "token = part0 @ ''.'' @ part1"
    "b64_decode part1 = Some (sign c part0)" "b64_decode part0 = Some payload"
    "unmarshalClaims payload = Some claims" "tk_Subject claims \<noteq> ''''" "tk_Oubliette claims \<noteq> ''''"
    "tk_TrustDomain claims \<noteq> ''''" "tk_Audience claims = k_Audience c"
    "sint (tk_IssuedUnix claims) \<le> sint (Time_Unix now1 + 30)" "lifetimeOK c claims"
    "sint (Time_Unix now2) < sint (tk_ExpiresUnix claims)"
proof -
  from assms have key: "\<not> length (k_Key c) < 32" by (auto simp: Validate_def)
  with assms obtain p0 p1 where parts: "Split token (CHR ''.'') = [p0, p1]"
    by (auto simp: Validate_def split: list.splits)
  have "token = p0 @ ''.'' @ p1" using Join_Split[of token "CHR ''.''"] parts by simp
  moreover from assms key parts obtain payload where "b64_decode p1 = Some (sign c p0)"
    "b64_decode p0 = Some payload" "unmarshalClaims payload = Some claims"
    "tk_Subject claims \<noteq> '''' \<and> tk_Oubliette claims \<noteq> '''' \<and> tk_TrustDomain claims \<noteq> '''' \<and>
     tk_Audience claims = k_Audience c \<and> sint (tk_IssuedUnix claims) \<le> sint (Time_Unix now1 + 30) \<and>
     lifetimeOK c claims \<and> sint (Time_Unix now2) < sint (tk_ExpiresUnix claims)"
    unfolding Validate_def
    by (auto simp: Let_def split: if_splits option.splits bind_splits)
  ultimately show thesis using key by (intro that[of p0 p1 payload]) simp_all
qed

definition issued :: "time \<Rightarrow> Claims \<Rightarrow> Claims" where
  "issued now claims = (if tk_IssuedUnix claims = 0 then claims\<lparr>tk_IssuedUnix := Time_Unix now\<rparr> else claims)"

lemma Issue_Inr_iff:
  "Issue c now claims = Inr token \<longleftrightarrow> 32 \<le> length (k_Key c) \<and> tk_Subject claims \<noteq> '''' \<and>
     tk_Oubliette claims \<noteq> '''' \<and> tk_TrustDomain claims \<noteq> '''' \<and> tk_Audience claims = k_Audience c \<and>
     lifetimeOK c (issued now claims) \<and>
     (let encoded = b64_encode (encode (claims_json (issued now claims)))
      in token = encoded @ ''.'' @ b64_encode (sign c encoded))"
  unfolding Issue_def issued_def Let_def by (auto simp: not_less)

lemma Issue_validates:
  assumes "Issue c now claims = Inr token" and "claims_utf8 claims"
    and "sint (tk_IssuedUnix (issued now claims)) \<le> sint (Time_Unix now1 + 30)"
    and "sint (Time_Unix now2) < sint (tk_ExpiresUnix claims)"
  shows "Validate c now1 now2 token = Inr (issued now claims)"
proof -
  let ?cl = "issued now claims" and ?e = "b64_encode (encode (claims_json (issued now claims)))"
  from assms(1) have i: "32 \<le> length (k_Key c)" "tk_Subject claims \<noteq> ''''" "tk_Oubliette claims \<noteq> ''''"
    "tk_TrustDomain claims \<noteq> ''''" "tk_Audience claims = k_Audience c" "lifetimeOK c ?cl"
    "token = ?e @ ''.'' @ b64_encode (sign c ?e)" by (auto simp: Issue_Inr_iff Let_def)
  have "Split token (CHR ''.'') = [?e, b64_encode (sign c ?e)]"
    using i(7) Split_append_sep[OF b64_encode_no_dot] Split_no_sep[OF b64_encode_no_dot] by simp
  moreover have "claims_utf8 ?cl" using assms(2) by (simp add: claims_utf8_def issued_def)
  ultimately show ?thesis using i assms(3,4)
    by (simp add: Validate_def b64_decode_encode unmarshalClaims_encode Let_def) (simp add: issued_def)
qed

section \<open>Properties\<close>

text \<open>C18: a token that the codec issues for claims in valid UTF-8 validates, under the same
  codec, to exactly those claims (with the issue time filled in), as long as the validating
  clock is neither more than 30 seconds behind the issue time nor at or past the expiry.\<close>

theorem issue_validate_roundtrip:
  assumes "Issue c now claims = Inr token" and "claims_utf8 claims"
    and "sint (tk_IssuedUnix (issued now claims)) \<le> sint (Time_Unix now1 + 30)"
    and "sint (Time_Unix now2) < sint (tk_ExpiresUnix claims)"
  shows "Validate c now1 now2 token = Inr (issued now claims)"
  by (rule Issue_validates[OF assms])

definition demo_codec :: TokenCodec where
  "demo_codec = \<lparr>k_Key = replicate 32 (CHR ''k''), k_Audience = ''metrics'', k_MaxTTL = 0\<rparr>"

definition demo_claims :: Claims where
  "demo_claims = \<lparr>tk_Subject = ''agent'', tk_Oubliette = ''demo'', tk_TrustDomain = ''td'', tk_Audience = ''metrics'',
     tk_IssuedUnix = 100, tk_ExpiresUnix = 400\<rparr>"

lemma demo_issue: "\<exists>token. Issue demo_codec 0 demo_claims = Inr token"
  by (simp add: Issue_Inr_iff demo_codec_def demo_claims_def lifetimeOK_def issued_def maxTTL_def go_defs Let_def)

lemma demo_utf8: "claims_utf8 demo_claims"
  by (simp add: claims_utf8_def demo_claims_def valid_utf8_ascii)

definition demo_token :: string where
  "demo_token = (let e = b64_encode (encode (claims_json demo_claims)) in e @ ''.'' @ b64_encode (sign demo_codec e))"

lemma demo_validate: "Validate demo_codec 200000000000 200000000000 demo_token = Inr demo_claims"
proof -
  let ?e = "b64_encode (encode (claims_json demo_claims))"
  have parts: "Split demo_token (CHR ''.'') = [?e, b64_encode (sign demo_codec ?e)]"
    using Split_append_sep[OF b64_encode_no_dot] Split_no_sep[OF b64_encode_no_dot]
    by (simp add: demo_token_def Let_def)
  show ?thesis unfolding Validate_def parts
    by (simp add: b64_decode_encode unmarshalClaims_encode[OF demo_utf8] Let_def)
      (simp add: demo_claims_def demo_codec_def Time_Unix_def lifetimeOK_def maxTTL_def go_defs)
qed

theorem issue_validate_roundtrip_witness:
  "\<exists>token. Issue demo_codec 0 demo_claims = Inr token \<and>
     Validate demo_codec 200000000000 200000000000 token = Inr demo_claims"
proof -
  obtain token where t: "Issue demo_codec 0 demo_claims = Inr token" using demo_issue by blast
  have i: "issued 0 demo_claims = demo_claims" by (simp add: issued_def demo_claims_def)
  have "Validate demo_codec 200000000000 200000000000 token = Inr (issued 0 demo_claims)"
    by (rule issue_validate_roundtrip[OF t demo_utf8]) (simp_all add: i, simp_all add: demo_claims_def Time_Unix_def)
  with t i show ?thesis by auto
qed

text \<open>A token validates only if its second part is the encoding of the HMAC of its first part
  under a key of at least 32 bytes, and its claims name a subject, an Oubliette, a trust domain
  and the audience of the codec, expire after the clock reading and were issued before they
  expire.\<close>

theorem validate_sound:
  assumes "Validate c now1 now2 token = Inr claims"
  shows "\<exists>part0 part1 payload. 32 \<le> length (k_Key c) \<and> token = part0 @ ''.'' @ part1 \<and>
    b64_decode part1 = Some (hmac_sha256 (k_Key c) part0) \<and> b64_decode part0 = Some payload \<and>
    unmarshalClaims payload = Some claims \<and> tk_Subject claims \<noteq> '''' \<and> tk_Oubliette claims \<noteq> '''' \<and>
    tk_TrustDomain claims \<noteq> '''' \<and> tk_Audience claims = k_Audience c \<and>
    sint (tk_IssuedUnix claims) < sint (tk_ExpiresUnix claims) \<and>
    sint (Time_Unix now2) < sint (tk_ExpiresUnix claims)"
  by (rule Validate_Inr[OF assms]) (auto simp: sign_def lifetimeOK_def)

theorem validate_sound_witness:
  "\<exists>part0 part1. demo_token = part0 @ ''.'' @ part1 \<and> b64_decode part1 = Some (hmac_sha256 (k_Key demo_codec) part0)"
  using validate_sound[OF demo_validate] by blast

text \<open>For issue and expiry times less than 292 years apart, a token that validates lives at
  most the configured maximum (15 minutes by default) in nanoseconds.\<close>

theorem token_lifetime_bounded:
  assumes "Validate c now1 now2 token = Inr claims"
    and "sint (tk_ExpiresUnix claims) - sint (tk_IssuedUnix claims) \<le> 9223372036"
  shows "(sint (tk_ExpiresUnix claims) - sint (tk_IssuedUnix claims)) * 1000000000 \<le> sint (maxTTL c)"
proof -
  have l: "lifetimeOK c claims" by (rule Validate_Inr[OF assms(1)])
  let ?d = "sint (tk_ExpiresUnix claims) - sint (tk_IssuedUnix claims)"
  have d: "0 < ?d" using l by (simp add: lifetimeOK_def)
  have "tk_ExpiresUnix claims - tk_IssuedUnix claims = of_int ?d" by simp
  then have s: "sint (tk_ExpiresUnix claims - tk_IssuedUnix claims) = ?d"
    using sint_of_int64[of ?d] d assms(2) by simp
  then have "sint ((tk_ExpiresUnix claims - tk_IssuedUnix claims) * Second) = ?d * 1000000000"
    using sint_times_Second[of "tk_ExpiresUnix claims - tk_IssuedUnix claims"] d assms(2) by simp
  then show ?thesis using l by (simp add: lifetimeOK_def)
qed

theorem token_lifetime_bounded_witness:
  "Validate demo_codec 200000000000 200000000000 demo_token = Inr demo_claims \<and>
     (sint (tk_ExpiresUnix demo_claims) - sint (tk_IssuedUnix demo_claims)) * 1000000000 \<le> sint (maxTTL demo_codec)"
proof -
  have "sint (tk_ExpiresUnix demo_claims) - sint (tk_IssuedUnix demo_claims) \<le> 9223372036"
    by (simp add: demo_claims_def)
  from token_lifetime_bounded[OF demo_validate this] demo_validate show ?thesis by blast
qed

text \<open>Without that bound the lifetime check wraps around. Claims that expire 9223372037
  seconds (292 years) after their issue time are signed by a codec whose limit is 15
  minutes.\<close>

theorem issue_lifetime_wraps:
  "\<exists>token. Issue demo_codec now (demo_claims\<lparr>tk_ExpiresUnix := 9223372137\<rparr>) = Inr token \<and>
     sint (9223372137 :: int64) - sint (tk_IssuedUnix demo_claims) = 9223372037 \<and>
     sint (maxTTL demo_codec) = 900000000000"
  by (simp add: Issue_Inr_iff demo_codec_def demo_claims_def lifetimeOK_def issued_def maxTTL_def go_defs Let_def)

section \<open>The scope a credential grants\<close>

text \<open>
  What a client of the \<open>ScopeResolver\<close> interface relies on: a scope is only handed out for
  an authorization that grants it in the state the resolver looked at, and it names an
  Oubliette and a trust domain.
\<close>

locale scope_resolver =
  fixes resolve :: "string \<Rightarrow> 's \<Rightarrow> (cred_err + Scope) \<times> 's"
    and granted :: "'s \<Rightarrow> string \<Rightarrow> Scope \<Rightarrow> bool"
  assumes resolve_granted: "resolve authorization s = (Inr scope, s') \<Longrightarrow> granted s authorization scope"
    and resolve_scope: "resolve authorization s = (Inr scope, s') \<Longrightarrow>
      sc_Oubliette scope \<noteq> '''' \<and> sc_TrustDomain scope \<noteq> '''' \<and> sc_Subject scope \<noteq> ''''"

text \<open>
  The Kubernetes resolver grants a scope to the bearer of a valid token whose Oubliette is
  live: not being deleted, not past its expiry, not forgotten, with metrics ready under the
  current profile generation and the trust domain of the token.
\<close>

definition live :: "apimeta \<Rightarrow> 's KubernetesResolver \<Rightarrow> time \<Rightarrow> Claims \<Rightarrow> Oubliette \<Rightarrow> bool" where
  "live am r now claims obj \<longleftrightarrow> optIsZero (o_DeletionTimestamp obj) \<and> now < spec_ExpiresAt (o_Spec obj) \<and>
     \<not> IsStatusConditionTrue am (st_Conditions (o_Status obj)) ConditionForgotten \<and>
     IsStatusConditionTrue am (st_Conditions (o_Status obj)) ConditionMetricsReady \<and>
     st_MetricsEndpoint (o_Status obj) \<noteq> '''' \<and>
     st_MetricsProfileGeneration (o_Status obj) = kr_ProfileGeneration r \<and>
     st_MetricsTrustDomain (o_Status obj) = tk_TrustDomain claims"

definition token_grants ::
  "apimeta \<Rightarrow> 's KubernetesResolver \<Rightarrow> time \<Rightarrow> time \<Rightarrow> time \<Rightarrow> 's \<Rightarrow> string \<Rightarrow> Scope \<Rightarrow> bool" where
  "token_grants am r now1 now2 now3 s authorization scope \<longleftrightarrow>
     (\<exists>token claims C obj s1. authorization = bearer @ token \<and>
        Validate (kr_Codec r) now1 now2 token = Inr claims \<and> kr_Client r = Some C \<and>
        cl_Get C (tk_Oubliette claims) s = (Inr obj, s1) \<and> o_Name obj = tk_Oubliette claims \<and>
        live am r now3 claims obj \<and>
        scope = \<lparr>sc_Subject = tk_Subject claims, sc_Oubliette = tk_Oubliette claims,
          sc_TrustDomain = tk_TrustDomain claims, sc_Upstream = kr_Upstream r,
          sc_UpstreamAuthorization = kr_UpstreamAuthorization r, sc_Policy = kr_Policy r\<rparr>)"

lemma resolveClaims_Inr:
  assumes "resolveClaims am r now claims s = (Inr scope, s')"
  shows "\<exists>C obj. kr_Client r = Some C \<and> cl_Get C (tk_Oubliette claims) s = (Inr obj, s') \<and>
    live am r now claims obj \<and> scope = \<lparr>sc_Subject = '''', sc_Oubliette = o_Name obj,
      sc_TrustDomain = tk_TrustDomain claims, sc_Upstream = kr_Upstream r,
      sc_UpstreamAuthorization = kr_UpstreamAuthorization r, sc_Policy = kr_Policy r\<rparr>"
  using assms by (auto simp: resolveClaims_def live_def Let_def split: option.splits prod.splits sum.splits if_splits)

lemma KubernetesResolver_granted:
  assumes "KubernetesResolver_Resolve am r now1 now2 now3 authorization s = (Inr scope, s')"
  shows "token_grants am r now1 now2 now3 s authorization scope"
proof -
  let ?token = "TrimPrefix authorization bearer"
  from assms obtain claims sc where p: "HasPrefix authorization bearer"
    "Validate (kr_Codec r) now1 now2 ?token = Inr claims"
    "resolveClaims am r now3 claims s = (Inr sc, s')" "sc_Oubliette sc = tk_Oubliette claims"
    "scope = sc\<lparr>sc_Subject := tk_Subject claims\<rparr>"
    by (auto simp: KubernetesResolver_Resolve_def TokenResolver_Resolve_def
        split: if_splits prod.splits sum.splits)
  have "authorization = bearer @ ?token" using HasPrefixD[OF p(1)] by (metis TrimPrefix_append)
  with p resolveClaims_Inr[OF p(3)] show ?thesis unfolding token_grants_def by fastforce
qed

lemma token_grants_scope:
  assumes "token_grants am r now1 now2 now3 s authorization scope"
  shows "sc_Oubliette scope \<noteq> '''' \<and> sc_TrustDomain scope \<noteq> '''' \<and> sc_Subject scope \<noteq> ''''"
  using assms by (auto simp: token_grants_def elim: Validate_Inr)

interpretation kubescope: scope_resolver "KubernetesResolver_Resolve am r now1 now2 now3"
    "token_grants am r now1 now2 now3"
  for am :: apimeta and r :: "'s KubernetesResolver" and now1 now2 now3 :: time
  by unfold_locales (blast dest: KubernetesResolver_granted, blast dest: KubernetesResolver_granted token_grants_scope)

text \<open>C19: the Kubernetes resolver hands out a scope only to the bearer of a valid token whose
  Oubliette, as the API returns it, is not being deleted, not past its expiry, not forgotten,
  and has metrics ready with an endpoint, the current profile generation and the trust domain
  of the token; subject, Oubliette and trust domain of the scope are those of the token, and
  upstream and policy are the configured ones.\<close>

theorem scope_requires_live_oubliette:
  assumes "KubernetesResolver_Resolve am r now1 now2 now3 authorization s = (Inr scope, s')"
  shows "\<exists>token claims C obj s1. authorization = bearer @ token \<and>
    Validate (kr_Codec r) now1 now2 token = Inr claims \<and> kr_Client r = Some C \<and>
    cl_Get C (tk_Oubliette claims) s = (Inr obj, s1) \<and> o_Name obj = tk_Oubliette claims \<and>
    optIsZero (o_DeletionTimestamp obj) \<and> now3 < spec_ExpiresAt (o_Spec obj) \<and>
    \<not> IsStatusConditionTrue am (st_Conditions (o_Status obj)) ConditionForgotten \<and>
    IsStatusConditionTrue am (st_Conditions (o_Status obj)) ConditionMetricsReady \<and>
    st_MetricsEndpoint (o_Status obj) \<noteq> '''' \<and>
    st_MetricsProfileGeneration (o_Status obj) = kr_ProfileGeneration r \<and>
    st_MetricsTrustDomain (o_Status obj) = tk_TrustDomain claims \<and>
    scope = \<lparr>sc_Subject = tk_Subject claims, sc_Oubliette = tk_Oubliette claims,
      sc_TrustDomain = tk_TrustDomain claims, sc_Upstream = kr_Upstream r,
      sc_UpstreamAuthorization = kr_UpstreamAuthorization r, sc_Policy = kr_Policy r\<rparr>"
  using kubescope.resolve_granted[OF assms] unfolding token_grants_def live_def by blast

definition demo_obj :: Oubliette where
  "demo_obj = \<lparr>o_Name = ''demo'', o_UID = ''u'', o_Generation = 1, o_Annotations = None,
     o_DeletionTimestamp = None, o_Finalizers = [],
     o_Spec = \<lparr>spec_Tier = ''stub'', spec_ExpiresAt = 300000000000\<rparr>,
     o_Status = zeroStatus\<lparr>st_MetricsEndpoint := ''ep'', st_MetricsProfileGeneration := ''g1'',
       st_MetricsTrustDomain := ''td'',
       st_Conditions := [\<lparr>c_Type = ConditionMetricsReady, c_Status = ConditionTrue,
         c_ObservedGeneration = 1, c_LastTransitionTime = 0, c_Reason = '''', c_Message = ''''\<rparr>]\<rparr>\<rparr>"

definition demo_resolver :: "Oubliette list KubernetesResolver" where
  "demo_resolver = \<lparr>kr_Client = Some memclient, kr_Codec = demo_codec, kr_Upstream = ''http://prom'',
     kr_UpstreamAuthorization = '''', kr_ProfileGeneration = ''g1'', kr_Policy = hour_policy\<rparr>"

definition demo_scope :: Scope where
  "demo_scope = \<lparr>sc_Subject = ''agent'', sc_Oubliette = ''demo'', sc_TrustDomain = ''td'',
     sc_Upstream = ''http://prom'', sc_UpstreamAuthorization = '''', sc_Policy = hour_policy\<rparr>"

lemma demo_resolves:
  "KubernetesResolver_Resolve listmeta demo_resolver 200000000000 200000000000 200000000000
     (bearer @ demo_token) [demo_obj] = (Inr demo_scope, [demo_obj])"
proof -
  have "resolveClaims listmeta demo_resolver 200000000000 demo_claims [demo_obj]
      = (Inr (demo_scope\<lparr>sc_Subject := ''''\<rparr>), [demo_obj])"
    by (simp add: resolveClaims_def demo_resolver_def demo_claims_def demo_obj_def memclient_def mem_find_def
        listmeta_def condition_names optIsZero_def demo_scope_def Let_def)
  then show ?thesis using demo_validate
    by (simp add: KubernetesResolver_Resolve_def TokenResolver_Resolve_def)
      (simp add: demo_resolver_def demo_scope_def demo_claims_def)
qed

theorem scope_requires_live_oubliette_witness:
  "\<exists>obj s1. cl_Get memclient ''demo'' [demo_obj] = (Inr obj, s1) \<and> 200000000000 < spec_ExpiresAt (o_Spec obj) \<and>
     IsStatusConditionTrue listmeta (st_Conditions (o_Status obj)) ConditionMetricsReady"
  using scope_requires_live_oubliette[OF demo_resolves]
  by (fastforce simp: demo_resolver_def demo_scope_def)

end
