(* ===== verification/MetricsGateway.thy ===== *)
theory MetricsGateway
  imports MetricsToken "HOL-Library.AList"
begin

text \<open>
  The metrics gateway, \<open>internal/metricsgateway/gateway.go\<close>: authentication, quotas, query
  rewriting, budget checks, the upstream call and the filtering of its response. The
  resolver, the HTTP client and the PromQL library are parameters; so are \<open>url.Parse\<close> of the
  configured upstream and the float conversions behind \<open>parsePromTime\<close>,
  \<open>parsePromDuration\<close> and the number of points of a range, collected in \<open>promparse\<close>.
  Errors are values: \<open>gw_err\<close> has one constructor per message of the code.
\<close>

section \<open>Data\<close>

type_synonym url_values = "(string \<times> string list) list"

datatype gw_err =
    NotConfigured | Unauthorized | RateExceeded | ConcurrencyExceeded | MethodNotSupported
  | InvalidParameters | QueryRequired | PolicyError policy_err | LabelUnavailable | MatchRequired
  | EndpointNotAllowed | StartRequired | EndRequired | StepRequired | RangeExceeded
  | StepBelowMinimum | PointBudgetExceeded | InvalidQueryTime | TimeExceeded
  | MetadataStartRequired | MetadataEndRequired | MetadataRangeExceeded | UpstreamUnavailable
  | ConstructRequest | UpstreamFailed | ResponseExceeded | InvalidUpstreamResponse
  | SampleBudgetExceeded

datatype audit_error = NoError | Rejected gw_err | UpstreamError string

record AuditEvent =
  ev_Time :: time
  ev_Subject :: string
  ev_Oubliette :: string
  ev_OriginalQuery :: string
  ev_EffectiveQuery :: string
  ev_Path :: string
  ev_Start :: string
  ev_End :: string
  ev_Step :: string
  ev_EvaluationTime :: string
  ev_Status :: int
  ev_Error :: audit_error

record usage =
  u_inFlight :: int
  u_window :: time
  u_requests :: int

type_synonym usages = "string \<rightharpoonup> usage"

record gw_request =
  gr_Method :: string
  gr_Path :: string
  gr_Authorization :: string
  gr_Form :: "url_values option"

datatype gw_body = ErrorBody gw_err | JsonBody string

record gw_response =
  gs_Status :: int
  gs_Body :: gw_body

record upstream_request =
  ur_Base :: string
  ur_Path :: string
  ur_Form :: url_values
  ur_Authorization :: "string option"
  ur_Timeout :: "duration option"

record upstream_response =
  up_Status :: int
  up_Body :: "string option"

record promparse =
  parsePromTime :: "string \<Rightarrow> time option"
  parsePromDuration :: "string \<Rightarrow> duration option"
  rangePoints :: "duration \<Rightarrow> duration \<Rightarrow> int"

record ('e, 's) Gateway =
  g_Promql :: "'e promql"
  g_Resolver :: "(string \<Rightarrow> 's \<Rightarrow> (cred_err + Scope) \<times> 's) option"
  g_Parse :: promparse
  g_ParseURL :: "string \<Rightarrow> (string \<times> string) option"
  g_RequestOK :: "string \<Rightarrow> string \<Rightarrow> bool"
  g_Do :: "upstream_request \<Rightarrow> 's \<Rightarrow> (string + upstream_response) \<times> 's"

section \<open>Form values\<close>

definition values_Get :: "url_values \<Rightarrow> string \<Rightarrow> string" where
  "values_Get form k = (case map_of form k of Some (v # _) \<Rightarrow> v | _ \<Rightarrow> '''')"

definition values_of :: "url_values \<Rightarrow> string \<Rightarrow> string list" where
  "values_of form k = (case map_of form k of Some vs \<Rightarrow> vs | None \<Rightarrow> [])"

definition values_Set :: "url_values \<Rightarrow> string \<Rightarrow> string \<Rightarrow> url_values" where
  "values_Set form k v = AList.update k [v] form"

text \<open>Values are immutable here, so the copy is the original.\<close>

definition cloneValues :: "url_values \<Rightarrow> url_values" where
  "cloneValues form = map (\<lambda>(k, vs). (k, vs @ [])) form"

text \<open>\<open>url.PathUnescape\<close>: percent escapes only.\<close>

fun PathUnescape :: "string \<Rightarrow> string option" where
  "PathUnescape [] = Some []"
| "PathUnescape (c # cs) =
     (if c = CHR ''%'' then
        (case cs of a # b # r \<Rightarrow>
           (case (hexval a, hexval b) of
              (Some x, Some y) \<Rightarrow> map_option (\<lambda>s. char_of (x * 16 + y) # s) (PathUnescape r)
            | _ \<Rightarrow> None)
         | _ \<Rightarrow> None)
      else map_option (\<lambda>s. c # s) (PathUnescape cs))"

section \<open>Quotas\<close>

definition usage_key :: "Scope \<Rightarrow> string" where
  "usage_key scope = sc_Subject scope @ [CHR 0x00] @ sc_Oubliette scope"

text \<open>
  \<open>acquire\<close> returns the key whose counter the release closure decrements: entries are never
  removed from the map, so the closure's pointer and the map entry stay the same object.
\<close>

definition acquire :: "time \<Rightarrow> Scope \<Rightarrow> usages \<Rightarrow> (gw_err + string) \<times> usages" where
  "acquire now scope us =
     (let key = usage_key scope;
          cur0 = (case us key of None \<Rightarrow> \<lparr>u_inFlight = 0, u_window = now, u_requests = 0\<rparr> | Some u \<Rightarrow> u);
          cur = (if sint (Time_Sub now (u_window cur0)) \<ge> sint Minute
                 then cur0\<lparr>u_window := now, u_requests := 0\<rparr> else cur0);
          p = sc_Policy scope
      in if p_MaxRequestsPerMinute p > 0 \<and> u_requests cur \<ge> p_MaxRequestsPerMinute p
         then (Inl RateExceeded, us(key \<mapsto> cur))
         else if p_MaxConcurrency p > 0 \<and> u_inFlight cur \<ge> p_MaxConcurrency p
         then (Inl ConcurrencyExceeded, us(key \<mapsto> cur))
         else (Inr key, us(key \<mapsto> cur\<lparr>u_requests := u_requests cur + 1, u_inFlight := u_inFlight cur + 1\<rparr>)))"

definition release :: "string \<Rightarrow> usages \<Rightarrow> usages" where
  "release key us = (case us key of None \<Rightarrow> us | Some u \<Rightarrow> us(key \<mapsto> u\<lparr>u_inFlight := u_inFlight u - 1\<rparr>))"

section \<open>Rewriting the request\<close>

definition labelValuesPath :: "string \<Rightarrow> bool" where
  "labelValuesPath path \<longleftrightarrow> HasPrefix path ''/api/v1/label/'' \<and> HasSuffix path ''/values''"

definition metadataPath :: "string \<Rightarrow> bool" where
  "metadataPath path \<longleftrightarrow> path = ''/api/v1/series'' \<or> path = ''/api/v1/labels'' \<or> labelValuesPath path"

fun rewriteAll :: "'e promql \<Rightarrow> Scope \<Rightarrow> string list \<Rightarrow> policy_err + string list" where
  "rewriteAll pq scope [] = Inr []"
| "rewriteAll pq scope (m # ms) =
     (case Rewrite pq (sc_Policy scope) m (sc_Oubliette scope) (sc_TrustDomain scope) of
        Inl e \<Rightarrow> Inl e
      | Inr m' \<Rightarrow> (case rewriteAll pq scope ms of Inl e \<Rightarrow> Inl e | Inr ms' \<Rightarrow> Inr (m' # ms')))"

definition rewriteRequest ::
  "'e promql \<Rightarrow> string \<Rightarrow> url_values \<Rightarrow> Scope \<Rightarrow> AuditEvent \<Rightarrow> gw_err + (url_values \<times> AuditEvent)" where
  "rewriteRequest pq path form scope event =
     (if path = ''/api/v1/query'' \<or> path = ''/api/v1/query_range'' then
        (let query = values_Get form ''query'' in
         if query = '''' then Inl QueryRequired
         else (case Rewrite pq (sc_Policy scope) query (sc_Oubliette scope) (sc_TrustDomain scope) of
           Inl e \<Rightarrow> Inl (PolicyError e)
         | Inr rewritten \<Rightarrow> Inr (values_Set form ''query'' rewritten,
             event\<lparr>ev_OriginalQuery := query, ev_EffectiveQuery := rewritten\<rparr>)))
      else if metadataPath path then
        (if HasPrefix path ''/api/v1/label/'' \<and>
            (case PathUnescape (TrimSuffix (TrimPrefix path ''/api/v1/label/'') ''/values'') of
               None \<Rightarrow> True | Some decoded \<Rightarrow> decoded = '''' \<or> Sensitive (sc_Policy scope) decoded)
         then Inl LabelUnavailable
         else let matches = values_of form ''match[]'' in
           if matches = [] then Inl MatchRequired
           else (case rewriteAll pq scope matches of
             Inl e \<Rightarrow> Inl (PolicyError e)
           | Inr rewritten \<Rightarrow> Inr (AList.update ''match[]'' rewritten form,
               event\<lparr>ev_OriginalQuery := Join matches ''; '', ev_EffectiveQuery := Join rewritten ''; ''\<rparr>)))
      else Inl EndpointNotAllowed)"

section \<open>Budgets\<close>

definition validateRange :: "promparse \<Rightarrow> time \<Rightarrow> url_values \<Rightarrow> Policy \<Rightarrow> gw_err option" where
  "validateRange pp now form p =
     (case parsePromTime pp (values_Get form ''start'') of None \<Rightarrow> Some StartRequired | Some start \<Rightarrow>
      case parsePromTime pp (values_Get form ''end'') of None \<Rightarrow> Some EndRequired | Some end_t \<Rightarrow>
      if end_t < start then Some EndRequired else
      case parsePromDuration pp (values_Get form ''step'') of None \<Rightarrow> Some StepRequired | Some step \<Rightarrow>
      if sint step \<le> 0 then Some StepRequired
      else if sint (p_MaxLookback p) > 0 \<and> (sint (Time_Sub end_t start) > sint (p_MaxLookback p)
              \<or> start < Time_Add now (- p_MaxLookback p)) then Some RangeExceeded
      else if sint (p_MinStep p) > 0 \<and> sint step < sint (p_MinStep p) then Some StepBelowMinimum
      else if p_MaxSamples p > 0 \<and> rangePoints pp (Time_Sub end_t start) step + 1 > p_MaxSamples p
      then Some PointBudgetExceeded
      else None)"

definition validateInstant :: "promparse \<Rightarrow> time \<Rightarrow> url_values \<Rightarrow> Policy \<Rightarrow> gw_err option" where
  "validateInstant pp now form p =
     (if values_Get form ''time'' = '''' then None
      else (case parsePromTime pp (values_Get form ''time'') of
        None \<Rightarrow> Some InvalidQueryTime
      | Some at \<Rightarrow> if sint (p_MaxLookback p) > 0 \<and> at < Time_Add now (- p_MaxLookback p)
                   then Some TimeExceeded else None))"

definition validateMetadata :: "promparse \<Rightarrow> time \<Rightarrow> url_values \<Rightarrow> Policy \<Rightarrow> gw_err option" where
  "validateMetadata pp now form p =
     (case parsePromTime pp (values_Get form ''start'') of None \<Rightarrow> Some MetadataStartRequired | Some start \<Rightarrow>
      case parsePromTime pp (values_Get form ''end'') of None \<Rightarrow> Some MetadataEndRequired | Some end_t \<Rightarrow>
      if end_t < start then Some MetadataEndRequired
      else if sint (p_MaxLookback p) > 0 \<and> (sint (Time_Sub end_t start) > sint (p_MaxLookback p)
              \<or> start < Time_Add now (- p_MaxLookback p) \<or> end_t > Time_Add now Minute)
      then Some MetadataRangeExceeded else None)"

definition validateBudget :: "promparse \<Rightarrow> time \<Rightarrow> string \<Rightarrow> url_values \<Rightarrow> Policy \<Rightarrow> gw_err option" where
  "validateBudget pp now path form p =
     (case (if path = ''/api/v1/query_range'' then validateRange pp now form p else None) of
        Some e \<Rightarrow> Some e
      | None \<Rightarrow> (case (if path = ''/api/v1/query'' then validateInstant pp now form p else None) of
          Some e \<Rightarrow> Some e
        | None \<Rightarrow> if metadataPath path then validateMetadata pp now form p else None))"

section \<open>Filtering the response\<close>

text \<open>
  The value without its sensitive members, and the number of samples in what is left.
\<close>

fun filterValue :: "Policy \<Rightarrow> json \<Rightarrow> json \<times> int"
  and filterElems :: "Policy \<Rightarrow> json list \<Rightarrow> json list \<times> int"
  and filterMembers :: "Policy \<Rightarrow> (string \<times> json) list \<Rightarrow> (string \<times> json) list \<times> int" where
  "filterValue p (JObj ms) = (case filterMembers p ms of (ms', n) \<Rightarrow> (JObj ms', n))"
| "filterValue p (JArr vs) = (case filterElems p vs of (vs', n) \<Rightarrow> (JArr vs', n))"
| "filterValue p v = (v, 0)"
| "filterElems p [] = ([], 0)"
| "filterElems p (v # vs) =
     (case filterValue p v of (v', n) \<Rightarrow> (case filterElems p vs of (vs', m) \<Rightarrow> (v' # vs', n + m)))"
| "filterMembers p [] = ([], 0)"
| "filterMembers p ((k, v) # ms) =
     (if Sensitive p k then filterMembers p ms
      else (case filterValue p v of (v', n) \<Rightarrow> (case filterMembers p ms of (ms', m) \<Rightarrow>
        ((k, v') # ms',
         (if k = ''value'' then 1 else 0)
         + (if k = ''values'' then (case v of JArr xs \<Rightarrow> int (length xs) | _ \<Rightarrow> 0) else 0) + n + m))))"

definition plainLabel :: "Policy \<Rightarrow> json \<Rightarrow> bool" where
  "plainLabel p item = (case item of JStr label \<Rightarrow> \<not> Sensitive p label | _ \<Rightarrow> False)"

definition filterLabels :: "Policy \<Rightarrow> json \<Rightarrow> json" where
  "filterLabels p v = (case v of JObj ms \<Rightarrow>
       JObj (map (\<lambda>(k, x). (k, if k = ''data'' then
               (case x of JArr data \<Rightarrow> JArr (filter (plainLabel p) data) | _ \<Rightarrow> x) else x)) ms)
     | _ \<Rightarrow> v)"

definition filterResponse :: "string \<Rightarrow> Policy \<Rightarrow> string \<Rightarrow> (string \<times> int) option" where
  "filterResponse body p path =
     (case decode_first body of None \<Rightarrow> None | Some raw \<Rightarrow>
        (case filterValue p (canon raw) of (v, samples) \<Rightarrow>
           Some (encode (if path = ''/api/v1/labels'' then filterLabels p v else v), samples)))"

section \<open>The handler\<close>

definition writeError :: "int \<Rightarrow> gw_err \<Rightarrow> gw_response" where
  "writeError status e = \<lparr>gs_Status = status, gs_Body = ErrorBody e\<rparr>"

definition responseLimit :: "Policy \<Rightarrow> int64" where
  "responseLimit p = (if sint (p_MaxResponseBytes p) \<le> 0 then push_bit 20 4 else p_MaxResponseBytes p)"

text \<open>From the upstream's answer to the client's.\<close>

definition relay :: "Scope \<Rightarrow> string \<Rightarrow> upstream_response \<Rightarrow> gw_response" where
  "relay scope path resp =
     (let p = sc_Policy scope; limit = responseLimit p in
      case up_Body resp of None \<Rightarrow> writeError StatusBadGateway ResponseExceeded
      | Some full \<Rightarrow>
          let body = take (nat (sint (limit + 1))) full in
          if int (length body) > sint limit then writeError StatusBadGateway ResponseExceeded
          else (case filterResponse body p path of
            None \<Rightarrow> writeError StatusBadGateway InvalidUpstreamResponse
          | Some (filtered, samples) \<Rightarrow>
              if p_MaxSamples p > 0 \<and> samples > p_MaxSamples p
              then writeError StatusUnprocessableEntity SampleBudgetExceeded
              else \<lparr>gs_Status = up_Status resp, gs_Body = JsonBody filtered\<rparr>))"

definition upstreamRequest :: "Scope \<Rightarrow> string \<Rightarrow> url_values \<Rightarrow> upstream_request" where
  "upstreamRequest scope path form = \<lparr>ur_Base = sc_Upstream scope, ur_Path = path, ur_Form = form,
     ur_Authorization = (if sc_UpstreamAuthorization scope \<noteq> '''' then Some (sc_UpstreamAuthorization scope) else None),
     ur_Timeout = (if sint (p_MaxExecutionTime (sc_Policy scope)) > 0
                   then Some (p_MaxExecutionTime (sc_Policy scope)) else None)\<rparr>"

text \<open>The part of \<open>ServeHTTP\<close> between \<open>acquire\<close> and the deferred release.\<close>

definition serveScoped ::
  "('e, 's) Gateway \<Rightarrow> time \<Rightarrow> gw_request \<Rightarrow> Scope \<Rightarrow> AuditEvent \<Rightarrow> 's \<Rightarrow> gw_response \<times> AuditEvent \<times> 's" where
  "serveScoped g now r scope event s =
     (if gr_Method r \<noteq> MethodGet \<and> gr_Method r \<noteq> MethodPost
      then (writeError StatusMethodNotAllowed MethodNotSupported, event, s)
      else (case gr_Form r of None \<Rightarrow> (writeError StatusBadRequest InvalidParameters, event, s)
      | Some form0 \<Rightarrow>
          (case rewriteRequest (g_Promql g) (gr_Path r) (cloneValues form0) scope event of
             Inl e \<Rightarrow> (writeError StatusBadRequest e, event\<lparr>ev_Error := Rejected e\<rparr>, s)
           | Inr (form, event1) \<Rightarrow>
          (case validateBudget (g_Parse g) now (gr_Path r) form (sc_Policy scope) of
             Some e \<Rightarrow> (writeError StatusUnprocessableEntity e, event1\<lparr>ev_Error := Rejected e\<rparr>, s)
           | None \<Rightarrow>
          (let event2 = event1\<lparr>ev_Start := values_Get form ''start'', ev_End := values_Get form ''end'',
                 ev_Step := values_Get form ''step'', ev_EvaluationTime := values_Get form ''time''\<rparr> in
           if (case g_ParseURL g (sc_Upstream scope) of None \<Rightarrow> True | Some (scheme, host) \<Rightarrow> scheme = '''' \<or> host = '''')
           then (writeError StatusServiceUnavailable UpstreamUnavailable, event2, s)
           else if \<not> g_RequestOK g (sc_Upstream scope) (gr_Path r)
           then (writeError StatusInternalServerError ConstructRequest, event2, s)
           else (case g_Do g (upstreamRequest scope (gr_Path r) form) s of
             (Inl err, s1) \<Rightarrow> (writeError StatusBadGateway UpstreamFailed, event2\<lparr>ev_Error := UpstreamError err\<rparr>, s1)
           | (Inr resp, s1) \<Rightarrow> (relay scope (gr_Path r) resp, event2, s1)))))))"

definition newEvent :: "time \<Rightarrow> string \<Rightarrow> AuditEvent" where
  "newEvent now path = \<lparr>ev_Time = now, ev_Subject = '''', ev_Oubliette = '''', ev_OriginalQuery = '''',
     ev_EffectiveQuery = '''', ev_Path = path, ev_Start = '''', ev_End = '''', ev_Step = '''',
     ev_EvaluationTime = '''', ev_Status = 0, ev_Error = NoError\<rparr>"

definition ServeHTTP ::
  "('e, 's) Gateway \<Rightarrow> time \<Rightarrow> time \<Rightarrow> time \<Rightarrow> gw_request \<Rightarrow> usages \<Rightarrow> 's
   \<Rightarrow> gw_response \<times> AuditEvent \<times> usages \<times> 's" where
  "ServeHTTP g now0 now1 now2 r us s =
     (let event = newEvent now0 (gr_Path r);
          (resp, event', us', s') =
            (case g_Resolver g of
               None \<Rightarrow> (writeError StatusServiceUnavailable NotConfigured, event, us, s)
             | Some resolve \<Rightarrow>
                 (case resolve (gr_Authorization r) s of
                    (Inl err, s1) \<Rightarrow> (writeError StatusUnauthorized Unauthorized, event, us, s1)
                  | (Inr scope, s1) \<Rightarrow>
                      (let event1 = event\<lparr>ev_Subject := sc_Subject scope, ev_Oubliette := sc_Oubliette scope\<rparr> in
                       case acquire now1 scope us of
                         (Inl err, us1) \<Rightarrow> (writeError StatusTooManyRequests err, event1, us1, s1)
                       | (Inr key, us1) \<Rightarrow>
                           (case serveScoped g now2 r scope event1 s1 of
                              (resp, event2, s2) \<Rightarrow> (resp, event2, release key us1, s2)))))
      in (resp, event'\<lparr>ev_Status := gs_Status resp\<rparr>, us', s'))"

section \<open>What a filtered response contains\<close>

text \<open>No member at any depth has a sensitive name.\<close>

fun clean :: "Policy \<Rightarrow> json \<Rightarrow> bool"
  and clean_elems :: "Policy \<Rightarrow> json list \<Rightarrow> bool"
  and clean_members :: "Policy \<Rightarrow> (string \<times> json) list \<Rightarrow> bool" where
  "clean p (JObj ms) = clean_members p ms"
| "clean p (JArr vs) = clean_elems p vs"
| "clean p _ = True"
| "clean_elems p [] = True"
| "clean_elems p (v # vs) = (clean p v \<and> clean_elems p vs)"
| "clean_members p [] = True"
| "clean_members p ((k, v) # ms) = (\<not> Sensitive p k \<and> clean p v \<and> clean_members p ms)"

text \<open>The samples of a Prometheus response: a \<open>value\<close> is one, a list \<open>values\<close> is as many as it
  has elements.\<close>

fun samples_of :: "json \<Rightarrow> int"
  and samples_elems :: "json list \<Rightarrow> int"
  and samples_members :: "(string \<times> json) list \<Rightarrow> int" where
  "samples_of (JObj ms) = samples_members ms"
| "samples_of (JArr vs) = samples_elems vs"
| "samples_of _ = 0"
| "samples_elems [] = 0"
| "samples_elems (v # vs) = samples_of v + samples_elems vs"
| "samples_members [] = 0"
| "samples_members ((k, v) # ms) = (if k = ''value'' then 1 else 0)
     + (if k = ''values'' then (case v of JArr xs \<Rightarrow> int (length xs) | _ \<Rightarrow> 0) else 0)
     + samples_of v + samples_members ms"

lemma filterElems_length: "length (fst (filterElems p vs)) = length vs"
  by (induction vs) (auto split: prod.splits)

lemma filterValue_array:
  "(case fst (filterValue p v) of JArr xs \<Rightarrow> int (length xs) | _ \<Rightarrow> 0)
     = (case v of JArr xs \<Rightarrow> int (length xs) | _ \<Rightarrow> 0)"
  using filterElems_length[of p] by (cases v) (auto split: prod.splits, metis fst_conv)

lemma filter_clean:
  "clean p (fst (filterValue p v))"
  "clean_elems p (fst (filterElems p vs))"
  "clean_members p (fst (filterMembers p ms))"
  by (induction p v and p vs and p ms rule: filterValue_filterElems_filterMembers.induct)
    (auto split: prod.splits)

lemma filter_ok:
  "json_ok d v \<Longrightarrow> json_ok d (fst (filterValue p v))"
  "elems_ok d vs \<Longrightarrow> elems_ok d (fst (filterElems p vs))"
  "members_ok d ms \<Longrightarrow> members_ok d (fst (filterMembers p ms))"
  by (induction p v and p vs and p ms arbitrary: d and d and d rule: filterValue_filterElems_filterMembers.induct)
    (auto split: prod.splits)

lemma filter_samples:
  "samples_of (fst (filterValue p v)) = snd (filterValue p v)"
  "samples_elems (fst (filterElems p vs)) = snd (filterElems p vs)"
  "samples_members (fst (filterMembers p ms)) = snd (filterMembers p ms)"
proof (induction p v and p vs and p ms rule: filterValue_filterElems_filterMembers.induct)
  case (7 p k v ms)
  then show ?case using filterValue_array[of p v] by (auto split: prod.splits)
qed (auto split: prod.splits)

lemma samples_nonneg: "0 \<le> samples_of v" "0 \<le> samples_elems vs" "0 \<le> samples_members ms"
  by (induction v and vs and ms rule: samples_of_samples_elems_samples_members.induct) (auto split: json.splits)

lemma samples_filter_elems: "samples_elems (filter P vs) \<le> samples_elems vs"
  by (induction vs) (use samples_nonneg(1) in \<open>auto intro: add_increasing\<close>)

lemma elems_filter: "elems_ok d vs \<Longrightarrow> elems_ok d (filter P vs)" "clean_elems p vs \<Longrightarrow> clean_elems p (filter P vs)"
  by (induction vs) auto

text \<open>\<open>filterLabels\<close> keeps the members, shortening the list under \<open>data\<close>.\<close>

abbreviation label_member :: "Policy \<Rightarrow> string \<times> json \<Rightarrow> string \<times> json" where
  "label_member p \<equiv> (\<lambda>(k, x). (k, if k = ''data'' then
     (case x of JArr data \<Rightarrow> JArr (filter (plainLabel p) data) | _ \<Rightarrow> x) else x))"

lemma filterLabels_members:
  "members_ok d ms \<Longrightarrow> members_ok d (map (label_member p) ms)"
  "clean_members p ms \<Longrightarrow> clean_members p (map (label_member p) ms)"
  "samples_members (map (label_member p) ms) \<le> samples_members ms"
proof (induction ms)
  case (Cons m ms)
  obtain k v where m: "m = (k, v)" by (cases m)
  {
    case 1
    then show ?case using Cons.IH(1) m by (auto simp: elems_filter split: json.splits)
  next
    case 2
    then show ?case using Cons.IH(2) m by (auto simp: elems_filter split: json.splits)
  next
    case 3
    show ?case using Cons.IH(3) m
      by (auto simp: samples_filter_elems intro: add_mono split: json.splits)
  }
qed auto

lemma filterLabels_keeps:
  "json_ok d v \<Longrightarrow> json_ok d (filterLabels p v)"
  "clean p v \<Longrightarrow> clean p (filterLabels p v)"
  "samples_of (filterLabels p v) \<le> samples_of v"
  using filterLabels_members by (cases v; simp add: filterLabels_def)+

lemma filterLabels_data:
  "filterLabels p v = JObj ms \<Longrightarrow> (''data'', JArr data) \<in> set ms \<Longrightarrow> \<forall>x \<in> set data. plainLabel p x"
  by (cases v) (auto simp: filterLabels_def split: json.splits)

lemma filterResponse_facts:
  assumes "filterResponse body p path = Some (out, samples)"
  shows "\<exists>v. unmarshal out = Some v \<and> clean p v \<and> samples_of v \<le> samples \<and>
    (path = ''/api/v1/labels'' \<longrightarrow> (\<forall>ms data x. v = JObj ms \<and> (''data'', JArr data) \<in> set ms \<and> x \<in> set data \<longrightarrow>
       (\<exists>label. x = JStr label \<and> label \<notin> set (p_SensitiveLabels p))))"
proof -
  from assms obtain raw where raw: "decode_first body = Some raw" by (auto simp: filterResponse_def split: option.splits)
  define w where "w = fst (filterValue p (canon raw))"
  define v where "v = (if path = ''/api/v1/labels'' then filterLabels p w else w)"
  have out: "out = encode v" "samples = samples_of w"
    using assms raw filter_samples(1)[of p "canon raw"]
    by (auto simp: filterResponse_def v_def w_def split: prod.splits)
  have w: "json_ok 0 w" "clean p w"
    using filter_ok(1)[OF canon_ok[OF decode_first_ok[OF raw]]] filter_clean(1) by (simp_all add: w_def)
  then have v: "json_ok 0 v" "clean p v" "samples_of v \<le> samples"
    using filterLabels_keeps(1)[of 0 w p] filterLabels_keeps(2,3)[of p w] out(2) by (auto simp: v_def)
  have "\<exists>label. x = JStr label \<and> label \<notin> set (p_SensitiveLabels p)"
    if "path = ''/api/v1/labels''" "v = JObj ms" "(''data'', JArr data) \<in> set ms" "x \<in> set data" for ms data x
  proof -
    have "plainLabel p x" using filterLabels_data[of p w ms data] that by (simp add: v_def)
    then show ?thesis by (cases x) (auto simp: plainLabel_def Sensitive_def)
  qed
  with decode_encode[OF v(1)] v out(1) show ?thesis by blast
qed

section \<open>Properties of filtering\<close>

text \<open>The bytes of a filtered response parse as JSON in which no object at any depth has a
  member with a sensitive name, which holds at most as many samples as were counted against
  the budget, and which lists no sensitive label name when labels were asked for.\<close>

theorem filterResponse_clean:
  assumes "filterResponse body p path = Some (out, samples)"
  shows "\<exists>v. unmarshal out = Some v \<and> clean p v \<and> samples_of v \<le> samples \<and>
    (path = ''/api/v1/labels'' \<longrightarrow> (\<forall>ms data x. v = JObj ms \<and> (''data'', JArr data) \<in> set ms \<and> x \<in> set data \<longrightarrow>
       (\<exists>label. x = JStr label \<and> label \<notin> set (p_SensitiveLabels p))))"
  by (rule filterResponse_facts[OF assms])

definition demo_body :: string where
  "demo_body = encode (JObj [(''tenant'', JStr ''x''), (''value'', JNum ''1'')])"

lemma demo_body_filtered:
  "filterResponse demo_body hour_policy ''/api/v1/query'' = Some (encode (JObj [(''value'', JNum ''1'')]), 1)"
  by code_simp

theorem filterResponse_clean_witness:
  "\<exists>v. unmarshal (encode (JObj [(''value'', JNum ''1'')])) = Some v \<and> clean hour_policy v \<and> samples_of v \<le> 1"
  using filterResponse_clean[OF demo_body_filtered] by blast

section \<open>Quotas under concurrent requests\<close>

text \<open>
  Requests run concurrently; each takes the gateway's mutex for \<open>acquire\<close> and again for its
  release. A state is the usage map, the keys of the admitted requests that have not
  released yet, and the log of attempts, newest first: key, start of the window the attempt
  was counted in, clock reading and whether it was admitted. All scopes carry the policy of
  the gateway.
\<close>

record quota =
  q_usage :: usages
  q_held :: "string list"
  q_log :: "(string \<times> time \<times> time \<times> bool) list"

definition attempt :: "Scope \<Rightarrow> time \<Rightarrow> usages \<Rightarrow> bool \<Rightarrow> string \<times> time \<times> time \<times> bool" where
  "attempt scope now us ok = (usage_key scope, u_window (the (us (usage_key scope))), now, ok)"

inductive quota_step :: "Policy \<Rightarrow> quota \<Rightarrow> quota \<Rightarrow> bool" for p where
  admit: "sc_Policy scope = p \<Longrightarrow> acquire now scope (q_usage q) = (Inr key, us) \<Longrightarrow>
    quota_step p q \<lparr>q_usage = us, q_held = key # q_held q, q_log = attempt scope now us True # q_log q\<rparr>"
| refuse: "sc_Policy scope = p \<Longrightarrow> acquire now scope (q_usage q) = (Inl e, us) \<Longrightarrow>
    quota_step p q \<lparr>q_usage = us, q_held = q_held q, q_log = attempt scope now us False # q_log q\<rparr>"
| finish: "key \<in> set (q_held q) \<Longrightarrow>
    quota_step p q (q\<lparr>q_usage := release key (q_usage q), q_held := remove1 key (q_held q)\<rparr>)"

inductive quota_reachable :: "Policy \<Rightarrow> quota \<Rightarrow> bool" for p where
  start: "quota_reachable p \<lparr>q_usage = Map.empty, q_held = [], q_log = []\<rparr>"
| step: "quota_reachable p q \<Longrightarrow> quota_step p q q' \<Longrightarrow> quota_reachable p q'"

text \<open>The counters of one key against the number of requests that hold it.\<close>

definition key_inv :: "Policy \<Rightarrow> nat \<Rightarrow> usage option \<Rightarrow> bool" where
  "key_inv p n u0 \<longleftrightarrow> (case u0 of
     None \<Rightarrow> n = 0
   | Some u \<Rightarrow> u_inFlight u = int n \<and> 0 \<le> u_requests u \<and>
       (0 < p_MaxConcurrency p \<longrightarrow> u_inFlight u \<le> p_MaxConcurrency p) \<and>
       (0 < p_MaxRequestsPerMinute p \<longrightarrow> u_requests u \<le> p_MaxRequestsPerMinute p))"

definition usage_inv :: "Policy \<Rightarrow> quota \<Rightarrow> bool" where
  "usage_inv p q \<longleftrightarrow> (\<forall>k. key_inv p (count_list (q_held q) k) (q_usage q k))"

text \<open>The entry \<open>acquire\<close> works on, before it counts the request.\<close>

definition current :: "time \<Rightarrow> usage option \<Rightarrow> usage" where
  "current now u0 = (let u = (case u0 of None \<Rightarrow> \<lparr>u_inFlight = 0, u_window = now, u_requests = 0\<rparr> | Some u \<Rightarrow> u) in
     if now - u_window u \<ge> 60000000000 then u\<lparr>u_window := now, u_requests := 0\<rparr> else u)"

definition counted :: "usage \<Rightarrow> usage" where
  "counted u = u\<lparr>u_requests := u_requests u + 1, u_inFlight := u_inFlight u + 1\<rparr>"

definition has_room :: "Policy \<Rightarrow> usage \<Rightarrow> bool" where
  "has_room p u \<longleftrightarrow> (0 < p_MaxRequestsPerMinute p \<longrightarrow> u_requests u < p_MaxRequestsPerMinute p) \<and>
     (0 < p_MaxConcurrency p \<longrightarrow> u_inFlight u < p_MaxConcurrency p)"

lemma minute_passed: "sint (Time_Sub now w) \<ge> sint Minute \<longleftrightarrow> now - w \<ge> 60000000000"
  by (auto simp: sint_Time_Sub)

lemma acquire_current:
  "acquire now scope us =
     (let key = usage_key scope; cur = current now (us key); p = sc_Policy scope in
      if p_MaxRequestsPerMinute p > 0 \<and> u_requests cur \<ge> p_MaxRequestsPerMinute p
      then (Inl RateExceeded, us(key \<mapsto> cur))
      else if p_MaxConcurrency p > 0 \<and> u_inFlight cur \<ge> p_MaxConcurrency p
      then (Inl ConcurrencyExceeded, us(key \<mapsto> cur))
      else (Inr key, us(key \<mapsto> counted cur)))"
  unfolding acquire_def current_def counted_def Let_def minute_passed by (rule refl)

lemma acquire_Inr:
  "acquire now scope us = (Inr key, us') \<longleftrightarrow> key = usage_key scope \<and> has_room (sc_Policy scope) (current now (us key)) \<and>
     us' = us(key \<mapsto> counted (current now (us key)))"
  unfolding acquire_current Let_def has_room_def by auto

lemma acquire_Inl:
  "acquire now scope us = (Inl e, us') \<Longrightarrow> us' = us(usage_key scope \<mapsto> current now (us (usage_key scope)))"
  unfolding acquire_current Let_def by (auto split: if_splits)

lemma key_inv_current: "key_inv p n u0 \<Longrightarrow> key_inv p n (Some (current now u0))"
  by (auto simp: key_inv_def current_def Let_def split: option.splits)

lemma key_inv_counted: "key_inv p n (Some u) \<Longrightarrow> has_room p u \<Longrightarrow> key_inv p (Suc n) (Some (counted u))"
  by (auto simp: key_inv_def counted_def has_room_def)

lemma key_inv_released: "key_inv p n (Some u) \<Longrightarrow> 0 < n \<Longrightarrow> key_inv p (n - 1) (Some (u\<lparr>u_inFlight := u_inFlight u - 1\<rparr>))"
  by (auto simp: key_inv_def)

lemma count_remove1:
  "count_list (remove1 key xs) k = (if k = key then count_list xs k - 1 else count_list xs k)"
  by (induction xs) (auto simp: count_list_0_iff gr0_conv_Suc dest: count_notin)

lemma usage_inv_step:
  assumes "quota_step p q q'" "usage_inv p q"
  shows "usage_inv p q'"
proof -
  have inv: "key_inv p (count_list (q_held q) k) (q_usage q k)" for k using assms(2) by (simp add: usage_inv_def)
  from assms(1) show ?thesis
  proof cases
    case (admit scope now key us)
    then have "us = (q_usage q)(key \<mapsto> counted (current now (q_usage q key)))" "has_room p (current now (q_usage q key))"
      by (auto simp: acquire_Inr)
    with admit(1) inv key_inv_counted[OF key_inv_current[OF inv]] show ?thesis by (simp add: usage_inv_def)
  next
    case (refuse scope now e us)
    with acquire_Inl[OF refuse(3)] inv key_inv_current[OF inv] show ?thesis by (simp add: usage_inv_def)
  next
    case (finish key)
    have n: "0 < count_list (q_held q) key" using finish(2) by (metis count_list_0_iff gr0I)
    with inv[of key] obtain u where u: "q_usage q key = Some u" by (cases "q_usage q key") (auto simp: key_inv_def)
    have "key_inv p (count_list (q_held q) key - 1) (Some (u\<lparr>u_inFlight := u_inFlight u - 1\<rparr>))"
      using key_inv_released[of p _ u] inv[of key] u n by simp
    with finish(1) u inv show ?thesis by (simp add: usage_inv_def release_def count_remove1)
  qed
qed

lemma quota_reachable_inv: "quota_reachable p q \<Longrightarrow> usage_inv p q"
proof (induction rule: quota_reachable.induct)
  case start
  show ?case by (simp add: usage_inv_def key_inv_def)
next
  case (step q q')
  then show ?case using usage_inv_step by blast
qed

text \<open>C8: whatever the interleaving of requests, at every moment at most \<open>MaxConcurrency\<close> admitted
  requests of one subject and Oubliette are unfinished, the counter of a key is the number of
  its unfinished requests, and at most \<open>MaxRequestsPerMinute\<close> requests are counted in its
  window.\<close>

theorem quota_invariant:
  assumes "quota_reachable p q"
  shows "(0 < p_MaxConcurrency p \<longrightarrow> int (count_list (q_held q) k) \<le> p_MaxConcurrency p) \<and>
    (\<forall>u. q_usage q k = Some u \<longrightarrow> u_inFlight u = int (count_list (q_held q) k) \<and>
       (0 < p_MaxRequestsPerMinute p \<longrightarrow> u_requests u \<le> p_MaxRequestsPerMinute p))"
proof -
  have "key_inv p (count_list (q_held q) k) (q_usage q k)"
    using quota_reachable_inv[OF assms] by (simp add: usage_inv_def)
  then show ?thesis by (auto simp: key_inv_def split: option.splits)
qed

lemma demo_acquire:
  "acquire 0 demo_scope Map.empty = (Inr (usage_key demo_scope),
     [usage_key demo_scope \<mapsto> \<lparr>u_inFlight = 1, u_window = 0, u_requests = 1\<rparr>])"
  by (simp add: acquire_current Let_def current_def counted_def demo_scope_def hour_policy_def)

definition demo_quota :: quota where
  "demo_quota = \<lparr>q_usage = [usage_key demo_scope \<mapsto> \<lparr>u_inFlight = 1, u_window = 0, u_requests = 1\<rparr>],
     q_held = [usage_key demo_scope], q_log = [(usage_key demo_scope, 0, 0, True)]\<rparr>"

lemma demo_quota_reachable: "quota_reachable hour_policy demo_quota"
proof -
  let ?q0 = "\<lparr>q_usage = Map.empty, q_held = [], q_log = []\<rparr>"
  let ?us = "[usage_key demo_scope \<mapsto> \<lparr>u_inFlight = 1, u_window = 0, u_requests = 1\<rparr>]"
  have "sc_Policy demo_scope = hour_policy" by (simp add: demo_scope_def)
  then have "quota_step hour_policy ?q0 \<lparr>q_usage = ?us, q_held = usage_key demo_scope # q_held ?q0,
      q_log = attempt demo_scope 0 ?us True # q_log ?q0\<rparr>"
    using demo_acquire by (intro quota_step.admit) simp_all
  then show ?thesis using quota_reachable.step[OF quota_reachable.start]
    by (simp add: demo_quota_def attempt_def)
qed

theorem quota_invariant_witness:
  "int (count_list (q_held demo_quota) (usage_key demo_scope)) \<le> 2"
  using quota_invariant[OF demo_quota_reachable, of "usage_key demo_scope"] by (simp add: hour_policy_def)

text \<open>A quota refusal is temporary. A key whose window began at least a minute ago and whose
  unfinished requests are below the concurrency limit is admitted (every limit being zero,
  for none, or positive).\<close>

theorem acquire_after_window:
  assumes "us (usage_key scope) = Some u" and "now - u_window u \<ge> 60000000000"
    and "p_MaxConcurrency (sc_Policy scope) > 0 \<longrightarrow> u_inFlight u < p_MaxConcurrency (sc_Policy scope)"
  shows "\<exists>us'. acquire now scope us = (Inr (usage_key scope), us')"
  using assms by (simp add: acquire_Inr has_room_def current_def)

theorem acquire_after_window_witness:
  "\<exists>us'. acquire 60000000000 demo_scope [usage_key demo_scope \<mapsto> \<lparr>u_inFlight = 1, u_window = 0, u_requests = 10\<rparr>]
     = (Inr (usage_key demo_scope), us')"
  by (rule acquire_after_window[where u = "\<lparr>u_inFlight = 1, u_window = 0, u_requests = 10\<rparr>"])
    (simp_all add: demo_scope_def hour_policy_def)

section \<open>The rate over any minute\<close>

type_synonym attempts = "(string \<times> time \<times> time \<times> bool) list"

definition admissions :: "attempts \<Rightarrow> string \<Rightarrow> (time \<Rightarrow> time \<Rightarrow> bool) \<Rightarrow> nat" where
  "admissions l k P = length (filter (\<lambda>(k', w, t, ok). k' = k \<and> ok \<and> P w t) l)"

text \<open>The clock readings, in the order in which the mutex was taken, do not decrease.\<close>

definition clock_ordered :: "attempts \<Rightarrow> bool" where
  "clock_ordered l \<longleftrightarrow> sorted_wrt (\<lambda>(_, _, t, _) (_, _, t', _). t' \<le> t) l"

definition windows :: "attempts \<Rightarrow> string \<Rightarrow> time set" where
  "windows l k = {w. \<exists>t ok. (k, w, t, ok) \<in> set l}"

text \<open>
  The windows of a key start at least a minute apart, every attempt falls into the minute
  its window starts, and the latest window is the one in the map, with its admissions
  counted.
\<close>

definition window_inv :: "Policy \<Rightarrow> attempts \<Rightarrow> string \<Rightarrow> usage option \<Rightarrow> bool" where
  "window_inv p l k u0 \<longleftrightarrow>
     (\<forall>w t ok. (k, w, t, ok) \<in> set l \<longrightarrow> w \<le> t \<and> t < w + 60000000000) \<and>
     (\<forall>w \<in> windows l k. \<forall>w' \<in> windows l k. w < w' \<longrightarrow> w + 60000000000 \<le> w') \<and>
     (\<forall>w. int (admissions l k (\<lambda>w' _. w' = w)) \<le> p_MaxRequestsPerMinute p) \<and>
     (case u0 of None \<Rightarrow> windows l k = {}
      | Some u \<Rightarrow> u_window u \<in> windows l k \<and> (\<forall>w \<in> windows l k. w \<le> u_window u) \<and>
          int (admissions l k (\<lambda>w' _. w' = u_window u)) = u_requests u)"

lemma windows_Cons:
  "windows ((k', w, t, ok) # l) k = (if k' = k then insert w (windows l k) else windows l k)"
  by (auto simp: windows_def)

lemma admissions_Cons:
  "admissions ((k', w, t, ok) # l) k P = (if k' = k \<and> ok \<and> P w t then 1 else 0) + admissions l k P"
  by (simp add: admissions_def)

lemma admissions_no_window: "w \<notin> windows l k \<Longrightarrow> admissions l k (\<lambda>w' _. w' = w) = 0"
  by (auto simp: admissions_def windows_def filter_empty_conv)

text \<open>The window in which an attempt is counted: the old one, or a new one a minute later.\<close>

lemma current_window:
  assumes "window_inv p l k u0" and "\<forall>w t ok. (k, w, t, ok) \<in> set l \<longrightarrow> t \<le> now"
  defines "cur \<equiv> current now u0"
  shows "u_window cur \<le> now \<and> now < u_window cur + 60000000000 \<and>
    (\<forall>w \<in> windows l k. w = u_window cur \<or> w + 60000000000 \<le> u_window cur) \<and>
    int (admissions l k (\<lambda>w' _. w' = u_window cur)) = u_requests cur"
proof (cases u0)
  case None
  then have "windows l k = {}" using assms(1) by (simp add: window_inv_def)
  then show ?thesis using None by (simp add: cur_def current_def admissions_no_window)
next
  case (Some u)
  then have u: "u_window u \<in> windows l k" "\<forall>w \<in> windows l k. w \<le> u_window u"
    "int (admissions l k (\<lambda>w' _. w' = u_window u)) = u_requests u"
    "\<forall>w \<in> windows l k. \<forall>w' \<in> windows l k. w < w' \<longrightarrow> w + 60000000000 \<le> w'"
    using assms(1) by (auto simp: window_inv_def)
  from u(1) obtain t ok where "(k, u_window u, t, ok) \<in> set l" by (auto simp: windows_def)
  with assms(1,2) have le: "u_window u \<le> now" unfolding window_inv_def by fastforce
  show ?thesis
  proof (cases "now - u_window u \<ge> 60000000000")
    case True
    then have "now \<notin> windows l k" using u(2) by force
    moreover have "u_window cur = now" "u_requests cur = 0" using True Some by (simp_all add: cur_def current_def)
    moreover have "\<forall>w \<in> windows l k. w + 60000000000 \<le> now" using True u(2) by force
    ultimately show ?thesis by (simp add: admissions_no_window)
  next
    case False
    then have "cur = u" using Some by (simp add: cur_def current_def)
    moreover have "\<forall>w \<in> windows l k. w = u_window u \<or> w + 60000000000 \<le> u_window u" using u by force
    ultimately show ?thesis using False u le by simp
  qed
qed

lemma window_inv_attempt:
  assumes inv: "window_inv p l k u0" and past: "\<forall>w t ok. (k, w, t, ok) \<in> set l \<longrightarrow> t \<le> now"
    and u': "u_window u' = u_window (current now u0)"
      "u_requests u' = u_requests (current now u0) + (if ok then 1 else 0)"
    and max: "u_requests u' \<le> p_MaxRequestsPerMinute p"
  shows "window_inv p ((k, u_window u', now, ok) # l) k (Some u')"
proof -
  let ?w = "u_window u'"
  note c = current_window[OF inv past, folded u'(1)]
  have old: "\<forall>w \<in> windows l k. \<forall>w' \<in> windows l k. w < w' \<longrightarrow> w + 60000000000 \<le> w'"
    "\<forall>w t ok. (k, w, t, ok) \<in> set l \<longrightarrow> w \<le> t \<and> t < w + 60000000000"
    "int (admissions l k (\<lambda>w' _. w' = w)) \<le> p_MaxRequestsPerMinute p" for w
    using inv by (auto simp: window_inv_def)
  have n: "int (admissions ((k, ?w, now, ok) # l) k (\<lambda>w' _. w' = ?w)) = u_requests u'"
    using c u'(2) by (simp add: admissions_Cons)
  have "\<forall>w \<in> insert ?w (windows l k). \<forall>w' \<in> insert ?w (windows l k). w < w' \<longrightarrow> w + 60000000000 \<le> w'"
    using old(1) c by fastforce
  moreover have "int (admissions ((k, ?w, now, ok) # l) k (\<lambda>w' _. w' = w)) \<le> p_MaxRequestsPerMinute p" for w
    using n max old(3)[of w] by (cases "w = ?w") (simp_all add: admissions_Cons)
  moreover have "\<forall>w \<in> insert ?w (windows l k). w \<le> ?w" using c by fastforce
  ultimately show ?thesis using n old(2) c unfolding window_inv_def windows_Cons by auto
qed

lemma window_inv_other:
  "k' \<noteq> k \<Longrightarrow> window_inv p ((k', w, t, ok) # l) k u0 = window_inv p l k u0"
  unfolding window_inv_def windows_Cons admissions_Cons by (cases u0) auto

lemma window_inv_step:
  assumes "quota_step p q q'" and "usage_inv p q" and "usage_inv p q'" and "clock_ordered (q_log q')"
    and pos: "0 < p_MaxRequestsPerMinute p" and inv: "window_inv p (q_log q) k (q_usage q k)"
  shows "window_inv p (q_log q') k (q_usage q' k)"
proof -
  have m: "q_usage q' k = Some u \<Longrightarrow> u_requests u \<le> p_MaxRequestsPerMinute p" for u
    using assms(3)[unfolded usage_inv_def, rule_format, of k] pos by (simp add: key_inv_def)
  from assms(1) show ?thesis
  proof cases
    case (admit scope now key us)
    then have us: "us = (q_usage q)(key \<mapsto> counted (current now (q_usage q key)))" "key = usage_key scope"
      by (auto simp: acquire_Inr)
    have past: "\<forall>k w t ok. (k, w, t, ok) \<in> set (q_log q) \<longrightarrow> t \<le> now"
      using assms(4) admit(1) by (fastforce simp: clock_ordered_def attempt_def)
    show ?thesis
    proof (cases "k = key")
      case True
      let ?u = "counted (current now (q_usage q key))"
      have "window_inv p ((k, u_window ?u, now, True) # q_log q) k (Some ?u)"
        using inv past True m[of ?u] admit(1) us
        by (intro window_inv_attempt[of p "q_log q" k "q_usage q k"]) (auto simp: counted_def)
      then show ?thesis using True admit(1) us by (simp add: attempt_def)
    next
      case False
      then show ?thesis using inv admit(1) us by (simp add: attempt_def window_inv_other)
    qed
  next
    case (refuse scope now e us)
    let ?key = "usage_key scope"
    note us = acquire_Inl[OF refuse(3)]
    have past: "\<forall>k w t ok. (k, w, t, ok) \<in> set (q_log q) \<longrightarrow> t \<le> now"
      using assms(4) refuse(1) by (fastforce simp: clock_ordered_def attempt_def)
    show ?thesis
    proof (cases "k = ?key")
      case True
      let ?u = "current now (q_usage q ?key)"
      have "window_inv p ((k, u_window ?u, now, False) # q_log q) k (Some ?u)"
        using inv past True m[of ?u] refuse(1) us
        by (intro window_inv_attempt[of p "q_log q" k "q_usage q k"]) auto
      then show ?thesis using True refuse(1) us by (simp add: attempt_def)
    next
      case False
      then show ?thesis using inv refuse(1) us by (simp add: attempt_def window_inv_other)
    qed
  next
    case (finish key)
    then show ?thesis using inv
      by (auto simp: release_def window_inv_def split: option.splits)
  qed
qed

lemma clock_ordered_step: "quota_step p q q' \<Longrightarrow> clock_ordered (q_log q') \<Longrightarrow> clock_ordered (q_log q)"
  by (erule quota_step.cases) (auto simp: clock_ordered_def)

lemma window_inv_reachable:
  assumes "quota_reachable p q" and "0 < p_MaxRequestsPerMinute p"
  shows "clock_ordered (q_log q) \<Longrightarrow> window_inv p (q_log q) k (q_usage q k)"
  using assms(1)
proof (induction rule: quota_reachable.induct)
  case start
  then show ?case using assms(2) by (simp add: window_inv_def windows_def admissions_def)
next
  case (step q q')
  have "usage_inv p q" "usage_inv p q'"
    using step.hyps quota_reachable_inv usage_inv_step by blast+
  with step show ?case
    using window_inv_step[OF step.hyps(2) _ _ step.prems assms(2)] clock_ordered_step[OF step.hyps(2)] by blast
qed

lemma filter_covered:
  assumes "finite S" and "\<forall>x \<in> set l. P x \<longrightarrow> (\<exists>w \<in> S. Q w x)"
  shows "length (filter P l) \<le> (\<Sum>w \<in> S. length (filter (Q w) l))"
  using assms(2)
proof (induction l)
  case (Cons x l)
  have rest: "length (filter P l) \<le> (\<Sum>w \<in> S. length (filter (Q w) l))" using Cons by simp
  have mono: "length (filter (Q w) l) \<le> length (filter (Q w) (x # l))" for w by simp
  show ?case
  proof (cases "P x")
    case True
    then obtain v where v: "v \<in> S" "Q v x" using Cons.prems by auto
    have "(\<Sum>w \<in> S. length (filter (Q w) l)) < (\<Sum>w \<in> S. length (filter (Q w) (x # l)))"
      using assms(1) v by (intro sum_strict_mono_ex1) auto
    with rest True show ?thesis by simp
  next
    case False
    have "(\<Sum>w \<in> S. length (filter (Q w) l)) \<le> (\<Sum>w \<in> S. length (filter (Q w) (x # l)))"
      by (intro sum_mono mono)
    with rest False show ?thesis by simp
  qed
qed simp

text \<open>Windows at least a minute apart: at most two of them meet a given minute.\<close>

lemma two_windows:
  fixes S :: "int set"
  assumes "finite S" and "\<forall>w \<in> S. \<forall>w' \<in> S. w < w' \<longrightarrow> w + d \<le> w'" and "\<forall>w \<in> S. T - d < w \<and> w < T + d"
  shows "card S \<le> 2"
proof (cases "S = {}")
  case False
  have mm: "Min S \<in> S" "Max S \<in> S" using assms(1) False by simp_all
  have "S \<subseteq> {Min S, Max S}"
  proof
    fix x
    assume x: "x \<in> S"
    show "x \<in> {Min S, Max S}"
    proof (rule ccontr)
      assume "x \<notin> {Min S, Max S}"
      then have "Min S < x" "x < Max S" using x assms(1) by (simp_all add: order_le_neq_trans)
      then have "Min S + d \<le> x" "x + d \<le> Max S" using assms(2) mm x by blast+
      moreover have "T - d < Min S" "Max S < T + d" using assms(3) mm by blast+
      ultimately show False by linarith
    qed
  qed
  then have "card S \<le> card {Min S, Max S}" by (intro card_mono) auto
  also have "\<dots> \<le> 2" by (simp add: card_insert_if)
  finally show ?thesis .
qed simp

text \<open>C10: with clock readings in order, any interval of one minute sees at most twice
  \<open>MaxRequestsPerMinute\<close> admissions of one subject and Oubliette: the windows are fixed, so
  the end of one and the start of the next can fall into the same minute, and nothing
  more.\<close>

theorem rate_over_any_minute:
  assumes "quota_reachable p q" and "clock_ordered (q_log q)" and "0 < p_MaxRequestsPerMinute p"
  shows "int (admissions (q_log q) k (\<lambda>_ t. T \<le> t \<and> t < T + 60000000000)) \<le> 2 * p_MaxRequestsPerMinute p"
proof -
  let ?l = "q_log q" and ?M = "p_MaxRequestsPerMinute p"
  define S where "S = {w \<in> windows ?l k. T - 60000000000 < w \<and> w < T + 60000000000}"
  define Q where "Q = (\<lambda>(w :: time) (k', w', t :: time, ok). k' = k \<and> ok \<and> w' = w)"
  have inv: "window_inv p ?l k (q_usage q k)" by (rule window_inv_reachable[OF assms(1,3,2)])
  have "windows ?l k \<subseteq> (\<lambda>(_, w, _, _). w) ` set ?l" by (force simp: windows_def)
  then have "finite (windows ?l k)" by (rule finite_subset) simp
  then have fin: "finite S" by (simp add: S_def)
  have card: "card S \<le> 2" using fin inv by (intro two_windows[of S 60000000000 T]) (auto simp: S_def window_inv_def)
  have "admissions ?l k (\<lambda>_ t. T \<le> t \<and> t < T + 60000000000) \<le> (\<Sum>w \<in> S. length (filter (Q w) ?l))"
    unfolding admissions_def
  proof (rule filter_covered[OF fin], intro ballI impI)
    fix x
    assume x: "x \<in> set ?l" "case x of (k', w, t, ok) \<Rightarrow> k' = k \<and> ok \<and> T \<le> t \<and> t < T + 60000000000"
    obtain w t where e: "x = (k, w, t, True)" "T \<le> t" "t < T + 60000000000" using x(2) by (cases x) auto
    then have "w \<in> S" using x(1) inv by (fastforce simp: S_def window_inv_def windows_def)
    then show "\<exists>w \<in> S. Q w x" using e by (auto simp: Q_def)
  qed
  moreover have "length (filter (Q w) ?l) \<le> nat ?M" for w
  proof -
    have "int (admissions ?l k (\<lambda>w' _. w' = w)) \<le> ?M" using inv by (simp add: window_inv_def)
    then show ?thesis by (simp add: admissions_def Q_def le_nat_iff)
  qed
  then have "(\<Sum>w \<in> S. length (filter (Q w) ?l)) \<le> card S * nat ?M"
    by (metis (no_types, lifting) of_nat_id sum_bounded_above)
  moreover have "card S * nat ?M \<le> 2 * nat ?M" using card by simp
  ultimately have "admissions ?l k (\<lambda>_ t. T \<le> t \<and> t < T + 60000000000) \<le> 2 * nat ?M" by linarith
  then have "int (admissions ?l k (\<lambda>_ t. T \<le> t \<and> t < T + 60000000000)) \<le> int (2 * nat ?M)"
    by (simp only: of_nat_le_iff)
  then show ?thesis using assms(3) by simp
qed

theorem rate_over_any_minute_witness:
  "int (admissions (q_log demo_quota) (usage_key demo_scope) (\<lambda>_ t. 0 \<le> t \<and> t < 0 + 60000000000)) \<le> 20"
  using rate_over_any_minute[OF demo_quota_reachable, of "usage_key demo_scope" 0]
  by (simp add: demo_quota_def clock_ordered_def hour_policy_def)

section \<open>The handler end to end\<close>

text \<open>The parameters of a request that may be sent upstream for a scope.\<close>

definition scoped_form :: "'e promql \<Rightarrow> Scope \<Rightarrow> string \<Rightarrow> url_values \<Rightarrow> bool" where
  "scoped_form pq scope path form \<longleftrightarrow>
     (path \<in> {''/api/v1/query'', ''/api/v1/query_range''} \<and>
        isolated pq (sc_Policy scope) (sc_Oubliette scope) (sc_TrustDomain scope) (values_Get form ''query'')) \<or>
     (metadataPath path \<and> values_of form ''match[]'' \<noteq> [] \<and>
        (\<forall>q \<in> set (values_of form ''match[]'').
           isolated pq (sc_Policy scope) (sc_Oubliette scope) (sc_TrustDomain scope) q))"

lemma values_Get_Set: "values_Get (values_Set form k v) k = v"
  by (simp add: values_Get_def values_Set_def update_conv')

lemma values_of_update: "values_of (AList.update k vs form) k = vs"
  by (simp add: values_of_def update_conv')

lemma rewriteAll_isolated:
  "promql_laws pq \<Longrightarrow> rewriteAll pq scope ms = Inr ms' \<Longrightarrow> length ms' = length ms \<and>
     (\<forall>q \<in> set ms'. isolated pq (sc_Policy scope) (sc_Oubliette scope) (sc_TrustDomain scope) q)"
  by (induction ms arbitrary: ms') (auto dest: Rewrite_isolated split: sum.splits)

lemma rewriteRequest_scoped:
  assumes "promql_laws pq" and "rewriteRequest pq path form scope event = Inr (form', event')"
  shows "scoped_form pq scope path form'"
proof (cases "path = ''/api/v1/query'' \<or> path = ''/api/v1/query_range''")
  case True
  with assms(2) obtain q where
    "Rewrite pq (sc_Policy scope) (values_Get form ''query'') (sc_Oubliette scope) (sc_TrustDomain scope) = Inr q"
    "form' = values_Set form ''query'' q"
    by (auto simp: rewriteRequest_def Let_def split: if_splits sum.splits)
  with True show ?thesis using Rewrite_isolated[OF assms(1)] by (auto simp: scoped_form_def values_Get_Set)
next
  case False
  with assms(2) obtain ms where m: "metadataPath path" "values_of form ''match[]'' \<noteq> []"
    "rewriteAll pq scope (values_of form ''match[]'') = Inr ms" "form' = AList.update ''match[]'' ms form"
    unfolding rewriteRequest_def Let_def by (auto split: if_splits sum.splits)
  with rewriteAll_isolated[OF assms(1) m(3)] show ?thesis by (auto simp: scoped_form_def values_of_update)
qed

text \<open>What serving an admitted request does: nothing upstream, or one scoped call.\<close>

lemma serveScoped_cases:
  assumes "promql_laws (g_Promql g)" and "serveScoped g now r scope event s = (resp, event', s')"
  obtains (local) e where "s' = s" "gs_Body resp = ErrorBody e"
  | (failed) form e err where "g_Do g (upstreamRequest scope (gr_Path r) form) s = (Inl err, s')"
      "scoped_form (g_Promql g) scope (gr_Path r) form" "gs_Body resp = ErrorBody e"
  | (called) form up where "g_Do g (upstreamRequest scope (gr_Path r) form) s = (Inr up, s')"
      "scoped_form (g_Promql g) scope (gr_Path r) form" "resp = relay scope (gr_Path r) up"
proof (cases "gr_Method r \<noteq> MethodGet \<and> gr_Method r \<noteq> MethodPost")
  case True
  with assms(2) local show thesis by (auto simp: serveScoped_def writeError_def)
next
  case m: False
  show thesis
  proof (cases "gr_Form r")
    case None
    with m assms(2) local show thesis by (auto simp: serveScoped_def writeError_def)
  next
    case (Some form0)
    show thesis
    proof (cases "rewriteRequest (g_Promql g) (gr_Path r) (cloneValues form0) scope event")
      case (Inl e)
      with m Some assms(2) local show thesis by (auto simp: serveScoped_def writeError_def)
    next
      case (Inr fe)
      obtain form event1 where fe: "fe = (form, event1)" by (cases fe)
      note sf = rewriteRequest_scoped[OF assms(1) Inr[unfolded fe]]
      show thesis using m Some Inr fe sf assms(2) local failed[of form] called[of form]
        by (auto simp: serveScoped_def writeError_def Let_def split: option.splits if_splits prod.splits sum.splits)
    qed
  qed
qed

lemma relay_JsonBody:
  assumes "gs_Body (relay scope path up) = JsonBody out"
  shows "\<exists>v full. unmarshal out = Some v \<and> clean (sc_Policy scope) v \<and> up_Body up = Some full \<and>
    int (length full) \<le> sint (responseLimit (sc_Policy scope)) \<and>
    (0 < p_MaxSamples (sc_Policy scope) \<longrightarrow> samples_of v \<le> p_MaxSamples (sc_Policy scope))"
proof -
  let ?p = "sc_Policy scope" and ?n = "nat (sint (responseLimit (sc_Policy scope) + 1))"
  from assms obtain full samples where b: "up_Body up = Some full"
    "\<not> int (length (take ?n full)) > sint (responseLimit ?p)" "filterResponse (take ?n full) ?p path = Some (out, samples)"
    "\<not> (0 < p_MaxSamples ?p \<and> samples > p_MaxSamples ?p)"
    unfolding relay_def Let_def writeError_def by (auto split: option.splits if_splits prod.splits)
  from filterResponse_facts[OF b(3)] obtain v where v: "unmarshal out = Some v" "clean ?p v" "samples_of v \<le> samples"
    by blast
  have lim: "0 < sint (responseLimit ?p)" by (simp add: responseLimit_def)
  have "sint (responseLimit ?p) \<noteq> 2 ^ 63 - 1"
  proof
    assume a: "sint (responseLimit ?p) = 2 ^ 63 - 1"
    have "sint (responseLimit ?p + 1) = - (2 ^ 63)"
    proof -
      have "responseLimit ?p = of_int (2 ^ 63 - 1)" by (simp only: a[symmetric]) simp
      then show ?thesis by simp
    qed
    then have "take ?n full = []" by simp
    with b(3) show False by (simp add: filterResponse_def decode_first_def parse_def skip_space_def)
  qed
  then have "sint (responseLimit ?p) + 1 < 2 ^ 63" using sint64_upper[of "responseLimit ?p"] by simp
  then have "sint (responseLimit ?p + 1) = sint (responseLimit ?p) + 1"
    using sint_plus64[of "responseLimit ?p" 1] lim by simp
  then have "int (length full) \<le> sint (responseLimit ?p)" using b(2) lim by (simp add: min_def split: if_splits)
  with v b show ?thesis by auto
qed

definition scopedEvent :: "time \<Rightarrow> string \<Rightarrow> Scope \<Rightarrow> AuditEvent" where
  "scopedEvent now path scope = (newEvent now path)\<lparr>ev_Subject := sc_Subject scope, ev_Oubliette := sc_Oubliette scope\<rparr>"

lemma ServeHTTP_cases:
  assumes "g_Resolver g = Some resolve" and "ServeHTTP g now0 now1 now2 r us s = (resp, ev, us', s')"
  obtains (unauthorized) e where "resolve (gr_Authorization r) s = (Inl e, s')" "us' = us"
      "resp = writeError StatusUnauthorized Unauthorized"
  | (refused) scope e where "resolve (gr_Authorization r) s = (Inr scope, s')"
      "acquire now1 scope us = (Inl e, us')" "resp = writeError StatusTooManyRequests e"
  | (served) scope s1 key us1 ev2 where "resolve (gr_Authorization r) s = (Inr scope, s1)"
      "acquire now1 scope us = (Inr key, us1)" "us' = release key us1"
      "serveScoped g now2 r scope (scopedEvent now0 (gr_Path r) scope) s1 = (resp, ev2, s')"
      "ev = ev2\<lparr>ev_Status := gs_Status resp\<rparr>"
proof (cases "resolve (gr_Authorization r) s")
  case (Pair x s1)
  show thesis
  proof (cases x)
    case (Inl e)
    with Pair assms unauthorized show thesis by (auto simp: ServeHTTP_def Let_def)
  next
    case (Inr scope)
    obtain y us1 where acq: "acquire now1 scope us = (y, us1)" by (cases "acquire now1 scope us")
    show thesis
    proof (cases y)
      case (Inl e)
      with Pair Inr acq assms refused show thesis by (auto simp: ServeHTTP_def Let_def)
    next
      case key: (Inr key)
      obtain resp2 ev2 s2 where ss: "serveScoped g now2 r scope (scopedEvent now0 (gr_Path r) scope) s1 = (resp2, ev2, s2)"
        by (metis surj_pair)
      with Pair Inr acq key assms have "resp = resp2" "s' = s2" "us' = release key us1"
        "ev = ev2\<lparr>ev_Status := gs_Status resp\<rparr>"
        by (auto simp: ServeHTTP_def Let_def scopedEvent_def)
      with Pair Inr acq key ss served show thesis by blast
    qed
  qed
qed

text \<open>The lemmas of a gateway behind an arbitrary resolver that keeps the interface's promises.\<close>

context scope_resolver
begin

lemma serve_upstream:
  assumes "promql_laws (g_Promql g)" and "g_Resolver g = Some resolve"
    and "ServeHTTP g now0 now1 now2 r us s = (resp, ev, us', s')"
  shows "s' = snd (resolve (gr_Authorization r) s) \<or>
    (\<exists>scope form. granted s (gr_Authorization r) scope \<and> sc_Oubliette scope \<noteq> '''' \<and>
       scoped_form (g_Promql g) scope (gr_Path r) form \<and>
       s' = snd (g_Do g (upstreamRequest scope (gr_Path r) form) (snd (resolve (gr_Authorization r) s))))"
  using assms(2,3)
proof (cases rule: ServeHTTP_cases)
  case (served scope s1 key us1 ev2)
  with resolve_granted[OF served(1)] resolve_scope[OF served(1)] show ?thesis
    by (cases rule: serveScoped_cases[OF assms(1) served(4)]) force+
qed simp_all

lemma serve_body:
  assumes "promql_laws (g_Promql g)" and "g_Resolver g = Some resolve"
    and "ServeHTTP g now0 now1 now2 r us s = (resp, ev, us', s')" and "gs_Body resp = JsonBody out"
  shows "\<exists>scope v. granted s (gr_Authorization r) scope \<and> unmarshal out = Some v \<and> clean (sc_Policy scope) v \<and>
    (0 < p_MaxSamples (sc_Policy scope) \<longrightarrow> samples_of v \<le> p_MaxSamples (sc_Policy scope))"
  using assms(2,3)
proof (cases rule: ServeHTTP_cases)
  case (served scope s1 key us1 ev2)
  from assms(1) served(4) show ?thesis
  proof (cases rule: serveScoped_cases)
    case (called form up)
    with assms(4) relay_JsonBody[of scope "gr_Path r" up out] resolve_granted[OF served(1)] show ?thesis by blast
  qed (use assms(4) in simp_all)
qed (use assms(4) in \<open>simp_all add: writeError_def\<close>)

end

definition inFlight :: "usages \<Rightarrow> string \<Rightarrow> int" where
  "inFlight us k = (case us k of None \<Rightarrow> 0 | Some u \<Rightarrow> u_inFlight u)"

lemma current_inFlight: "u_inFlight (current now u0) = (case u0 of None \<Rightarrow> 0 | Some u \<Rightarrow> u_inFlight u)"
  by (auto simp: current_def Let_def split: option.splits)

lemma acquire_inFlight:
  "acquire now scope us = (Inl e, us') \<Longrightarrow> inFlight us' k = inFlight us k"
  "acquire now scope us = (Inr key, us') \<Longrightarrow> inFlight (release key us') k = inFlight us k"
  by (auto simp: acquire_Inr inFlight_def release_def counted_def current_inFlight dest!: acquire_Inl split: option.splits if_splits)

section \<open>An instance of the gateway\<close>

text \<open>A gateway over the small query language whose upstream answers one body.\<close>

definition demo_gateway :: "(mini_expr, Oubliette list) Gateway" where
  "demo_gateway = \<lparr>g_Promql = mini_promql,
     g_Resolver = Some (KubernetesResolver_Resolve listmeta demo_resolver 200000000000 200000000000 200000000000),
     g_Parse = \<lparr>parsePromTime = (\<lambda>_. None), parsePromDuration = (\<lambda>_. None), rangePoints = (\<lambda>_ _. 0)\<rparr>,
     g_ParseURL = (\<lambda>_. Some (''http'', ''prom'')), g_RequestOK = (\<lambda>_ _. True),
     g_Do = (\<lambda>_ s. (Inr \<lparr>up_Status = 200, up_Body = Some demo_body\<rparr>, []))\<rparr>"

definition demo_request :: gw_request where
  "demo_request = \<lparr>gr_Method = MethodGet, gr_Path = ''/api/v1/query'', gr_Authorization = bearer @ demo_token,
     gr_Form = Some [(''query'', [up_query])]\<rparr>"

lemma demo_relay:
  "relay demo_scope ''/api/v1/query'' \<lparr>up_Status = 200, up_Body = Some demo_body\<rparr>
     = \<lparr>gs_Status = 200, gs_Body = JsonBody (encode (JObj [(''value'', JNum ''1'')]))\<rparr>"
proof -
  have "length demo_body = 24" by code_simp
  moreover have "responseLimit hour_policy = 1024" by (simp add: responseLimit_def hour_policy_def)
  ultimately show ?thesis using demo_body_filtered
    by (simp add: relay_def demo_scope_def) (simp add: hour_policy_def)
qed

lemma demo_serves:
  "\<exists>ev us'. ServeHTTP demo_gateway 0 0 0 demo_request Map.empty [demo_obj]
     = (\<lparr>gs_Status = 200, gs_Body = JsonBody (encode (JObj [(''value'', JNum ''1'')]))\<rparr>, ev, us', [])"
proof -
  obtain q where "Rewrite mini_promql hour_policy up_query ''demo'' ''td'' = Inr q"
    using up_query_accepted[of "''demo''" "''td''"] by auto
  moreover have "up_query \<noteq> ''''" by (simp add: up_query_def mini_enc_def)
  ultimately have rw: "\<exists>form ev'. rewriteRequest mini_promql ''/api/v1/query'' (cloneValues [(''query'', [up_query])]) demo_scope ev
      = Inr (form, ev') \<and> values_Get form ''time'' = ''''" for ev
    by (simp add: rewriteRequest_def cloneValues_def values_Get_def values_Set_def demo_scope_def)
  have sc: "sc_Policy demo_scope = hour_policy" by (simp add: demo_scope_def)
  have np: "\<not> metadataPath ''/api/v1/query''" by code_simp
  have ss: "\<exists>ev'. serveScoped demo_gateway now demo_request demo_scope ev s
      = (relay demo_scope ''/api/v1/query'' \<lparr>up_Status = 200, up_Body = Some demo_body\<rparr>, ev', [])" for now ev s
  proof -
    obtain form ev' where "rewriteRequest mini_promql ''/api/v1/query'' (cloneValues [(''query'', [up_query])]) demo_scope ev
      = Inr (form, ev')" "values_Get form ''time'' = ''''" using rw by blast
    then show ?thesis
      by (simp add: serveScoped_def demo_gateway_def demo_request_def validateBudget_def validateInstant_def np Let_def)
  qed
  have g: "g_Resolver demo_gateway = Some (KubernetesResolver_Resolve listmeta demo_resolver 200000000000 200000000000 200000000000)"
    "gr_Path demo_request = ''/api/v1/query''" "gr_Authorization demo_request = bearer @ demo_token"
    by (simp_all add: demo_gateway_def demo_request_def)
  obtain ev' where "serveScoped demo_gateway 0 demo_request demo_scope ((newEvent 0 ''/api/v1/query'')
      \<lparr>ev_Subject := sc_Subject demo_scope, ev_Oubliette := sc_Oubliette demo_scope\<rparr>) [demo_obj]
      = (relay demo_scope ''/api/v1/query'' \<lparr>up_Status = 200, up_Body = Some demo_body\<rparr>, ev', [])" using ss by blast
  then show ?thesis unfolding ServeHTTP_def Let_def g
    by (simp only: option.case g demo_resolves demo_acquire prod.case sum.case demo_relay) blast
qed

section \<open>Properties of the handler\<close>

text \<open>C1: behind the Kubernetes resolver, the gateway calls the upstream at most once per request,
  and only for a bearer of a token that grants a scope; the call goes to a query or metadata
  endpoint, and the query (or every one of the \<open>match[]\<close> selectors, of which there is at
  least one) selects only series of the scope's Oubliette, trust domain and allowed
  metrics.\<close>

theorem upstream_only_scoped:
  assumes "promql_laws (g_Promql g)"
    and "g_Resolver g = Some (KubernetesResolver_Resolve am kr n1 n2 n3)"
    and "ServeHTTP g now0 now1 now2 r us s = (resp, ev, us', s')"
  shows "s' = snd (KubernetesResolver_Resolve am kr n1 n2 n3 (gr_Authorization r) s) \<or>
    (\<exists>scope form. token_grants am kr n1 n2 n3 s (gr_Authorization r) scope \<and>
       scoped_form (g_Promql g) scope (gr_Path r) form \<and>
       s' = snd (g_Do g (upstreamRequest scope (gr_Path r) form)
                  (snd (KubernetesResolver_Resolve am kr n1 n2 n3 (gr_Authorization r) s))))"
  using kubescope.serve_upstream[OF assms] by blast

theorem upstream_only_scoped_witness:
  "\<exists>scope form. token_grants listmeta demo_resolver 200000000000 200000000000 200000000000 [demo_obj]
     (bearer @ demo_token) scope \<and> scoped_form mini_promql scope ''/api/v1/query'' form"
proof -
  obtain ev us' where "ServeHTTP demo_gateway 0 0 0 demo_request Map.empty [demo_obj]
     = (\<lparr>gs_Status = 200, gs_Body = JsonBody (encode (JObj [(''value'', JNum ''1'')]))\<rparr>, ev, us', [])"
    using demo_serves by blast
  from upstream_only_scoped[OF _ _ this] show ?thesis
    using mini_laws demo_resolves by (fastforce simp: demo_gateway_def demo_request_def)
qed

text \<open>C9: a JSON body the gateway returns was granted by the bearer's token, and holds no member
  with a sensitive name at any depth and no more samples than the budget.\<close>

theorem served_body_clean:
  assumes "promql_laws (g_Promql g)"
    and "g_Resolver g = Some (KubernetesResolver_Resolve am kr n1 n2 n3)"
    and "ServeHTTP g now0 now1 now2 r us s = (resp, ev, us', s')" and "gs_Body resp = JsonBody out"
  shows "\<exists>scope v. token_grants am kr n1 n2 n3 s (gr_Authorization r) scope \<and> unmarshal out = Some v \<and>
    clean (sc_Policy scope) v \<and>
    (0 < p_MaxSamples (sc_Policy scope) \<longrightarrow> samples_of v \<le> p_MaxSamples (sc_Policy scope))"
  by (rule kubescope.serve_body[OF assms])

theorem served_body_clean_witness:
  "\<exists>scope v. token_grants listmeta demo_resolver 200000000000 200000000000 200000000000 [demo_obj]
     (bearer @ demo_token) scope \<and> unmarshal (encode (JObj [(''value'', JNum ''1'')])) = Some v \<and> clean (sc_Policy scope) v"
proof -
  obtain ev us' where "ServeHTTP demo_gateway 0 0 0 demo_request Map.empty [demo_obj]
     = (\<lparr>gs_Status = 200, gs_Body = JsonBody (encode (JObj [(''value'', JNum ''1'')]))\<rparr>, ev, us', [])"
    using demo_serves by blast
  from served_body_clean[OF _ _ this] show ?thesis
    using mini_laws by (fastforce simp: demo_gateway_def demo_request_def)
qed

text \<open>Every request gives back what it took: after \<open>ServeHTTP\<close> returns, on whichever path,
  the number of requests in flight is what it was for every key.\<close>

theorem serve_releases:
  "inFlight (fst (snd (snd (ServeHTTP g now0 now1 now2 r us s)))) k = inFlight us k"
proof -
  obtain resp ev us' s' where e: "ServeHTTP g now0 now1 now2 r us s = (resp, ev, us', s')" by (metis surj_pair)
  show ?thesis
  proof (cases "g_Resolver g")
    case None
    then show ?thesis by (simp add: ServeHTTP_def Let_def)
  next
    case (Some resolve)
    from Some e show ?thesis
      by (cases rule: ServeHTTP_cases) (simp_all add: e acquire_inFlight)
  qed
qed

text \<open>A range query that passes the budget has a start, an end and a positive step that parse;
  under a lookback policy it spans at most the lookback and starts no earlier than the
  lookback before now, and its step and number of points are within the policy.\<close>

theorem range_budget_enforced:
  assumes "validateBudget pp now ''/api/v1/query_range'' form p = None"
    and "0 < sint (p_MaxLookback p)" and "sint (p_MaxLookback p) < 2 ^ 63 - 1"
  shows "\<exists>start stop step. parsePromTime pp (values_Get form ''start'') = Some start \<and>
    parsePromTime pp (values_Get form ''end'') = Some stop \<and>
    parsePromDuration pp (values_Get form ''step'') = Some step \<and> start \<le> stop \<and> 0 < sint step \<and>
    stop - start \<le> sint (p_MaxLookback p) \<and> now - sint (p_MaxLookback p) \<le> start \<and>
    (0 < sint (p_MinStep p) \<longrightarrow> sint (p_MinStep p) \<le> sint step) \<and>
    (0 < p_MaxSamples p \<longrightarrow> rangePoints pp (Time_Sub stop start) step < p_MaxSamples p)"
proof -
  from assms(1) have "validateRange pp now form p = None" by (auto simp: validateBudget_def split: option.splits)
  then obtain start stop step where s: "parsePromTime pp (values_Get form ''start'') = Some start"
    "parsePromTime pp (values_Get form ''end'') = Some stop"
    "parsePromDuration pp (values_Get form ''step'') = Some step" "\<not> stop < start" "\<not> sint step \<le> 0"
    "\<not> (sint (Time_Sub stop start) > sint (p_MaxLookback p) \<or> start < Time_Add now (- p_MaxLookback p))"
    "\<not> (sint (p_MinStep p) > 0 \<and> sint step < sint (p_MinStep p))"
    "\<not> (p_MaxSamples p > 0 \<and> rangePoints pp (Time_Sub stop start) step + 1 > p_MaxSamples p)"
    using assms(2) unfolding validateRange_def by (auto split: option.splits if_splits)
  have "sint (- p_MaxLookback p) = - sint (p_MaxLookback p)" using assms(2,3) by (intro sint_uminus64) simp
  with s(6) have "now - sint (p_MaxLookback p) \<le> start" by (simp add: Time_Add_def)
  moreover have "stop - start \<le> sint (p_MaxLookback p)" using s(6) assms(3) by (auto simp: sint_Time_Sub)
  ultimately show ?thesis using s by (intro exI[of _ start] exI[of _ stop] exI[of _ step]) auto
qed

definition demo_parse :: promparse where
  "demo_parse = \<lparr>parsePromTime = (\<lambda>s. Some (int (length s))), parsePromDuration = (\<lambda>s. Some Minute),
     rangePoints = (\<lambda>_ _. 5)\<rparr>"

theorem range_budget_enforced_witness:
  "\<exists>start stop step. parsePromTime demo_parse ''x'' = Some start \<and> parsePromTime demo_parse ''xx'' = Some stop \<and>
     parsePromDuration demo_parse ''m'' = Some step \<and> stop - start \<le> 3600000000000"
proof -
  let ?form = "[(''start'', [''x'']), (''end'', [''xx'']), (''step'', [''m''])]"
  have f: "values_Get ?form ''start'' = ''x''" "values_Get ?form ''end'' = ''xx''" "values_Get ?form ''step'' = ''m''"
    by (simp_all add: values_Get_def)
  have "\<not> metadataPath ''/api/v1/query_range''" by code_simp
  then have "validateBudget demo_parse 5 ''/api/v1/query_range'' ?form hour_policy = None"
    unfolding validateBudget_def validateRange_def f
    by (simp add: demo_parse_def hour_policy_def Time_Add_def sint_Time_Sub sint_uminus64)
  from range_budget_enforced[OF this] show ?thesis unfolding f by (fastforce simp: hour_policy_def)
qed

end
