(* ===== verification/MetricsAccess.thy ===== *)
theory MetricsAccess
  imports MetricsToken Lifecycle
begin

text \<open>
  Issuing metrics credentials, \<open>internal/metricsaccess\<close>: the issuer signs a token for a live
  Oubliette and hands it to a delivery sink (\<open>issuer.go\<close>), the sinks store it in a Secret or
  pass it to a connector (\<open>sinks.go\<close>), and an HTTP handler issues on behalf of a trusted
  caller (\<open>http.go\<close>). The \<open>DeliverySink\<close> interface is the locale \<open>delivery_sink\<close>,
  interpreted on both sinks.
\<close>

section \<open>The issuer\<close>

definition PlacementResident :: string where "PlacementResident = ''resident''"
definition PlacementExternal :: string where "PlacementExternal = ''external''"

record Request =
  rq_Subject :: string
  rq_Oubliette :: string
  rq_Placement :: string
  rq_TTL :: duration

datatype sink_err = SinkIncomplete | SinkApi api_err | ConnectorUnavailable

datatype access_err = RequestIncomplete | AccessUnavailable | IssueFailed issue_err | SinkFailed sink_err

text \<open>A sink delivers an endpoint identity, a credential and its expiry.\<close>

type_synonym 's sink = "string \<Rightarrow> string \<Rightarrow> time \<Rightarrow> 's \<Rightarrow> sink_err option \<times> 's"

definition effectiveTTL :: "duration \<Rightarrow> duration" where
  "effectiveTTL ttl = (if sint ttl \<le> 0 then 5 * Minute else ttl)"

definition unavailable :: "apimeta \<Rightarrow> time \<Rightarrow> Oubliette \<Rightarrow> bool" where
  "unavailable am now obj \<longleftrightarrow> \<not> optIsZero (o_DeletionTimestamp obj) \<or> \<not> now < spec_ExpiresAt (o_Spec obj) \<or>
     IsStatusConditionTrue am (st_Conditions (o_Status obj)) ConditionForgotten \<or>
     \<not> IsStatusConditionTrue am (st_Conditions (o_Status obj)) ConditionMetricsReady \<or>
     st_MetricsEndpoint (o_Status obj) = '''' \<or> st_MetricsTrustDomain (o_Status obj) = ''''"

definition accessClaims :: "TokenCodec \<Rightarrow> time \<Rightarrow> Request \<Rightarrow> Oubliette \<Rightarrow> Claims" where
  "accessClaims codec now request obj = \<lparr>tk_Subject = rq_Subject request, tk_Oubliette = o_Name obj,
     tk_TrustDomain = st_MetricsTrustDomain (o_Status obj), tk_Audience = k_Audience codec,
     tk_IssuedUnix = Time_Unix now, tk_ExpiresUnix = Time_Unix (Time_Add now (effectiveTTL (rq_TTL request)))\<rparr>"

definition IssueTo ::
  "apimeta \<Rightarrow> 's oub_client option \<Rightarrow> TokenCodec \<Rightarrow> time \<Rightarrow> time \<Rightarrow> Request \<Rightarrow> 's sink option \<Rightarrow> 's
   \<Rightarrow> access_err option \<times> 's" where
  "IssueTo am client codec now codecNow request sink s =
     (case (client, sink) of
        (Some C, Some deliver) \<Rightarrow>
          if rq_Subject request = '''' \<or> rq_Oubliette request = '''' \<or>
             (rq_Placement request \<noteq> PlacementResident \<and> rq_Placement request \<noteq> PlacementExternal)
          then (Some RequestIncomplete, s)
          else (case cl_Get C (rq_Oubliette request) s of
            (Inl e, s1) \<Rightarrow> (Some AccessUnavailable, s1)
          | (Inr obj, s1) \<Rightarrow>
              if unavailable am now obj then (Some AccessUnavailable, s1)
              else (case Issue codec codecNow (accessClaims codec now request obj) of
                Inl e \<Rightarrow> (Some (IssueFailed e), s1)
              | Inr token \<Rightarrow>
                  (case deliver (st_MetricsEndpoint (o_Status obj)) token
                          (Time_Add now (effectiveTTL (rq_TTL request))) s1 of
                     (None, s2) \<Rightarrow> (None, s2)
                   | (Some e, s2) \<Rightarrow> (Some (SinkFailed e), s2))))
      | _ \<Rightarrow> (Some RequestIncomplete, s))"

section \<open>The sinks\<close>

record Secret =
  sec_Namespace :: string
  sec_Name :: string
  sec_ResourceVersion :: string
  sec_Annotations :: "smap option"
  sec_Type :: string
  sec_Data :: smap

record 's secret_client =
  sec_Get :: "string \<Rightarrow> string \<Rightarrow> 's \<Rightarrow> (api_err + Secret) \<times> 's"
  sec_Create :: "Secret \<Rightarrow> 's \<Rightarrow> api_err option \<times> 's"
  sec_Update :: "Secret \<Rightarrow> 's \<Rightarrow> api_err option \<times> 's"

definition newSecret :: "string \<Rightarrow> string \<Rightarrow> Secret" where
  "newSecret namespace name = \<lparr>sec_Namespace = namespace, sec_Name = name, sec_ResourceVersion = '''',
     sec_Annotations = None, sec_Type = '''', sec_Data = Map.empty\<rparr>"

definition EndpointAnnotation :: string where
  "EndpointAnnotation = ''oubliette.tlrmchlsmth.github.io/metrics-endpoint''"

definition ExpiresAnnotation :: string where
  "ExpiresAnnotation = ''oubliette.tlrmchlsmth.github.io/expires-at''"

definition withCredential :: "string \<Rightarrow> string \<Rightarrow> time \<Rightarrow> Secret \<Rightarrow> Secret" where
  "withCredential endpoint credential expiresAt secret =
     (let ann = (case sec_Annotations secret of None \<Rightarrow> Map.empty | Some m \<Rightarrow> m) in
      secret\<lparr>sec_Annotations := Some (ann(EndpointAnnotation \<mapsto> endpoint, ExpiresAnnotation \<mapsto> FormatRFC3339 expiresAt)),
             sec_Type := ''Opaque'', sec_Data := [''credential'' \<mapsto> credential]\<rparr>)"

definition writeSecret :: "'s secret_client \<Rightarrow> Secret \<Rightarrow> 's \<Rightarrow> sink_err option \<times> 's" where
  "writeSecret SC secret s =
     (case (if sec_ResourceVersion secret = '''' then sec_Create SC secret s else sec_Update SC secret s) of
        (None, s1) \<Rightarrow> (None, s1) | (Some e, s1) \<Rightarrow> (Some (SinkApi e), s1))"

definition KubernetesSecretSink :: "'s secret_client option \<Rightarrow> string \<Rightarrow> string \<Rightarrow> 's sink" where
  "KubernetesSecretSink client namespace name endpoint credential expiresAt s =
     (case client of None \<Rightarrow> (Some SinkIncomplete, s) | Some SC \<Rightarrow>
        if namespace = '''' \<or> name = '''' \<or> endpoint = '''' \<or> credential = '''' then (Some SinkIncomplete, s)
        else (case sec_Get SC namespace name s of
          (Inl e, s1) \<Rightarrow>
            if IsNotFound e
            then writeSecret SC (withCredential endpoint credential expiresAt (newSecret namespace name)) s1
            else (Some (SinkApi e), s1)
        | (Inr secret, s1) \<Rightarrow> writeSecret SC (withCredential endpoint credential expiresAt secret) s1))"

definition ConnectorSink :: "'s sink option \<Rightarrow> 's sink" where
  "ConnectorSink f endpoint credential expiresAt s =
     (case f of None \<Rightarrow> (Some ConnectorUnavailable, s) | Some deliver \<Rightarrow> deliver endpoint credential expiresAt s)"

section \<open>The HTTP handler\<close>

record issueRequest =
  ir_Subject :: string
  ir_Oubliette :: string
  ir_Placement :: string
  ir_TTLSeconds :: int64

record issueResponse =
  is_EndpointIdentity :: string
  is_Credential :: string
  is_ExpiresAt :: string

definition zeroRequest :: issueRequest where
  "zeroRequest = \<lparr>ir_Subject = '''', ir_Oubliette = '''', ir_Placement = '''', ir_TTLSeconds = 0\<rparr>"

definition zeroResponse :: issueResponse where
  "zeroResponse = \<lparr>is_EndpointIdentity = '''', is_Credential = '''', is_ExpiresAt = ''''\<rparr>"

text \<open>Decoding with \<open>DisallowUnknownFields\<close>.\<close>

definition setRequestField :: "string \<times> json \<Rightarrow> issueRequest \<Rightarrow> issueRequest option" where
  "setRequestField m q = (let k = fst m; v = snd m in
     if field_is ''subject'' k then map_option (\<lambda>x. q\<lparr>ir_Subject := x\<rparr>) (set_string v (ir_Subject q))
     else if field_is ''oubliette'' k then map_option (\<lambda>x. q\<lparr>ir_Oubliette := x\<rparr>) (set_string v (ir_Oubliette q))
     else if field_is ''placement'' k then map_option (\<lambda>x. q\<lparr>ir_Placement := x\<rparr>) (set_string v (ir_Placement q))
     else if field_is ''ttlSeconds'' k then map_option (\<lambda>x. q\<lparr>ir_TTLSeconds := x\<rparr>) (set_int64 v (ir_TTLSeconds q))
     else None)"

fun setRequestFields :: "(string \<times> json) list \<Rightarrow> issueRequest \<Rightarrow> issueRequest option" where
  "setRequestFields [] q = Some q"
| "setRequestFields (m # ms) q = (case setRequestField m q of None \<Rightarrow> None | Some q' \<Rightarrow> setRequestFields ms q')"

text \<open>
  The decoder reads at most 16 KiB; it does not look past the first value, so a longer body is
  refused only when that value is not complete within the limit.
\<close>

definition decodeRequest :: "string \<Rightarrow> issueRequest option" where
  "decodeRequest body = (case decode_first (take 16384 body) of
     Some (JObj ms) \<Rightarrow> setRequestFields ms zeroRequest
   | Some JNull \<Rightarrow> Some zeroRequest
   | _ \<Rightarrow> None)"

definition responseJson :: "issueResponse \<Rightarrow> json" where
  "responseJson r = JObj [(''endpointIdentity'', JStr (is_EndpointIdentity r)),
     (''credential'', JStr (is_Credential r)), (''expiresAt'', JStr (is_ExpiresAt r))]"

text \<open>The closure of the handler stores what it is given in the variable \<open>response\<close>.\<close>

definition captureSink :: "('s \<times> issueResponse) sink" where
  "captureSink = ConnectorSink (Some (\<lambda>endpoint credential expiresAt (s, _).
     (None, (s, \<lparr>is_EndpointIdentity = endpoint, is_Credential = credential,
                is_ExpiresAt = FormatRFC3339 expiresAt\<rparr>))))"

text \<open>The issuer runs on the cluster state; the local variable is threaded beside it.\<close>

definition liftClient :: "'s oub_client \<Rightarrow> ('s \<times> 'v) oub_client" where
  "liftClient C =
     (let lift = (\<lambda>f (s, v). case f s of (x, s') \<Rightarrow> (x, (s', v)));
          lift' = (\<lambda>f (s, v). case f s of (x, s') \<Rightarrow> (x, (s', v))) in
      \<lparr>cl_Get = (\<lambda>n. lift (cl_Get C n)), cl_List = (\<lambda>(s, v). case cl_List C s of (x, s') \<Rightarrow> (x, (s', v))),
       cl_Create = (\<lambda>x. lift (cl_Create C x)), cl_Update = (\<lambda>x. lift (cl_Update C x)),
       cl_Delete = (\<lambda>x. lift' (cl_Delete C x)), cl_StatusPatch = (\<lambda>x b. lift (cl_StatusPatch C x b))\<rparr>)"

definition accessHTTP ::
  "apimeta \<Rightarrow> 's oub_client option \<Rightarrow> TokenCodec \<Rightarrow> string \<Rightarrow> time \<Rightarrow> time \<Rightarrow> http_request \<Rightarrow> 's
   \<Rightarrow> http_response \<times> 's" where
  "accessHTTP am client codec bearerToken now codecNow r s =
     (if rq_Method r \<noteq> MethodPost
      then (http_Error [(''Allow'', MethodPost)] ''method not allowed'' StatusMethodNotAllowed, s)
      else let got = rq_Authorization r; want = bearer @ bearerToken in
      if bearerToken = '''' \<or> length got \<noteq> length want \<or> got \<noteq> want
      then (http_Error [(''WWW-Authenticate'', ''Bearer'')] ''unauthorized'' StatusUnauthorized, s)
      else (case decodeRequest (rq_Body r) of
        None \<Rightarrow> (http_Error [] ''invalid request'' StatusBadRequest, s)
      | Some request \<Rightarrow>
          if sint (ir_TTLSeconds request) < 0 then (http_Error [] ''invalid request'' StatusBadRequest, s)
          else (case IssueTo am (map_option liftClient client) codec now codecNow
                  \<lparr>rq_Subject = ir_Subject request, rq_Oubliette = ir_Oubliette request,
                   rq_Placement = ir_Placement request, rq_TTL = ir_TTLSeconds request * Second\<rparr>
                  (Some captureSink) (s, zeroResponse) of
            (Some e, (s1, _)) \<Rightarrow> (http_Error [] ''metrics access is unavailable'' StatusForbidden, s1)
          | (None, (s1, response)) \<Rightarrow>
              (\<lparr>rs_Status = StatusOK, rs_Headers = [(''Content-Type'', ''application/json''), (''Cache-Control'', ''no-store'')],
                rs_Body = encode (responseJson response) @ [CHR 0x0A]\<rparr>, s1))))"

section \<open>The DeliverySink interface\<close>

text \<open>
  What the issuer relies on: a delivery that reports success has been received, with the
  endpoint, the credential and the expiry it was given. \<open>received\<close> relates the states before
  and after.
\<close>

locale delivery_sink =
  fixes deliver :: "'s sink" and received :: "'s \<Rightarrow> 's \<Rightarrow> string \<Rightarrow> string \<Rightarrow> time \<Rightarrow> bool"
  assumes delivered: "deliver endpoint credential expiresAt s = (None, s') \<Longrightarrow>
    received s s' endpoint credential expiresAt"
begin

lemma issued_delivered:
  assumes "IssueTo am client codec now codecNow request (Some deliver) s = (None, s')"
  shows "\<exists>C obj s1 token. client = Some C \<and> cl_Get C (rq_Oubliette request) s = (Inr obj, s1) \<and>
    rq_Subject request \<noteq> '''' \<and> \<not> unavailable am now obj \<and>
    Issue codec codecNow (accessClaims codec now request obj) = Inr token \<and>
    received s1 s' (st_MetricsEndpoint (o_Status obj)) token (Time_Add now (effectiveTTL (rq_TTL request)))"
proof -
  from assms obtain C where C: "client = Some C" by (cases client) (auto simp: IssueTo_def)
  with assms obtain obj s1 token where "cl_Get C (rq_Oubliette request) s = (Inr obj, s1)"
    "rq_Subject request \<noteq> ''''" "\<not> unavailable am now obj"
    "Issue codec codecNow (accessClaims codec now request obj) = Inr token"
    "deliver (st_MetricsEndpoint (o_Status obj)) token (Time_Add now (effectiveTTL (rq_TTL request))) s1 = (None, s')"
    by (auto simp: IssueTo_def split: if_splits prod.splits sum.splits option.splits)
  with C delivered show ?thesis by blast
qed

end

text \<open>One call of the client wrote a secret that holds exactly the credential: a new one under the sink's namespace and name when there was none, or
  else the one found there, under the version that was read.\<close>

definition secret_written :: "'s secret_client \<Rightarrow> string \<Rightarrow> string \<Rightarrow> 's \<Rightarrow> 's \<Rightarrow> string \<Rightarrow> string \<Rightarrow> time \<Rightarrow> bool" where
  "secret_written SC namespace name s s' endpoint credential expiresAt \<longleftrightarrow>
     (\<exists>secret found s1 ann. sec_Get SC namespace name s = (found, s1) \<and>
        (case found of
           Inl e \<Rightarrow> IsNotFound e \<and> sec_Namespace secret = namespace \<and> sec_Name secret = name \<and> sec_Create SC secret s1 = (None, s')
         | Inr old \<Rightarrow> sec_Namespace secret = sec_Namespace old \<and> sec_Name secret = sec_Name old \<and> sec_ResourceVersion secret = sec_ResourceVersion old \<and>
             (sec_ResourceVersion old \<noteq> '''' \<longrightarrow> sec_Update SC secret s1 = (None, s')) \<and> (sec_ResourceVersion old = '''' \<longrightarrow> sec_Create SC secret s1 = (None, s'))) \<and>
        sec_Data secret = [''credential'' \<mapsto> credential] \<and> sec_Type secret = ''Opaque'' \<and> sec_Annotations secret = Some ann \<and>
        ann ''oubliette.tlrmchlsmth.github.io/metrics-endpoint'' = Some endpoint \<and>
        ann ''oubliette.tlrmchlsmth.github.io/expires-at'' = Some (FormatRFC3339 expiresAt) \<and> namespace \<noteq> '''' \<and> name \<noteq> '''' \<and> credential \<noteq> '''')"

lemma withCredential_fields:
  "sec_Data (withCredential endpoint credential expiresAt x) = [''credential'' \<mapsto> credential]"
  "sec_Type (withCredential endpoint credential expiresAt x) = ''Opaque''"
  "sec_Namespace (withCredential endpoint credential expiresAt x) = sec_Namespace x"
  "sec_Name (withCredential endpoint credential expiresAt x) = sec_Name x"
  "sec_ResourceVersion (withCredential endpoint credential expiresAt x) = sec_ResourceVersion x"
  "\<exists>ann. sec_Annotations (withCredential endpoint credential expiresAt x) = Some ann \<and>
     ann ''oubliette.tlrmchlsmth.github.io/metrics-endpoint'' = Some endpoint \<and>
     ann ''oubliette.tlrmchlsmth.github.io/expires-at'' = Some (FormatRFC3339 expiresAt)"
  by (simp_all add: withCredential_def Let_def EndpointAnnotation_def ExpiresAnnotation_def)

lemma SecretSink_written:
  assumes "KubernetesSecretSink (Some SC) namespace name endpoint credential expiresAt s = (None, s')"
  shows "secret_written SC namespace name s s' endpoint credential expiresAt"
proof -
  have w: "(if sec_ResourceVersion x = '''' then sec_Create SC x t else sec_Update SC x t) = (None, s')" if "writeSecret SC x t = (None, s')" for x t
    using that by (auto simp: writeSecret_def split: prod.splits option.splits)
  have n: "sec_ResourceVersion (newSecret namespace name) = ''''" "sec_Namespace (newSecret namespace name) = namespace"
    "sec_Name (newSecret namespace name) = name" by (simp_all add: newSecret_def)
  from assms have pre: "namespace \<noteq> ''''" "name \<noteq> ''''" "credential \<noteq> ''''" by (auto simp: KubernetesSecretSink_def split: if_splits)
  obtain found s1 where g: "sec_Get SC namespace name s = (found, s1)" by fastforce
  show ?thesis
  proof (cases found)
    case (Inl e)
    with assms g pre have "IsNotFound e" "writeSecret SC (withCredential endpoint credential expiresAt (newSecret namespace name)) s1 = (None, s')"
      by (auto simp: KubernetesSecretSink_def split: if_splits)
    with w[of "withCredential endpoint credential expiresAt (newSecret namespace name)" s1] g Inl pre
      withCredential_fields[of endpoint credential expiresAt "newSecret namespace name"]
    show ?thesis unfolding secret_written_def n by fastforce
  next
    case (Inr old)
    with assms g pre have "writeSecret SC (withCredential endpoint credential expiresAt old) s1 = (None, s')"
      by (auto simp: KubernetesSecretSink_def split: if_splits)
    with w[of "withCredential endpoint credential expiresAt old" s1] g Inr pre withCredential_fields[of endpoint credential expiresAt old]
    show ?thesis unfolding secret_written_def by (intro exI[of _ "withCredential endpoint credential expiresAt old"] exI[of _ "Inr old"]) auto
  qed
qed

interpretation resident: delivery_sink "KubernetesSecretSink (Some SC) namespace name" "secret_written SC namespace name"
  for SC :: "'s secret_client" and namespace name :: string
  by unfold_locales (rule SecretSink_written)

definition captured :: "'s \<times> issueResponse \<Rightarrow> 's \<times> issueResponse \<Rightarrow> string \<Rightarrow> string \<Rightarrow> time \<Rightarrow> bool" where
  "captured s s' endpoint credential expiresAt \<longleftrightarrow> s' = (fst s, \<lparr>is_EndpointIdentity = endpoint,
     is_Credential = credential, is_ExpiresAt = FormatRFC3339 expiresAt\<rparr>)"

interpretation external: delivery_sink captureSink captured
  by unfold_locales (auto simp: captureSink_def ConnectorSink_def captured_def)

lemma liftClient_Get:
  "cl_Get (liftClient C) n (s, v) = (Inr obj, s1) \<Longrightarrow> cl_Get C n s = (Inr obj, fst s1)"
  by (auto simp: liftClient_def split: prod.splits)

section \<open>Properties\<close>

text \<open>An Oubliette whose metrics may be accessed: not being deleted, not expired, not forgotten, with metrics reported ready under an endpoint
  and a trust domain.\<close>

definition accessible :: "apimeta \<Rightarrow> time \<Rightarrow> Oubliette \<Rightarrow> bool" where
  "accessible am now obj \<longleftrightarrow> optIsZero (o_DeletionTimestamp obj) \<and> now < spec_ExpiresAt (o_Spec obj) \<and>
     \<not> IsStatusConditionTrue am (st_Conditions (o_Status obj)) ConditionForgotten \<and>
     IsStatusConditionTrue am (st_Conditions (o_Status obj)) ConditionMetricsReady \<and>
     st_MetricsEndpoint (o_Status obj) \<noteq> '''' \<and> st_MetricsTrustDomain (o_Status obj) \<noteq> ''''"

lemma available_accessible: "\<not> unavailable am now obj \<Longrightarrow> accessible am now obj"
  by (auto simp: unavailable_def accessible_def)

text \<open>A token signed by the codec that says: this subject, this Oubliette in its trust domain, for the codec's audience, from now until the expiry.\<close>

definition token_for :: "TokenCodec \<Rightarrow> time \<Rightarrow> time \<Rightarrow> string \<Rightarrow> Oubliette \<Rightarrow> time \<Rightarrow> string \<Rightarrow> bool" where
  "token_for codec now codecNow subject obj expiresAt token \<longleftrightarrow>
     Issue codec codecNow \<lparr>tk_Subject = subject, tk_Oubliette = o_Name obj, tk_TrustDomain = st_MetricsTrustDomain (o_Status obj),
       tk_Audience = k_Audience codec, tk_IssuedUnix = Time_Unix now, tk_ExpiresUnix = Time_Unix expiresAt\<rparr> = Inr token"

lemma effectiveTTL_iff: "effectiveTTL t = (if 0 < sint t then t else 5 * Minute)"
  by (auto simp: effectiveTTL_def)

lemma issued_token_for:
  assumes "Issue codec codecNow (accessClaims codec now request obj) = Inr token"
  shows "token_for codec now codecNow (rq_Subject request) obj
    (Time_Add now (if 0 < sint (rq_TTL request) then rq_TTL request else 5 * Minute)) token"
  using assms unfolding token_for_def accessClaims_def effectiveTTL_iff .

text \<open>C37: a successful issue to a resident sink fetched the requested Oubliette from the API, found it live and with metrics ready,
  and wrote one opaque Secret under the sink's namespace and name (a new one, or the one read there, under the version read). The Secret's only content is a token, signed by the codec, for
  the requesting subject, that Oubliette, its trust domain and the codec's audience, valid from now for the requested time (five minutes when none is requested);
  its annotations give the endpoint and the same expiry.\<close>

theorem resident_issue_sound:
  assumes "IssueTo am client codec now codecNow request (Some (KubernetesSecretSink (Some SC) namespace name)) s = (None, s')"
  shows "\<exists>C obj s1 token expiresAt. client = Some C \<and> cl_Get C (rq_Oubliette request) s = (Inr obj, s1) \<and> accessible am now obj \<and>
    expiresAt = Time_Add now (if 0 < sint (rq_TTL request) then rq_TTL request else 5 * Minute) \<and>
    token_for codec now codecNow (rq_Subject request) obj expiresAt token \<and>
    secret_written SC namespace name s1 s' (st_MetricsEndpoint (o_Status obj)) token expiresAt"
  using resident.issued_delivered[OF assms] available_accessible issued_token_for unfolding effectiveTTL_iff by metis

definition demo_secrets :: "Oubliette list secret_client" where
  "demo_secrets = \<lparr>sec_Get = (\<lambda>ns n s. (Inl (NotFound n), s)), sec_Create = (\<lambda>_ s. (None, s)),
     sec_Update = (\<lambda>_ s. (None, s))\<rparr>"

definition demo_access :: Request where
  "demo_access = \<lparr>rq_Subject = ''agent'', rq_Oubliette = ''demo'', rq_Placement = ''external'', rq_TTL = 0\<rparr>"

lemma demo_available: "t < 300000000000 \<Longrightarrow> \<not> unavailable listmeta t demo_obj"
  by (simp add: unavailable_def demo_obj_def optIsZero_def listmeta_def condition_names)

lemma demo_get: "cl_Get memclient ''demo'' [demo_obj] = (Inr demo_obj, [demo_obj])"
  by (simp add: memclient_def mem_find_def demo_obj_def)

lemma demo_access_issue:
  "\<exists>token. Issue demo_codec 0 (accessClaims demo_codec 100000000000 demo_access demo_obj) = Inr token"
  by (simp add: Issue_Inr_iff accessClaims_def demo_access_def demo_obj_def demo_codec_def issued_def lifetimeOK_def
      Time_Unix_def Time_Add_def effectiveTTL_def maxTTL_def go_defs Let_def)

lemma token_nonempty: "Issue c now claims = Inr token \<Longrightarrow> token \<noteq> []"
  by (auto simp: Issue_Inr_iff Let_def)

lemma demo_issue_to:
  "IssueTo listmeta (Some memclient) demo_codec 100000000000 0 demo_access
     (Some (KubernetesSecretSink (Some demo_secrets) ''ns'' ''name'')) [demo_obj] = (None, [demo_obj])"
proof -
  obtain token where t: "Issue demo_codec 0 (accessClaims demo_codec 100000000000 demo_access demo_obj) = Inr token"
    using demo_access_issue by blast
  have d: "rq_Subject demo_access = ''agent''" "rq_Oubliette demo_access = ''demo''" "rq_Placement demo_access = PlacementExternal"
    "st_MetricsEndpoint (o_Status demo_obj) = ''ep''"
    by (simp_all add: demo_access_def demo_obj_def PlacementExternal_def)
  show ?thesis using t token_nonempty[OF t] demo_get demo_available[of 100000000000]
    by (simp add: IssueTo_def d KubernetesSecretSink_def demo_secrets_def writeSecret_def newSecret_def
        withCredential_def Let_def)
qed

theorem resident_issue_sound_witness:
  "\<exists>obj s1 token expiresAt. cl_Get memclient ''demo'' [demo_obj] = (Inr obj, s1) \<and> token_for demo_codec 100000000000 0 ''agent'' obj expiresAt token \<and>
     secret_written demo_secrets ''ns'' ''name'' s1 [demo_obj] (st_MetricsEndpoint (o_Status obj)) token expiresAt"
  using resident_issue_sound[OF demo_issue_to] by (fastforce simp: demo_access_def)

text \<open>A success of the handler: who was asked, what was signed and what was answered.\<close>

lemma accessHTTP_issued:
  assumes "accessHTTP am client codec bearerToken now codecNow r s = (resp, s')" and "rs_Status resp = StatusOK"
  obtains q C obj token where "rq_Method r = MethodPost" "bearerToken \<noteq> ''''" "rq_Authorization r = bearer @ bearerToken"
    "decodeRequest (rq_Body r) = Some q" "client = Some C" "cl_Get C (ir_Oubliette q) s = (Inr obj, s')" "\<not> unavailable am now obj"
    "Issue codec codecNow (accessClaims codec now \<lparr>rq_Subject = ir_Subject q, rq_Oubliette = ir_Oubliette q,
       rq_Placement = ir_Placement q, rq_TTL = ir_TTLSeconds q * Second\<rparr> obj) = Inr token"
    "rs_Body resp = encode (responseJson \<lparr>is_EndpointIdentity = st_MetricsEndpoint (o_Status obj), is_Credential = token,
       is_ExpiresAt = FormatRFC3339 (Time_Add now (effectiveTTL (ir_TTLSeconds q * Second)))\<rparr>) @ [CHR 0x0A]"
proof -
  have pre: "rq_Method r = MethodPost" "bearerToken \<noteq> ''''" "rq_Authorization r = bearer @ bearerToken"
    using assms by (auto simp: accessHTTP_def Let_def http_Error_def status_defs split: if_splits)
  from assms pre obtain q where q: "decodeRequest (rq_Body r) = Some q"
    by (auto simp: accessHTTP_def Let_def http_Error_def status_defs split: option.splits)
  let ?req = "\<lparr>rq_Subject = ir_Subject q, rq_Oubliette = ir_Oubliette q, rq_Placement = ir_Placement q,
      rq_TTL = ir_TTLSeconds q * Second\<rparr>"
  from assms pre q obtain s1 r1 where i: "IssueTo am (map_option liftClient client) codec now codecNow ?req
      (Some captureSink) (s, zeroResponse) = (None, (s1, r1))" and s1: "s' = s1"
    and b: "rs_Body resp = encode (responseJson r1) @ [CHR 0x0A]"
    by (auto simp: accessHTTP_def Let_def http_Error_def status_defs split: if_splits prod.splits option.splits)
  from external.issued_delivered[OF i] obtain C obj s2 token where d: "client = Some C"
    "cl_Get (liftClient C) (ir_Oubliette q) (s, zeroResponse) = (Inr obj, s2)" "\<not> unavailable am now obj"
    "Issue codec codecNow (accessClaims codec now ?req obj) = Inr token"
    "(s1, r1) = (fst s2, \<lparr>is_EndpointIdentity = st_MetricsEndpoint (o_Status obj), is_Credential = token,
       is_ExpiresAt = FormatRFC3339 (Time_Add now (effectiveTTL (ir_TTLSeconds q * Second)))\<rparr>)"
    by (auto simp: captured_def)
  have "cl_Get C (ir_Oubliette q) s = (Inr obj, s')" using liftClient_Get[OF d(2)] d(5) s1 by simp
  with pre q d b show thesis by (intro that[of q C obj token]) simp_all
qed

text \<open>C38: the HTTP handler answers with success only to a POST with the configured, non-empty bearer token whose body decodes to a request; the Oubliette it names, as the API
  returns it, is live with metrics ready. The body is then the JSON of the Oubliette's endpoint, of a token signed by the codec for the requested
  subject and that Oubliette, and of one expiry that is both what the token says and what is answered: the requested seconds from now (their product taken in 64 bits), or five minutes when that is not
  positive.\<close>

theorem access_http_sound:
  assumes "accessHTTP am client codec bearerToken now codecNow r s = (resp, s')" and "rs_Status resp = StatusOK"
  shows "rq_Method r = MethodPost \<and> bearerToken \<noteq> '''' \<and> rq_Authorization r = ''Bearer '' @ bearerToken \<and>
    (\<exists>request C obj token expiresAt. decodeRequest (rq_Body r) = Some request \<and> client = Some C \<and>
       cl_Get C (ir_Oubliette request) s = (Inr obj, s') \<and> accessible am now obj \<and>
       expiresAt = Time_Add now (if 0 < sint (ir_TTLSeconds request * Second) then ir_TTLSeconds request * Second else 5 * Minute) \<and>
       token_for codec now codecNow (ir_Subject request) obj expiresAt token \<and>
       rs_Body resp = encode (JObj [(''endpointIdentity'', JStr (st_MetricsEndpoint (o_Status obj))), (''credential'', JStr token),
         (''expiresAt'', JStr (FormatRFC3339 expiresAt))]) @ [CHR 0x0A])"
proof -
  obtain q C obj token where h: "rq_Method r = MethodPost" "bearerToken \<noteq> ''''" "rq_Authorization r = bearer @ bearerToken"
    "decodeRequest (rq_Body r) = Some q" "client = Some C" "cl_Get C (ir_Oubliette q) s = (Inr obj, s')" "\<not> unavailable am now obj"
    "Issue codec codecNow (accessClaims codec now \<lparr>rq_Subject = ir_Subject q, rq_Oubliette = ir_Oubliette q,
       rq_Placement = ir_Placement q, rq_TTL = ir_TTLSeconds q * Second\<rparr> obj) = Inr token"
    "rs_Body resp = encode (responseJson \<lparr>is_EndpointIdentity = st_MetricsEndpoint (o_Status obj), is_Credential = token,
       is_ExpiresAt = FormatRFC3339 (Time_Add now (effectiveTTL (ir_TTLSeconds q * Second)))\<rparr>) @ [CHR 0x0A]"
    by (rule accessHTTP_issued[OF assms])
  let ?x = "Time_Add now (if 0 < sint (ir_TTLSeconds q * Second) then ir_TTLSeconds q * Second else 5 * Minute)"
  have "rq_Authorization r = ''Bearer '' @ bearerToken" using h(3) by (simp add: bearer_def)
  moreover have "token_for codec now codecNow (ir_Subject q) obj ?x token" using issued_token_for[OF h(8)] by (simp only: Request.simps)
  moreover have "rs_Body resp = encode (JObj [(''endpointIdentity'', JStr (st_MetricsEndpoint (o_Status obj))), (''credential'', JStr token),
      (''expiresAt'', JStr (FormatRFC3339 ?x))]) @ [CHR 0x0A]" unfolding h(9) responseJson_def effectiveTTL_iff by simp
  ultimately show ?thesis using h(1,2,4-6) available_accessible[OF h(7)] by blast
qed

definition demo_access_request :: http_request where
  "demo_access_request = \<lparr>rq_Method = MethodPost, rq_Path = ''/'', rq_Authorization = bearer @ ''s'',
     rq_Body = encode (JObj [(''subject'', JStr ''agent''), (''oubliette'', JStr ''demo''), (''placement'', JStr ''external'')])\<rparr>"

lemma demo_decode:
  "decodeRequest (rq_Body demo_access_request) = Some \<lparr>ir_Subject = ''agent'', ir_Oubliette = ''demo'',
     ir_Placement = ''external'', ir_TTLSeconds = 0\<rparr>"
proof -
  have "length (rq_Body demo_access_request) = 61" by code_simp
  then have "take 16384 (rq_Body demo_access_request) = rq_Body demo_access_request" by simp
  moreover have "decode_first (rq_Body demo_access_request) =
      Some (JObj [(''subject'', JStr ''agent''), (''oubliette'', JStr ''demo''), (''placement'', JStr ''external'')])"
    by code_simp
  moreover have "setRequestFields [(''subject'', JStr ''agent''), (''oubliette'', JStr ''demo''), (''placement'', JStr ''external'')] zeroRequest
      = Some \<lparr>ir_Subject = ''agent'', ir_Oubliette = ''demo'', ir_Placement = ''external'', ir_TTLSeconds = 0\<rparr>"
    by code_simp
  ultimately show ?thesis by (simp add: decodeRequest_def)
qed

lemma demo_access_ok:
  "\<exists>resp. accessHTTP listmeta (Some memclient) demo_codec ''s'' 100000000000 0 demo_access_request [demo_obj] = (resp, [demo_obj])
     \<and> rs_Status resp = StatusOK"
proof -
  obtain token where t: "Issue demo_codec 0 (accessClaims demo_codec 100000000000 demo_access demo_obj) = Inr token"
    using demo_access_issue by blast
  have d: "rq_Subject demo_access = ''agent''" "rq_Oubliette demo_access = ''demo''" "rq_Placement demo_access = PlacementExternal"
    by (simp_all add: demo_access_def PlacementExternal_def)
  have g: "cl_Get (liftClient memclient) ''demo'' ([demo_obj], v) = (Inr demo_obj, ([demo_obj], v))" for v :: issueResponse
    using demo_get by (simp add: liftClient_def)
  have "\<exists>r. IssueTo listmeta (Some (liftClient memclient)) demo_codec 100000000000 0 demo_access (Some captureSink) ([demo_obj], zeroResponse)
      = (None, ([demo_obj], r))"
    using t g demo_available[of 100000000000]
    by (simp add: IssueTo_def d captureSink_def ConnectorSink_def)
  then show ?thesis using demo_decode
    by (auto simp: accessHTTP_def demo_access_request_def Let_def demo_access_def)
qed

theorem access_http_sound_witness:
  "\<exists>token resp. token_for demo_codec 100000000000 0 ''agent'' demo_obj 400000000000 token \<and>
     accessHTTP listmeta (Some memclient) demo_codec ''s'' 100000000000 0 demo_access_request [demo_obj] = (resp, [demo_obj]) \<and>
     rs_Body resp = encode (JObj [(''endpointIdentity'', JStr ''ep''), (''credential'', JStr token), (''expiresAt'', JStr (FormatRFC3339 400000000000))]) @ [CHR 0x0A]"
proof -
  obtain resp where r: "accessHTTP listmeta (Some memclient) demo_codec ''s'' 100000000000 0 demo_access_request [demo_obj] = (resp, [demo_obj])"
    "rs_Status resp = StatusOK" using demo_access_ok by blast
  have t: "Time_Add 100000000000 (if 0 < sint (0 * Second) then 0 * Second else 5 * Minute) = 400000000000" by code_simp
  have e: "st_MetricsEndpoint (o_Status demo_obj) = ''ep''" by (simp add: demo_obj_def)
  from access_http_sound[OF r, THEN conjunct2, THEN conjunct2, THEN conjunct2] demo_decode demo_get r(1) t e show ?thesis by auto
qed

text \<open>The seconds of a request are multiplied in 64 bits and may wrap to just under 292 years,
  which the token codec's own check then takes for a negative lifetime. A request for
  33831688342692755 seconds, half a second past a full second, makes the issuer sign a token
  of 9223372037 seconds under a limit of 15 minutes.\<close>

theorem access_ttl_wraps:
  "\<exists>token. Issue demo_codec now (accessClaims demo_codec 100500000000
       (demo_access\<lparr>rq_TTL := 33831688342692755 * Second\<rparr>) demo_obj) = Inr token \<and>
     sint (tk_ExpiresUnix (accessClaims demo_codec 100500000000
       (demo_access\<lparr>rq_TTL := 33831688342692755 * Second\<rparr>) demo_obj))
     - sint (tk_IssuedUnix (accessClaims demo_codec 100500000000
       (demo_access\<lparr>rq_TTL := 33831688342692755 * Second\<rparr>) demo_obj)) = 9223372037 \<and>
     sint (maxTTL demo_codec) = 900000000000"
  by (simp add: Issue_Inr_iff accessClaims_def demo_access_def demo_obj_def demo_codec_def issued_def lifetimeOK_def
      Time_Unix_def Time_Add_def effectiveTTL_def maxTTL_def go_defs Let_def)

end
