(* ===== verification/Profile.thy ===== *)
theory Profile
  imports Prelude
begin

text \<open>
  Operator-owned profiles, \<open>internal/profile/profile.go\<close>. Quantities are the literals that
  \<open>resource.MustParse\<close> reads.
\<close>

definition StubGeneration :: string where "StubGeneration = ''stub-v1''"

record EvidenceRetentionPolicy =
  er_Generation :: string
  er_QueryableMetricsDays :: int
  er_RawEvidenceDays :: int
  er_ProvenanceSummaryDays :: int

record MetricsProfile =
  mp_Enabled :: bool
  mp_Generation :: string
  mp_EndpointPrefix :: string
  mp_IsolationScope :: string
  mp_TrustDomain :: string
  mp_AllowedMetrics :: "string list"
  mp_TrustedLabels :: "string list"
  mp_SensitiveLabels :: "string list"
  mp_ReuseGPUTelemetry :: bool
  mp_MaxLookbackSeconds :: int64
  mp_MinStepSeconds :: int64
  mp_MaxExecutionSeconds :: int64
  mp_MaxSamples :: int
  mp_MaxResponseBytes :: int64
  mp_MaxConcurrency :: int
  mp_MaxRequestsPerMinute :: int
  mp_Retention :: EvidenceRetentionPolicy

type_synonym quota_list = "(string \<times> string) list"

record Profile =
  pf_Generation :: string
  pf_Quota :: quota_list
  pf_Metrics :: MetricsProfile

definition disabledMetrics :: MetricsProfile where
  "disabledMetrics = \<lparr>mp_Enabled = False, mp_Generation = '''', mp_EndpointPrefix = '''', mp_IsolationScope = '''',
     mp_TrustDomain = '''', mp_AllowedMetrics = [], mp_TrustedLabels = [], mp_SensitiveLabels = [],
     mp_ReuseGPUTelemetry = False, mp_MaxLookbackSeconds = 0, mp_MinStepSeconds = 0, mp_MaxExecutionSeconds = 0,
     mp_MaxSamples = 0, mp_MaxResponseBytes = 0, mp_MaxConcurrency = 0, mp_MaxRequestsPerMinute = 0,
     mp_Retention = \<lparr>er_Generation = '''', er_QueryableMetricsDays = 0, er_RawEvidenceDays = 0,
       er_ProvenanceSummaryDays = 0\<rparr>\<rparr>"

definition stubQuota :: quota_list where
  "stubQuota = [(''pods'', ''8''), (''requests.cpu'', ''4''), (''requests.memory'', ''8Gi''), (''limits.cpu'', ''8''),
     (''limits.memory'', ''16Gi''), (''requests.ephemeral-storage'', ''10Gi''), (''limits.ephemeral-storage'', ''20Gi''),
     (''configmaps'', ''40''), (''secrets'', ''80''), (''services'', ''20''), (''services.nodeports'', ''0''),
     (''services.loadbalancers'', ''0''), (''persistentvolumeclaims'', ''0'')]"

datatype profile_err = UnsupportedTier string

definition profile_Resolve :: "string \<Rightarrow> profile_err + Profile" where
  "profile_Resolve tier =
     (if tier \<noteq> ''stub'' then Inl (UnsupportedTier tier)
      else Inr \<lparr>pf_Generation = StubGeneration, pf_Quota = stubQuota, pf_Metrics = disabledMetrics\<rparr>)"

lemma profile_Resolve_stub: "profile_Resolve tier = Inr p \<Longrightarrow> tier = ''stub'' \<and> pf_Generation p = StubGeneration"
  by (auto simp: profile_Resolve_def split: if_splits)

end
