(* ===== verification/Boundary.thy ===== *)
theory Boundary
  imports Kube Profile
begin

text \<open>
  The host-side boundary of an Oubliette, \<open>internal/controller/resources.go\<close>: its namespace,
  quota, network policies and Kueue queue, and the removal of the namespace. The API client,
  \<open>controllerutil.CreateOrUpdate\<close> and \<open>SetControllerReference\<close> are parameters.
\<close>

section \<open>Objects\<close>

definition EnforcedLabel :: string where "EnforcedLabel = ''oubliette.tlrmchlsmth.github.io/enforced''"
definition IDLabel :: string where "IDLabel = ''oubliette.tlrmchlsmth.github.io/id''"
definition ManagedByLabel :: string where "ManagedByLabel = ''vcluster.loft.sh/managed-by''"
definition KueueQueueName :: string where "KueueQueueName = ''oubliette''"

type_synonym labels = "(string \<times> string) list"

datatype policy_type = Ingress | Egress

record peer =
  pe_NamespaceSelector :: "labels option"
  pe_PodSelector :: "labels option"

record network_policy =
  np_PodSelector :: labels
  np_PolicyTypes :: "policy_type list"
  np_Ingress :: "peer list list"
  np_Egress :: "peer list list"

text \<open>An object of the boundary without its controller reference, which is \<open>k_Owner\<close>.\<close>

datatype kspec =
    NamespaceSpec "smap option"
  | QuotaSpec quota_list
  | NetworkPolicySpec network_policy
  | LocalQueueSpec string

record kobject =
  k_Namespace :: string
  k_Name :: string
  k_Spec :: kspec
  k_Owner :: "string option"

definition emptyPolicy :: network_policy where
  "emptyPolicy = \<lparr>np_PodSelector = [], np_PolicyTypes = [], np_Ingress = [], np_Egress = []\<rparr>"

datatype boundary_err =
    BoundaryApi api_err
  | AlreadyOwned
  | KueueLabelsRequired
  | ClusterQueueMissing string
  | ClusterQueueError string api_err
  | LocalQueueError boundary_err

record Namespace =
  n_Name :: string
  n_DeletionTimestamp :: "time option"

text \<open>
  \<open>createOrUpdate\<close> reads the object with the name and namespace of its first argument, applies
  the mutation to what it found or to the argument, and writes the result; an error of the
  mutation is returned.
\<close>

record 's cluster =
  createOrUpdate :: "kobject \<Rightarrow> (kobject \<Rightarrow> boundary_err + kobject) \<Rightarrow> 's \<Rightarrow> boundary_err option \<times> 's"
  setControllerReference :: "Oubliette \<Rightarrow> kobject \<Rightarrow> boundary_err + kobject"
  getNamespace :: "string \<Rightarrow> 's \<Rightarrow> (api_err + Namespace) \<times> 's"
  removeNamespace :: "Namespace \<Rightarrow> 's \<Rightarrow> api_err option \<times> 's"
  getClusterQueue :: "string \<Rightarrow> 's \<Rightarrow> api_err option \<times> 's"

record boundary_config =
  bc_KueueClusterQueue :: string
  bc_KueueManagedLabel :: string
  bc_KueueManagedValue :: string
  bc_MetricsEnabled :: bool
  bc_MetricsServiceNamespace :: string

section \<open>Mutations\<close>

definition mutateNamespace :: "boundary_config \<Rightarrow> Oubliette \<Rightarrow> kobject \<Rightarrow> boundary_err + kobject" where
  "mutateNamespace c obj ns =
     (let labels0 = (case k_Spec ns of NamespaceSpec (Some m) \<Rightarrow> m | _ \<Rightarrow> Map.empty);
          labels1 = labels0(EnforcedLabel \<mapsto> ''true'', IDLabel \<mapsto> o_Name obj) in
      if bc_KueueClusterQueue c \<noteq> '''' \<and> (bc_KueueManagedLabel c = '''' \<or> bc_KueueManagedValue c = '''')
      then Inl KueueLabelsRequired
      else Inr (ns\<lparr>k_Spec := NamespaceSpec (Some
        (if bc_KueueClusterQueue c \<noteq> '''' then labels1(bc_KueueManagedLabel c \<mapsto> bc_KueueManagedValue c) else labels1))\<rparr>))"

definition workloadSelector :: "Oubliette \<Rightarrow> labels" where
  "workloadSelector obj = [(ManagedByLabel, o_Name obj)]"

definition controlPlaneSelector :: "Oubliette \<Rightarrow> labels" where
  "controlPlaneSelector obj = [(''app'', ''vcluster''), (''release'', o_Name obj)]"

definition podPeer :: "labels \<Rightarrow> peer" where
  "podPeer sel = \<lparr>pe_NamespaceSelector = None, pe_PodSelector = Some sel\<rparr>"

definition denyPolicy :: "Oubliette \<Rightarrow> network_policy" where
  "denyPolicy obj = \<lparr>np_PodSelector = workloadSelector obj, np_PolicyTypes = [Ingress, Egress], np_Ingress = [], np_Egress = []\<rparr>"

definition intraPolicy :: "Oubliette \<Rightarrow> network_policy" where
  "intraPolicy obj = \<lparr>np_PodSelector = workloadSelector obj, np_PolicyTypes = [Ingress, Egress],
     np_Ingress = [[podPeer (workloadSelector obj)]],
     np_Egress = [[podPeer (workloadSelector obj), podPeer (controlPlaneSelector obj)]]\<rparr>"

definition metricsPolicy :: "boundary_config \<Rightarrow> Oubliette \<Rightarrow> network_policy" where
  "metricsPolicy c obj = \<lparr>np_PodSelector = workloadSelector obj, np_PolicyTypes = [Egress], np_Ingress = [],
     np_Egress = [[\<lparr>pe_NamespaceSelector = Some [(''kubernetes.io/metadata.name'', bc_MetricsServiceNamespace c)],
                    pe_PodSelector = Some [(''app'', ''oubliette-metrics'')]\<rparr>]]\<rparr>"

text \<open>Setting the specification and then the controller reference.\<close>

definition setSpec :: "'s cluster \<Rightarrow> Oubliette \<Rightarrow> kspec \<Rightarrow> kobject \<Rightarrow> boundary_err + kobject" where
  "setSpec K obj spec x = setControllerReference K obj (x\<lparr>k_Spec := spec\<rparr>)"

definition newObject :: "string \<Rightarrow> string \<Rightarrow> kspec \<Rightarrow> kobject" where
  "newObject namespace name spec = \<lparr>k_Namespace = namespace, k_Name = name, k_Spec = spec, k_Owner = None\<rparr>"

section \<open>Operations\<close>

definition ensureKueue :: "'s cluster \<Rightarrow> boundary_config \<Rightarrow> Oubliette \<Rightarrow> string \<Rightarrow> 's \<Rightarrow> boundary_err option \<times> 's" where
  "ensureKueue K c obj namespace s =
     (if bc_KueueClusterQueue c = '''' then (None, s)
      else (case getClusterQueue K (bc_KueueClusterQueue c) s of
        (Some e, s1) \<Rightarrow>
          (if IsNotFound e then (Some (ClusterQueueMissing (bc_KueueClusterQueue c)), s1)
           else (Some (ClusterQueueError (bc_KueueClusterQueue c) e), s1))
      | (None, s1) \<Rightarrow>
          (case createOrUpdate K (newObject namespace KueueQueueName (LocalQueueSpec ''''))
                  (setSpec K obj (LocalQueueSpec (bc_KueueClusterQueue c))) s1 of
             (Some e, s2) \<Rightarrow> (Some (LocalQueueError e), s2)
           | (None, s2) \<Rightarrow> (None, s2))))"

text \<open>The objects of the boundary after the namespace and the queue, in the order they are
  written.\<close>

definition boundaryObjects :: "boundary_config \<Rightarrow> Oubliette \<Rightarrow> Profile \<Rightarrow> (string \<times> kspec) list" where
  "boundaryObjects c obj p =
     [(''stub'', QuotaSpec (pf_Quota p)),
      (''workload-default-deny'', NetworkPolicySpec (denyPolicy obj)),
      (''workload-intra-oubliette'', NetworkPolicySpec (intraPolicy obj))] @
     (if bc_MetricsEnabled c then [(''workload-metrics-egress'', NetworkPolicySpec (metricsPolicy c obj))] else [])"

definition emptySpec :: "kspec \<Rightarrow> kspec" where
  "emptySpec spec = (case spec of QuotaSpec _ \<Rightarrow> QuotaSpec [] | NetworkPolicySpec _ \<Rightarrow> NetworkPolicySpec emptyPolicy
     | LocalQueueSpec _ \<Rightarrow> LocalQueueSpec '''' | NamespaceSpec _ \<Rightarrow> NamespaceSpec None)"

fun ensureObjects :: "'s cluster \<Rightarrow> Oubliette \<Rightarrow> string \<Rightarrow> (string \<times> kspec) list \<Rightarrow> 's \<Rightarrow> boundary_err option \<times> 's" where
  "ensureObjects K obj namespace [] s = (None, s)"
| "ensureObjects K obj namespace ((name, spec) # os) s =
     (case createOrUpdate K (newObject namespace name (emptySpec spec)) (setSpec K obj spec) s of
        (Some e, s1) \<Rightarrow> (Some e, s1)
      | (None, s1) \<Rightarrow> ensureObjects K obj namespace os s1)"

definition ensureBoundary ::
  "'s cluster \<Rightarrow> boundary_config \<Rightarrow> Oubliette \<Rightarrow> Profile \<Rightarrow> string \<Rightarrow> 's \<Rightarrow> boundary_err option \<times> 's" where
  "ensureBoundary K c obj p namespace s =
     (case createOrUpdate K (newObject '''' namespace (NamespaceSpec None))
             (\<lambda>ns. case mutateNamespace c obj ns of Inl e \<Rightarrow> Inl e | Inr ns' \<Rightarrow> setControllerReference K obj ns') s of
        (Some e, s1) \<Rightarrow> (Some e, s1)
      | (None, s1) \<Rightarrow>
          (case ensureKueue K c obj namespace s1 of
             (Some e, s2) \<Rightarrow> (Some e, s2)
           | (None, s2) \<Rightarrow> ensureObjects K obj namespace (boundaryObjects c obj p) s2))"

definition deleteNamespace :: "'s cluster \<Rightarrow> string \<Rightarrow> 's \<Rightarrow> (api_err + bool) \<times> 's" where
  "deleteNamespace K namespace s =
     (case getNamespace K namespace s of
        (Inl e, s1) \<Rightarrow> (if IsNotFound e then (Inr True, s1) else (Inl e, s1))
      | (Inr ns, s1) \<Rightarrow>
          if optIsZero (n_DeletionTimestamp ns) then
            (case removeNamespace K ns s1 of
               (Some e, s2) \<Rightarrow> (if IsNotFound e then (Inr False, s2) else (Inl e, s2))
             | (None, s2) \<Rightarrow> (Inr False, s2))
          else (Inr False, s1))"

definition namespaceFor :: "string \<Rightarrow> api_err + string" where
  "namespaceFor name =
     (let namespace = ''oub-'' @ name in
      if length namespace > 63 then Inl (BadRequest ''Oubliette name must be at most 59 characters'') else Inr namespace)"

lemma namespaceFor_Inr: "namespaceFor name = Inr ns \<longleftrightarrow> length name \<le> 59 \<and> ns = ''oub-'' @ name"
  by (auto simp: namespaceFor_def Let_def)

lemma namespaceFor_inject: "namespaceFor a = Inr ns \<Longrightarrow> namespaceFor b = Inr ns \<Longrightarrow> a = b"
  by (simp add: namespaceFor_Inr)

section \<open>What a successful pass leaves behind\<close>

text \<open>
  The documented behaviour of the library calls, with \<open>objs\<close> the objects stored in a state by
  kind, namespace and name: a \<open>CreateOrUpdate\<close> without an error stored the mutation of what was
  there, or of its argument, and nothing else; a controller reference only sets the owner.
\<close>

datatype kind = KNamespace | KQuota | KNetworkPolicy | KLocalQueue

type_synonym objects = "kind \<times> string \<times> string \<Rightarrow> kobject option"

fun kindOf :: "kspec \<Rightarrow> kind" where
  "kindOf (NamespaceSpec _) = KNamespace"
| "kindOf (QuotaSpec _) = KQuota"
| "kindOf (NetworkPolicySpec _) = KNetworkPolicy"
| "kindOf (LocalQueueSpec _) = KLocalQueue"

definition keyOf :: "kobject \<Rightarrow> kind \<times> string \<times> string" where
  "keyOf x = (kindOf (k_Spec x), k_Namespace x, k_Name x)"

definition cluster_laws :: "'s cluster \<Rightarrow> ('s \<Rightarrow> objects) \<Rightarrow> bool" where
  "cluster_laws K objs \<longleftrightarrow>
     (\<forall>x f s s'. createOrUpdate K x f s = (None, s') \<longrightarrow>
        (\<exists>z. f (case objs s (keyOf x) of None \<Rightarrow> x | Some y \<Rightarrow> y) = Inr z \<and> objs s' = (objs s)(keyOf x \<mapsto> z))) \<and>
     (\<forall>obj x y. setControllerReference K obj x = Inr y \<longrightarrow> y = x\<lparr>k_Owner := Some (o_UID obj)\<rparr>) \<and>
     (\<forall>n s s' e. getClusterQueue K n s = (e, s') \<longrightarrow> objs s' = objs s)"

lemma cluster_laws_cou:
  assumes "cluster_laws K objs" "createOrUpdate K x f s = (None, s')"
  obtains z where "f (case objs s (keyOf x) of None \<Rightarrow> x | Some y \<Rightarrow> y) = Inr z" "objs s' = (objs s)(keyOf x \<mapsto> z)"
  using assms unfolding cluster_laws_def by metis

lemma cluster_laws_ref:
  "cluster_laws K objs \<Longrightarrow> setControllerReference K obj x = Inr y \<Longrightarrow> y = x\<lparr>k_Owner := Some (o_UID obj)\<rparr>"
  unfolding cluster_laws_def by blast

lemma kindOf_emptySpec [simp]: "kindOf (emptySpec spec) = kindOf spec"
  by (cases spec) (simp_all add: emptySpec_def)

lemma keyOf_newObject [simp]: "keyOf (newObject ns name spec) = (kindOf spec, ns, name)"
  by (simp add: keyOf_def newObject_def)

text \<open>An object of the boundary is in place when it has the wanted specification and owner.\<close>

definition inPlace :: "objects \<Rightarrow> Oubliette \<Rightarrow> string \<Rightarrow> string \<times> kspec \<Rightarrow> bool" where
  "inPlace os obj namespace x = (case os (kindOf (snd x), namespace, fst x) of
     None \<Rightarrow> False | Some k \<Rightarrow> k_Spec k = snd x \<and> k_Owner k = Some (o_UID obj))"

lemma inPlace_iff: "inPlace os obj namespace (name, spec) \<longleftrightarrow>
    (\<exists>x. os (kindOf spec, namespace, name) = Some x \<and> k_Owner x = Some (o_UID obj) \<and> k_Spec x = spec)"
  by (auto simp: inPlace_def split: option.splits)

lemma setSpec_stored:
  assumes laws: "cluster_laws K objs"
    and call: "createOrUpdate K (newObject namespace name (emptySpec spec)) (setSpec K obj spec) s = (None, s')"
  shows "inPlace (objs s') obj namespace (name, spec)"
    and "k \<noteq> (kindOf spec, namespace, name) \<Longrightarrow> objs s' k = objs s k"
proof -
  from cluster_laws_cou[OF laws call] obtain z where
    z: "setSpec K obj spec (case objs s (kindOf spec, namespace, name) of None \<Rightarrow> newObject namespace name (emptySpec spec)
          | Some y \<Rightarrow> y) = Inr z" and o: "objs s' = (objs s)((kindOf spec, namespace, name) \<mapsto> z)"
    by (metis keyOf_newObject kindOf_emptySpec)
  from cluster_laws_ref[OF laws z[unfolded setSpec_def]]
  show "inPlace (objs s') obj namespace (name, spec)" by (simp add: inPlace_def o)
  show "k \<noteq> (kindOf spec, namespace, name) \<Longrightarrow> objs s' k = objs s k" by (simp add: o)
qed

lemma ensureObjects_stored:
  assumes "cluster_laws K objs" and "distinct (map fst os)" and "ensureObjects K obj namespace os s = (None, s')"
  shows "(\<forall>x \<in> set os. inPlace (objs s') obj namespace x) \<and>
    (\<forall>k. (\<forall>x \<in> set os. k \<noteq> (kindOf (snd x), namespace, fst x)) \<longrightarrow> objs s' k = objs s k)"
  using assms(2,3)
proof (induction os arbitrary: s)
  case (Cons a os)
  obtain name spec where a: "a = (name, spec)" by (cases a)
  from Cons.prems(2) obtain s1 where
    s1: "createOrUpdate K (newObject namespace name (emptySpec spec)) (setSpec K obj spec) s = (None, s1)"
    and rest: "ensureObjects K obj namespace os s1 = (None, s')"
    by (auto simp: a split: prod.splits option.splits)
  note here = setSpec_stored[OF assms(1) s1]
  note ih = Cons.IH[OF _ rest]
  have keep: "objs s' (kindOf spec, namespace, name) = objs s1 (kindOf spec, namespace, name)"
    using Cons.prems(1) ih by (force simp: a image_iff)
  show ?case
  proof (intro conjI ballI allI impI)
    fix x assume "x \<in> set (a # os)"
    then show "inPlace (objs s') obj namespace x"
      using here(1) keep ih Cons.prems(1) by (auto simp: a inPlace_def)
  next
    fix k assume "\<forall>x \<in> set (a # os). k \<noteq> (kindOf (snd x), namespace, fst x)"
    then show "objs s' k = objs s k" using here(2)[of k] ih Cons.prems(1) by (cases k) (simp add: a)
  qed
qed simp

lemma boundaryObjects_distinct: "distinct (map fst (boundaryObjects c obj p))"
  by (simp add: boundaryObjects_def)

lemma ensureKueue_stored:
  assumes "cluster_laws K objs" and "ensureKueue K c obj namespace s = (None, s')"
  shows "(bc_KueueClusterQueue c \<noteq> '''' \<longrightarrow>
      inPlace (objs s') obj namespace (KueueQueueName, LocalQueueSpec (bc_KueueClusterQueue c))) \<and>
    (\<forall>k. k \<noteq> (KLocalQueue, namespace, KueueQueueName) \<longrightarrow> objs s' k = objs s k)"
proof (cases "bc_KueueClusterQueue c = ''''")
  case True
  with assms(2) show ?thesis by (simp add: ensureKueue_def)
next
  case False
  with assms(2) obtain s1 where q: "getClusterQueue K (bc_KueueClusterQueue c) s = (None, s1)"
    and u: "createOrUpdate K (newObject namespace KueueQueueName (emptySpec (LocalQueueSpec (bc_KueueClusterQueue c))))
      (setSpec K obj (LocalQueueSpec (bc_KueueClusterQueue c))) s1 = (None, s')"
    by (auto simp: ensureKueue_def emptySpec_def split: prod.splits option.splits if_splits)
  from assms(1) q have "objs s1 = objs s" unfolding cluster_laws_def by blast
  with setSpec_stored[OF assms(1) u] show ?thesis by simp
qed

lemma mutateNamespace_labels:
  assumes "mutateNamespace c obj ns = Inr ns'" and "bc_KueueManagedLabel c \<notin> {EnforcedLabel, IDLabel}"
  shows "\<exists>m. k_Spec ns' = NamespaceSpec (Some m) \<and> m EnforcedLabel = Some ''true'' \<and> m IDLabel = Some (o_Name obj)"
proof -
  have ne: "EnforcedLabel \<noteq> IDLabel" by (simp add: EnforcedLabel_def IDLabel_def)
  let ?m0 = "(case k_Spec ns of NamespaceSpec (Some m) \<Rightarrow> m | _ \<Rightarrow> Map.empty)(EnforcedLabel \<mapsto> ''true'', IDLabel \<mapsto> o_Name obj)"
  have "k_Spec ns' = NamespaceSpec (Some (if bc_KueueClusterQueue c \<noteq> ''''
      then ?m0(bc_KueueManagedLabel c \<mapsto> bc_KueueManagedValue c) else ?m0))"
    using assms(1) unfolding mutateNamespace_def Let_def by (auto split: if_splits)
  then show ?thesis using assms(2) ne by auto
qed

lemma ensureBoundary_stages:
  assumes laws: "cluster_laws K objs" and ok: "ensureBoundary K c obj p namespace s = (None, s')"
  obtains ns ns' s1 s2 where "mutateNamespace c obj ns = Inr ns'"
    "objs s1 = (objs s)((KNamespace, '''', namespace) \<mapsto> ns'\<lparr>k_Owner := Some (o_UID obj)\<rparr>)"
    "ensureKueue K c obj namespace s1 = (None, s2)"
    "ensureObjects K obj namespace (boundaryObjects c obj p) s2 = (None, s')"
proof -
  let ?f = "\<lambda>ns. case mutateNamespace c obj ns of Inl e \<Rightarrow> Inl e | Inr ns' \<Rightarrow> setControllerReference K obj ns'"
  from ok obtain s1 s2 where s1: "createOrUpdate K (newObject '''' namespace (NamespaceSpec None)) ?f s = (None, s1)"
    and rest: "ensureKueue K c obj namespace s1 = (None, s2)"
      "ensureObjects K obj namespace (boundaryObjects c obj p) s2 = (None, s')"
    by (auto simp: ensureBoundary_def split: prod.splits option.splits)
  from cluster_laws_cou[OF laws s1] obtain ns z where "?f ns = Inr z" "objs s1 = (objs s)((KNamespace, '''', namespace) \<mapsto> z)"
    by (metis keyOf_newObject kindOf.simps(1))
  with cluster_laws_ref[OF laws] rest show thesis using that by (fastforce split: sum.splits)
qed

text \<open>A pass leaves every object outside the namespace as it was.\<close>

lemma boundary_objects_only:
  assumes laws: "cluster_laws K objs" and b: "ensureObjects K obj namespace (boundaryObjects c obj p) s2 = (None, s')"
    and "kd \<notin> {KQuota, KNetworkPolicy} \<or> ns \<noteq> namespace"
  shows "objs s' (kd, ns, n) = objs s2 (kd, ns, n)"
proof -
  have "\<forall>x \<in> set (boundaryObjects c obj p). (kd, ns, n) \<noteq> (kindOf (snd x), namespace, fst x)"
    using assms(3) by (auto simp: boundaryObjects_def split: if_splits)
  with ensureObjects_stored[OF laws boundaryObjects_distinct b, THEN conjunct2, THEN spec, of "(kd, ns, n)"] show ?thesis by (rule mp)
qed

lemma boundary_frame:
  assumes laws: "cluster_laws K objs" and ok: "ensureBoundary K c obj p namespace s = (None, s')"
    and n: "ns \<noteq> namespace" "(kd, ns, n) \<noteq> (KNamespace, '''', namespace)"
  shows "objs s' (kd, ns, n) = objs s (kd, ns, n)"
proof -
  from ensureBoundary_stages[OF laws ok] obtain ns' s1 s2 where
    o: "objs s1 = (objs s)((KNamespace, '''', namespace) \<mapsto> ns'\<lparr>k_Owner := Some (o_UID obj)\<rparr>)"
    and q: "ensureKueue K c obj namespace s1 = (None, s2)"
    and b: "ensureObjects K obj namespace (boundaryObjects c obj p) s2 = (None, s')" by metis
  have "objs s' (kd, ns, n) = objs s2 (kd, ns, n)" using boundary_objects_only[OF laws b] n(1) by blast
  also have "\<dots> = objs s1 (kd, ns, n)" using ensureKueue_stored[OF laws q] n(1) by blast
  finally show ?thesis using n(2) by (auto simp: o split: if_splits)
qed

text \<open>C35: a pass over the boundary without an error leaves the namespace owned by the Oubliette and labelled with its
  name and as enforced (unless the operator's queue label has one of those keys). In the namespace, each owned by the Oubliette, are: the quota
  \<open>stub\<close> with the limits of the profile; a policy that selects the workload (the pods vCluster labels as managed by the Oubliette's name), governs both
  directions and allows nothing; a policy for the same pods that allows traffic from the workload, and to the workload and the virtual control
  plane; when metrics are enabled, a policy that allows egress to the metrics gateway's pods in the configured
  namespace; when a cluster queue is configured, the local queue for it. Every object outside the namespace is as it was.\<close>

theorem boundary_established:
  assumes laws: "cluster_laws K objs" and ok: "ensureBoundary K c obj p namespace s = (None, s')"
    and label: "bc_KueueManagedLabel c \<notin> {EnforcedLabel, IDLabel}"
  shows "(\<exists>ns m. objs s' (KNamespace, '''', namespace) = Some ns \<and> k_Owner ns = Some (o_UID obj) \<and>
      k_Spec ns = NamespaceSpec (Some m) \<and> m EnforcedLabel = Some ''true'' \<and> m IDLabel = Some (o_Name obj)) \<and>
    (\<exists>x. objs s' (KQuota, namespace, ''stub'') = Some x \<and> k_Owner x = Some (o_UID obj) \<and> k_Spec x = QuotaSpec (pf_Quota p)) \<and>
    (\<exists>x. objs s' (KNetworkPolicy, namespace, ''workload-default-deny'') = Some x \<and> k_Owner x = Some (o_UID obj) \<and>
      k_Spec x = NetworkPolicySpec \<lparr>np_PodSelector = [(''vcluster.loft.sh/managed-by'', o_Name obj)], np_PolicyTypes = [Ingress, Egress],
        np_Ingress = [], np_Egress = []\<rparr>) \<and>
    (\<exists>x. objs s' (KNetworkPolicy, namespace, ''workload-intra-oubliette'') = Some x \<and> k_Owner x = Some (o_UID obj) \<and>
      k_Spec x = NetworkPolicySpec \<lparr>np_PodSelector = [(''vcluster.loft.sh/managed-by'', o_Name obj)], np_PolicyTypes = [Ingress, Egress],
        np_Ingress = [[\<lparr>pe_NamespaceSelector = None, pe_PodSelector = Some [(''vcluster.loft.sh/managed-by'', o_Name obj)]\<rparr>]],
        np_Egress = [[\<lparr>pe_NamespaceSelector = None, pe_PodSelector = Some [(''vcluster.loft.sh/managed-by'', o_Name obj)]\<rparr>,
          \<lparr>pe_NamespaceSelector = None, pe_PodSelector = Some [(''app'', ''vcluster''), (''release'', o_Name obj)]\<rparr>]]\<rparr>) \<and>
    (bc_MetricsEnabled c \<longrightarrow> (\<exists>x. objs s' (KNetworkPolicy, namespace, ''workload-metrics-egress'') = Some x \<and> k_Owner x = Some (o_UID obj) \<and>
      k_Spec x = NetworkPolicySpec \<lparr>np_PodSelector = [(''vcluster.loft.sh/managed-by'', o_Name obj)], np_PolicyTypes = [Egress], np_Ingress = [],
        np_Egress = [[\<lparr>pe_NamespaceSelector = Some [(''kubernetes.io/metadata.name'', bc_MetricsServiceNamespace c)],
          pe_PodSelector = Some [(''app'', ''oubliette-metrics'')]\<rparr>]]\<rparr>)) \<and>
    (bc_KueueClusterQueue c \<noteq> '''' \<longrightarrow> (\<exists>x. objs s' (KLocalQueue, namespace, ''oubliette'') = Some x \<and> k_Owner x = Some (o_UID obj) \<and>
      k_Spec x = LocalQueueSpec (bc_KueueClusterQueue c))) \<and>
    (\<forall>kd ns n. ns \<noteq> namespace \<longrightarrow> (kd, ns, n) \<noteq> (KNamespace, '''', namespace) \<longrightarrow> objs s' (kd, ns, n) = objs s (kd, ns, n))"
proof -
  from ensureBoundary_stages[OF laws ok] obtain ns ns' s1 s2 where
    m: "mutateNamespace c obj ns = Inr ns'"
    and o: "objs s1 = (objs s)((KNamespace, '''', namespace) \<mapsto> ns'\<lparr>k_Owner := Some (o_UID obj)\<rparr>)"
    and q: "ensureKueue K c obj namespace s1 = (None, s2)"
    and b: "ensureObjects K obj namespace (boundaryObjects c obj p) s2 = (None, s')" .
  note kueue = ensureKueue_stored[OF laws q]
  note others = boundary_objects_only[OF laws b]
  have "objs s' (KNamespace, '''', namespace) = objs s2 (KNamespace, '''', namespace)" by (rule others) simp
  also have "\<dots> = objs s1 (KNamespace, '''', namespace)" using kueue by blast
  finally have "objs s' (KNamespace, '''', namespace) = Some (ns'\<lparr>k_Owner := Some (o_UID obj)\<rparr>)" by (simp add: o)
  with mutateNamespace_labels[OF m label] have namespace: "\<exists>ns m. objs s' (KNamespace, '''', namespace) = Some ns \<and>
      k_Owner ns = Some (o_UID obj) \<and> k_Spec ns = NamespaceSpec (Some m) \<and> m EnforcedLabel = Some ''true'' \<and>
      m IDLabel = Some (o_Name obj)" by auto
  have "\<forall>x \<in> set (boundaryObjects c obj p). inPlace (objs s') obj namespace x"
    using ensureObjects_stored[OF laws boundaryObjects_distinct b] by blast
  then have placed: "inPlace (objs s') obj namespace (''stub'', QuotaSpec (pf_Quota p))"
    "inPlace (objs s') obj namespace (''workload-default-deny'', NetworkPolicySpec (denyPolicy obj))"
    "inPlace (objs s') obj namespace (''workload-intra-oubliette'', NetworkPolicySpec (intraPolicy obj))"
    "bc_MetricsEnabled c \<longrightarrow> inPlace (objs s') obj namespace (''workload-metrics-egress'', NetworkPolicySpec (metricsPolicy c obj))"
    by (simp_all add: boundaryObjects_def)
  have queue: "bc_KueueClusterQueue c \<noteq> '''' \<longrightarrow> inPlace (objs s') obj namespace (''oubliette'', LocalQueueSpec (bc_KueueClusterQueue c))"
    using kueue others[of KLocalQueue namespace KueueQueueName] by (simp add: inPlace_def KueueQueueName_def)
  have names: "workloadSelector obj = [(''vcluster.loft.sh/managed-by'', o_Name obj)]" by (simp add: workloadSelector_def ManagedByLabel_def)
  show ?thesis
    using namespace placed[unfolded inPlace_iff denyPolicy_def intraPolicy_def metricsPolicy_def podPeer_def controlPlaneSelector_def names]
      queue[unfolded inPlace_iff] boundary_frame[OF laws ok]
    by simp
qed

section \<open>The traffic the policies allow\<close>

text \<open>
  The Kubernetes reading of network policies: a pod is isolated for a direction when some policy
  of its namespace selects it and names the direction, and an isolated pod has the connections
  one of those policies lists. A peer without a namespace selector means pods of the policy's own
  namespace. An end of a connection that is no pod (\<open>None\<close>) matches no selector.
\<close>

record pod =
  pod_Namespace :: string
  pod_Labels :: smap

definition selects :: "labels \<Rightarrow> smap \<Rightarrow> bool" where
  "selects sel m \<longleftrightarrow> (\<forall>x \<in> set sel. m (fst x) = Some (snd x))"

definition peerMatches :: "(string \<Rightarrow> smap) \<Rightarrow> string \<Rightarrow> peer \<Rightarrow> pod option \<Rightarrow> bool" where
  "peerMatches nsLabels namespace pe q = (case q of None \<Rightarrow> False | Some d \<Rightarrow>
     (case pe_NamespaceSelector pe of None \<Rightarrow> pod_Namespace d = namespace
      | Some sel \<Rightarrow> selects sel (nsLabels (pod_Namespace d))) \<and>
     (case pe_PodSelector pe of None \<Rightarrow> True | Some sel \<Rightarrow> selects sel (pod_Labels d)))"

definition rulesFor :: "policy_type \<Rightarrow> network_policy \<Rightarrow> peer list list" where
  "rulesFor dir np = (case dir of Ingress \<Rightarrow> np_Ingress np | Egress \<Rightarrow> np_Egress np)"

definition applies :: "policy_type \<Rightarrow> pod \<Rightarrow> network_policy \<Rightarrow> bool" where
  "applies dir q np \<longleftrightarrow> dir \<in> set (np_PolicyTypes np) \<and> selects (np_PodSelector np) (pod_Labels q)"

definition connects :: "(string \<Rightarrow> smap) \<Rightarrow> network_policy set \<Rightarrow> policy_type \<Rightarrow> pod \<Rightarrow> pod option \<Rightarrow> bool" where
  "connects nsLabels nps dir q other \<longleftrightarrow>
     (\<forall>np \<in> nps. \<not> applies dir q np) \<or>
     (\<exists>np \<in> nps. applies dir q np \<and>
        (\<exists>rule \<in> set (rulesFor dir np). rule = [] \<or> (\<exists>pe \<in> set rule. peerMatches nsLabels (pod_Namespace q) pe other)))"

definition policiesIn :: "objects \<Rightarrow> string \<Rightarrow> network_policy set" where
  "policiesIn os namespace = {np. \<exists>n x. os (KNetworkPolicy, namespace, n) = Some x \<and> k_Spec x = NetworkPolicySpec np}"

definition workloadOf :: "Oubliette \<Rightarrow> string \<Rightarrow> pod \<Rightarrow> bool" where
  "workloadOf obj namespace q \<longleftrightarrow> pod_Namespace q = namespace \<and> pod_Labels q ManagedByLabel = Some (o_Name obj)"

text \<open>The only policies of the namespace are those the boundary writes.\<close>

definition onlyBoundaryPolicies :: "boundary_config \<Rightarrow> Oubliette \<Rightarrow> Profile \<Rightarrow> objects \<Rightarrow> string \<Rightarrow> bool" where
  "onlyBoundaryPolicies c obj p os namespace \<longleftrightarrow>
     (\<forall>n. os (KNetworkPolicy, namespace, n) \<noteq> None \<longrightarrow> n \<in> fst ` set (boundaryObjects c obj p) - {''stub''})"

lemma boundary_policy_name:
  "x \<in> set (boundaryObjects c obj p) \<Longrightarrow> kindOf (snd x) = KNetworkPolicy \<Longrightarrow> fst x \<noteq> ''stub''"
  by (auto simp: boundaryObjects_def split: if_splits)

lemma boundary_names:
  "fst ` set (boundaryObjects c obj p) - {''stub''} = {''workload-default-deny'', ''workload-intra-oubliette''} \<union>
     (if bc_MetricsEnabled c then {''workload-metrics-egress''} else {})"
  by (simp add: boundaryObjects_def)

lemma boundary_policies:
  assumes laws: "cluster_laws K objs" and ok: "ensureBoundary K c obj p namespace s = (None, s')"
    and only: "onlyBoundaryPolicies c obj p (objs s) namespace"
  shows "policiesIn (objs s') namespace =
    {denyPolicy obj, intraPolicy obj} \<union> (if bc_MetricsEnabled c then {metricsPolicy c obj} else {})"
proof -
  from ensureBoundary_stages[OF laws ok] obtain ns' s1 s2 where
    o: "objs s1 = (objs s)((KNamespace, '''', namespace) \<mapsto> ns'\<lparr>k_Owner := Some (o_UID obj)\<rparr>)"
    and q: "ensureKueue K c obj namespace s1 = (None, s2)"
    and b: "ensureObjects K obj namespace (boundaryObjects c obj p) s2 = (None, s')" by metis
  note objects = ensureObjects_stored[OF laws boundaryObjects_distinct b]
  have np2: "objs s2 (KNetworkPolicy, namespace, n) = objs s (KNetworkPolicy, namespace, n)" for n
    using ensureKueue_stored[OF laws q] by (simp add: o)
  have none: "objs s' (KNetworkPolicy, namespace, n) = None" if "n \<notin> fst ` set (boundaryObjects c obj p) - {''stub''}" for n
  proof -
    have "\<forall>x \<in> set (boundaryObjects c obj p). (KNetworkPolicy, namespace, n) \<noteq> (kindOf (snd x), namespace, fst x)"
      using that boundary_policy_name by fastforce
    with objects[THEN conjunct2, THEN spec, of "(KNetworkPolicy, namespace, n)"]
    have "objs s' (KNetworkPolicy, namespace, n) = objs s2 (KNetworkPolicy, namespace, n)" by (rule mp)
    with np2 only that show ?thesis unfolding onlyBoundaryPolicies_def by metis
  qed
  have ip: "\<forall>x \<in> set (boundaryObjects c obj p). inPlace (objs s') obj namespace x" using objects by blast
  have d: "\<exists>x. objs s' (KNetworkPolicy, namespace, ''workload-default-deny'') = Some x \<and> k_Spec x = NetworkPolicySpec (denyPolicy obj)"
    using ip by (auto simp: boundaryObjects_def inPlace_def split: option.splits)
  have i: "\<exists>x. objs s' (KNetworkPolicy, namespace, ''workload-intra-oubliette'') = Some x \<and> k_Spec x = NetworkPolicySpec (intraPolicy obj)"
    using ip by (auto simp: boundaryObjects_def inPlace_def split: option.splits)
  have m: "bc_MetricsEnabled c \<Longrightarrow> \<exists>x. objs s' (KNetworkPolicy, namespace, ''workload-metrics-egress'') = Some x \<and>
      k_Spec x = NetworkPolicySpec (metricsPolicy c obj)"
    using ip by (auto simp: boundaryObjects_def inPlace_def split: option.splits)
  have names: "n \<in> {''workload-default-deny'', ''workload-intra-oubliette''} \<union>
      (if bc_MetricsEnabled c then {''workload-metrics-egress''} else {})" if "objs s' (KNetworkPolicy, namespace, n) \<noteq> None" for n
    using none[of n] that unfolding boundary_names by blast
  show ?thesis
  proof (intro set_eqI iffI)
    fix np assume "np \<in> policiesIn (objs s') namespace"
    then obtain n x where x: "objs s' (KNetworkPolicy, namespace, n) = Some x" "k_Spec x = NetworkPolicySpec np"
      by (auto simp: policiesIn_def)
    with names[of n] d i m show "np \<in> {denyPolicy obj, intraPolicy obj} \<union> (if bc_MetricsEnabled c then {metricsPolicy c obj} else {})"
      by (auto split: if_splits)
  next
    fix np assume "np \<in> {denyPolicy obj, intraPolicy obj} \<union> (if bc_MetricsEnabled c then {metricsPolicy c obj} else {})"
    with d i m show "np \<in> policiesIn (objs s') namespace" unfolding policiesIn_def by (auto split: if_splits)
  qed
qed

lemmas policy_defs = denyPolicy_def intraPolicy_def metricsPolicy_def podPeer_def workloadSelector_def controlPlaneSelector_def

lemma workload_applies:
  "workloadOf obj namespace q \<Longrightarrow> applies dir q (denyPolicy obj) \<and> applies dir q (intraPolicy obj) \<and>
     (applies dir q (metricsPolicy c obj) \<longleftrightarrow> dir = Egress)"
  by (cases dir) (auto simp: applies_def policy_defs selects_def workloadOf_def)

lemma workload_ingress_iff:
  assumes "workloadOf obj namespace q" and "nps = {denyPolicy obj, intraPolicy obj} \<union> M" and "M \<subseteq> {metricsPolicy c obj}"
  shows "connects nsLabels nps Ingress q other \<longleftrightarrow> (\<exists>d. other = Some d \<and> workloadOf obj namespace d)"
proof -
  have "connects nsLabels nps Ingress q other \<longleftrightarrow>
      (\<exists>pe \<in> {podPeer (workloadSelector obj)}. peerMatches nsLabels (pod_Namespace q) pe other)"
    using workload_applies[OF assms(1), of Ingress c] assms(2,3)
    by (auto simp: connects_def rulesFor_def policy_defs)
  then show ?thesis using assms(1)
    by (cases other) (auto simp: peerMatches_def podPeer_def workloadSelector_def selects_def workloadOf_def)
qed

definition controlPlaneOf :: "Oubliette \<Rightarrow> string \<Rightarrow> pod \<Rightarrow> bool" where
  "controlPlaneOf obj namespace d \<longleftrightarrow> pod_Namespace d = namespace \<and>
     pod_Labels d ''app'' = Some ''vcluster'' \<and> pod_Labels d ''release'' = Some (o_Name obj)"

definition metricsGatewayOf :: "boundary_config \<Rightarrow> (string \<Rightarrow> smap) \<Rightarrow> pod \<Rightarrow> bool" where
  "metricsGatewayOf c nsLabels d \<longleftrightarrow>
     nsLabels (pod_Namespace d) ''kubernetes.io/metadata.name'' = Some (bc_MetricsServiceNamespace c) \<and>
     pod_Labels d ''app'' = Some ''oubliette-metrics''"

lemma workload_egress_iff:
  assumes "workloadOf obj namespace q"
    and "nps = {denyPolicy obj, intraPolicy obj} \<union> (if m then {metricsPolicy c obj} else {})"
  shows "connects nsLabels nps Egress q other \<longleftrightarrow> (\<exists>d. other = Some d \<and>
    (workloadOf obj namespace d \<or> controlPlaneOf obj namespace d \<or> m \<and> metricsGatewayOf c nsLabels d))"
proof -
  have "connects nsLabels nps Egress q other \<longleftrightarrow>
      (\<exists>np \<in> nps. \<exists>rule \<in> set (np_Egress np). rule = [] \<or> (\<exists>pe \<in> set rule. peerMatches nsLabels (pod_Namespace q) pe other))"
    using workload_applies[OF assms(1), of Egress c] assms(2)
    by (auto simp: connects_def rulesFor_def)
  then show ?thesis using assms
    by (cases other) (auto simp: policy_defs peerMatches_def selects_def workloadOf_def controlPlaneOf_def metricsGatewayOf_def)
qed

text \<open>C3: after a pass over a namespace without foreign policies, a workload pod of the Oubliette receives connections
  exactly from workload pods of the same Oubliette in the same namespace, and opens connections
  exactly to those, to the virtual control plane of the Oubliette, and, when metrics are enabled,
  to the metrics gateway; nothing outside the cluster.\<close>

theorem workload_traffic_confined:
  assumes "cluster_laws K objs" and "ensureBoundary K c obj p namespace s = (None, s')"
    and "onlyBoundaryPolicies c obj p (objs s) namespace" and "workloadOf obj namespace q"
  shows "(connects nsLabels (policiesIn (objs s') namespace) Ingress q other \<longleftrightarrow>
      (\<exists>d. other = Some d \<and> workloadOf obj namespace d)) \<and>
    (connects nsLabels (policiesIn (objs s') namespace) Egress q other \<longleftrightarrow>
      (\<exists>d. other = Some d \<and> (workloadOf obj namespace d \<or> controlPlaneOf obj namespace d \<or>
         bc_MetricsEnabled c \<and> metricsGatewayOf c nsLabels d)))"
  using workload_ingress_iff[OF assms(4) boundary_policies[OF assms(1-3)], of c]
    workload_egress_iff[OF assms(4) boundary_policies[OF assms(1-3)]]
  by simp

text \<open>A pass over another Oubliette's namespace leaves the policies of this one alone.\<close>

lemma policies_frame:
  assumes "cluster_laws K objs" and "ensureBoundary K c obj p namespace s = (None, s')" and "ns \<noteq> namespace"
  shows "policiesIn (objs s') ns = policiesIn (objs s) ns" and "onlyBoundaryPolicies c' obj' p' (objs s') ns = onlyBoundaryPolicies c' obj' p' (objs s) ns"
  using boundary_frame[OF assms(1,2), of ns KNetworkPolicy] assms(3) by (simp_all add: policiesIn_def onlyBoundaryPolicies_def)

text \<open>What a workload pod can exchange with a pod of another namespace, once the policies of its own are those of the boundary.\<close>

lemma foreign_pod_confined:
  assumes "workloadOf obj namespace q" and "policiesIn os namespace = {denyPolicy obj, intraPolicy obj} \<union> (if bc_MetricsEnabled c then {metricsPolicy c obj} else {})"
    and "pod_Namespace d \<noteq> namespace"
  shows "\<not> connects nsLabels (policiesIn os namespace) Ingress q (Some d) \<and>
    (connects nsLabels (policiesIn os namespace) Egress q (Some d) \<longrightarrow> bc_MetricsEnabled c \<and> metricsGatewayOf c nsLabels d)"
  using workload_ingress_iff[OF assms(1,2), of c] workload_egress_iff[OF assms(1,2)] assms(3)
  by (auto simp: workloadOf_def controlPlaneOf_def)

text \<open>C4: two Oubliettes with different names, whose boundaries a controller has set up one after the other in namespaces without foreign policies, have
  different namespaces and stay isolated from each other in both directions. A workload pod of either accepts no connection from any pod in the
  other's namespace, whatever labels that pod carries (those of the first's own workload included), and opens none to such a pod unless metrics are enabled and
  the pod is the metrics gateway.\<close>

theorem oubliettes_isolated:
  assumes laws: "cluster_laws K objs"
    and names: "namespaceFor (o_Name a) = Inr na" "namespaceFor (o_Name b) = Inr nb" "o_Name a \<noteq> o_Name b"
    and clean: "onlyBoundaryPolicies c a pa (objs s) na" "onlyBoundaryPolicies c b pb (objs s) nb"
    and passes: "ensureBoundary K c a pa na s = (None, s1)" "ensureBoundary K c b pb nb s1 = (None, s2)"
    and pods: "pod_Namespace da = na" "pod_Namespace db = nb"
  shows "na \<noteq> nb \<and>
    (workloadOf a na da \<longrightarrow> \<not> connects nsLabels (policiesIn (objs s2) na) Ingress da (Some db) \<and>
       (connects nsLabels (policiesIn (objs s2) na) Egress da (Some db) \<longrightarrow> bc_MetricsEnabled c \<and> metricsGatewayOf c nsLabels db)) \<and>
    (workloadOf b nb db \<longrightarrow> \<not> connects nsLabels (policiesIn (objs s2) nb) Ingress db (Some da) \<and>
       (connects nsLabels (policiesIn (objs s2) nb) Egress db (Some da) \<longrightarrow> bc_MetricsEnabled c \<and> metricsGatewayOf c nsLabels da))"
proof -
  have ne: "na \<noteq> nb" using names namespaceFor_inject by blast
  note frame_a = policies_frame[OF laws passes(2) ne] and frame_b = policies_frame[OF laws passes(1) not_sym[OF ne]]
  have pa: "policiesIn (objs s2) na = {denyPolicy a, intraPolicy a} \<union> (if bc_MetricsEnabled c then {metricsPolicy c a} else {})"
    using boundary_policies[OF laws passes(1) clean(1)] frame_a(1) by simp
  have pb: "policiesIn (objs s2) nb = {denyPolicy b, intraPolicy b} \<union> (if bc_MetricsEnabled c then {metricsPolicy c b} else {})"
    using boundary_policies[OF laws passes(2)] clean(2) frame_b(2) by simp
  have far: "pod_Namespace db \<noteq> na" "pod_Namespace da \<noteq> nb" using pods ne by simp_all
  show ?thesis
    by (intro conjI[OF ne] conjI[OF impI impI]) (rule foreign_pod_confined[OF _ pa far(1)] foreign_pod_confined[OF _ pb far(2)], assumption)+
qed

text \<open>Disabling the metrics profile does not withdraw the egress policy of an earlier pass.\<close>

theorem metrics_egress_survives_disable:
  assumes laws: "cluster_laws K objs" and ok: "ensureBoundary K c obj p namespace s = (None, s')"
    and "\<not> bc_MetricsEnabled c"
  shows "objs s' (KNetworkPolicy, namespace, ''workload-metrics-egress'') = objs s (KNetworkPolicy, namespace, ''workload-metrics-egress'')"
proof -
  from ensureBoundary_stages[OF laws ok] obtain ns' s1 s2 where
    o: "objs s1 = (objs s)((KNamespace, '''', namespace) \<mapsto> ns'\<lparr>k_Owner := Some (o_UID obj)\<rparr>)"
    and q: "ensureKueue K c obj namespace s1 = (None, s2)"
    and b: "ensureObjects K obj namespace (boundaryObjects c obj p) s2 = (None, s')" by metis
  let ?k = "(KNetworkPolicy, namespace, ''workload-metrics-egress'')"
  have "\<forall>x \<in> set (boundaryObjects c obj p). ?k \<noteq> (kindOf (snd x), namespace, fst x)"
    using assms(3) by (simp add: boundaryObjects_def)
  with ensureObjects_stored[OF laws boundaryObjects_distinct b] have "objs s' ?k = objs s2 ?k" by blast
  also have "\<dots> = objs s1 ?k" using ensureKueue_stored[OF laws q] by blast
  finally show ?thesis by (simp add: o)
qed

section \<open>An in-memory cluster\<close>

text \<open>A store of objects in which every call succeeds, as a concrete instance of the laws.\<close>

definition memcluster :: "objects cluster" where
  "memcluster =
     \<lparr>createOrUpdate = (\<lambda>x f s. case f (case s (keyOf x) of None \<Rightarrow> x | Some y \<Rightarrow> y) of
          Inl e \<Rightarrow> (Some e, s) | Inr z \<Rightarrow> (None, s(keyOf x \<mapsto> z))),
      setControllerReference = (\<lambda>obj x. if k_Owner x \<in> {None, Some (o_UID obj)} then Inr (x\<lparr>k_Owner := Some (o_UID obj)\<rparr>)
          else Inl AlreadyOwned),
      getNamespace = (\<lambda>n s. (case s (KNamespace, '''', n) of None \<Rightarrow> Inl (NotFound n)
          | Some _ \<Rightarrow> Inr \<lparr>n_Name = n, n_DeletionTimestamp = None\<rparr>, s)),
      removeNamespace = (\<lambda>n s. (None, s((KNamespace, '''', n_Name n) := None))),
      getClusterQueue = (\<lambda>n s. (None, s))\<rparr>"

lemma memcluster_laws: "cluster_laws memcluster id"
  unfolding cluster_laws_def memcluster_def by (auto split: sum.splits if_splits)

definition demo_boundary :: boundary_config where
  "demo_boundary = \<lparr>bc_KueueClusterQueue = '''', bc_KueueManagedLabel = '''', bc_KueueManagedValue = '''',
     bc_MetricsEnabled = True, bc_MetricsServiceNamespace = ''oubliette-system''\<rparr>"

definition demo_oub :: "string \<Rightarrow> Oubliette" where
  "demo_oub n = \<lparr>o_Name = n, o_UID = ''uid-'' @ n, o_Generation = 1, o_Annotations = None, o_DeletionTimestamp = None,
     o_Finalizers = [], o_Spec = \<lparr>spec_Tier = ''stub'', spec_ExpiresAt = 300000000000\<rparr>, o_Status = zeroStatus\<rparr>"

definition demo_profile :: Profile where
  "demo_profile = \<lparr>pf_Generation = StubGeneration, pf_Quota = stubQuota, pf_Metrics = disabledMetrics\<rparr>"

lemma demo_boundary_ok:
  "\<exists>s'. ensureBoundary memcluster demo_boundary (demo_oub n) demo_profile namespace (\<lambda>_. None) = (None, s')"
  by (simp add: ensureBoundary_def memcluster_def mutateNamespace_def demo_boundary_def newObject_def ensureKueue_def
      boundaryObjects_def setSpec_def keyOf_def emptySpec_def Let_def)

lemma demo_only: "onlyBoundaryPolicies demo_boundary obj demo_profile (id (\<lambda>_. None)) namespace"
  by (simp add: onlyBoundaryPolicies_def)

lemma demo_label: "bc_KueueManagedLabel demo_boundary \<notin> {EnforcedLabel, IDLabel}"
  by (simp add: demo_boundary_def EnforcedLabel_def IDLabel_def)

definition demo_pod :: "string \<Rightarrow> string \<Rightarrow> pod" where
  "demo_pod ns n = \<lparr>pod_Namespace = ns, pod_Labels = [ManagedByLabel \<mapsto> n]\<rparr>"

lemma demo_workload: "workloadOf (demo_oub n) ns (demo_pod ns n)"
  by (simp add: workloadOf_def demo_pod_def demo_oub_def)

theorem boundary_established_witness:
  "\<exists>s'. ensureBoundary memcluster demo_boundary (demo_oub ''a'') demo_profile ''oub-a'' (\<lambda>_. None) = (None, s') \<and>
     (\<exists>ns. s' (KNamespace, '''', ''oub-a'') = Some ns \<and> k_Owner ns = Some ''uid-a'')"
proof -
  obtain s' where ok: "ensureBoundary memcluster demo_boundary (demo_oub ''a'') demo_profile ''oub-a'' (\<lambda>_. None) = (None, s')"
    using demo_boundary_ok by blast
  from boundary_established[OF memcluster_laws ok demo_label] ok show ?thesis
    by (auto simp: demo_oub_def)
qed

theorem workload_traffic_confined_witness:
  "\<exists>s'. ensureBoundary memcluster demo_boundary (demo_oub ''a'') demo_profile ''oub-a'' (\<lambda>_. None) = (None, s') \<and>
     connects (\<lambda>_. Map.empty) (policiesIn s' ''oub-a'') Ingress (demo_pod ''oub-a'' ''a'') (Some (demo_pod ''oub-a'' ''a'')) \<and>
     \<not> connects (\<lambda>_. Map.empty) (policiesIn s' ''oub-a'') Egress (demo_pod ''oub-a'' ''a'') None"
proof -
  obtain s' where ok: "ensureBoundary memcluster demo_boundary (demo_oub ''a'') demo_profile ''oub-a'' (\<lambda>_. None) = (None, s')"
    using demo_boundary_ok by blast
  note t = workload_traffic_confined[where objs = id, OF memcluster_laws ok demo_only demo_workload]
  have "connects (\<lambda>_. Map.empty) (policiesIn s' ''oub-a'') Ingress (demo_pod ''oub-a'' ''a'') (Some (demo_pod ''oub-a'' ''a''))"
    using t[of "\<lambda>_. Map.empty" "Some (demo_pod ''oub-a'' ''a'')"] demo_workload by simp
  moreover have "\<not> connects (\<lambda>_. Map.empty) (policiesIn s' ''oub-a'') Egress (demo_pod ''oub-a'' ''a'') None"
    using t[of "\<lambda>_. Map.empty" None] by simp
  ultimately show ?thesis using ok by blast
qed

text \<open>Two boundaries side by side; the intruder carries the label of the other's workload.\<close>

theorem oubliettes_isolated_witness:
  "\<exists>s1 s2. ensureBoundary memcluster demo_boundary (demo_oub ''a'') demo_profile ''oub-a'' (\<lambda>_. None) = (None, s1) \<and>
     ensureBoundary memcluster demo_boundary (demo_oub ''b'') demo_profile ''oub-b'' s1 = (None, s2) \<and>
     \<not> connects (\<lambda>_. Map.empty) (policiesIn s2 ''oub-b'') Ingress (demo_pod ''oub-b'' ''b'') (Some (demo_pod ''oub-a'' ''b''))"
proof -
  obtain s1 where one: "ensureBoundary memcluster demo_boundary (demo_oub ''a'') demo_profile ''oub-a'' (\<lambda>_. None) = (None, s1)"
    using demo_boundary_ok by blast
  have free: "s1 (kd, ''oub-b'', n) = None" "s1 (KNamespace, '''', ''oub-b'') = None" for kd n
    using boundary_frame[OF memcluster_laws one, of "''oub-b''" kd n] boundary_frame[OF memcluster_laws one, of "''''" KNamespace "''oub-b''"] by simp_all
  have "\<exists>s2. ensureBoundary memcluster demo_boundary (demo_oub ''b'') demo_profile ''oub-b'' s1 = (None, s2)"
    by (simp add: ensureBoundary_def memcluster_def mutateNamespace_def demo_boundary_def newObject_def ensureKueue_def
        boundaryObjects_def setSpec_def keyOf_def emptySpec_def Let_def free)
  then obtain s2 where two: "ensureBoundary memcluster demo_boundary (demo_oub ''b'') demo_profile ''oub-b'' s1 = (None, s2)" by blast
  have names: "namespaceFor (o_Name (demo_oub ''a'')) = Inr ''oub-a''" "namespaceFor (o_Name (demo_oub ''b'')) = Inr ''oub-b''"
    "o_Name (demo_oub ''a'') \<noteq> o_Name (demo_oub ''b'')" by (simp_all add: namespaceFor_Inr demo_oub_def)
  have pods: "pod_Namespace (demo_pod ''oub-a'' ''b'') = ''oub-a''" "pod_Namespace (demo_pod ''oub-b'' ''b'') = ''oub-b''"
    by (simp_all add: demo_pod_def)
  from oubliettes_isolated[where objs = id, OF memcluster_laws names demo_only demo_only one two pods, of "\<lambda>_. Map.empty"] one two demo_workload
  show ?thesis by auto
qed

end
