(* ===== verification/VCluster.thy ===== *)
theory VCluster
  imports Kube
begin

text \<open>
  The vCluster manager, \<open>internal/vcluster/helm.go\<close>: the Helm values with their validation, the
  release operations of \<open>HelmManager\<close> and the handoff identity inside the virtual cluster. Helm,
  the host client, the virtual client library, the name validators and quantity parsing are
  parameters. The interface \<open>Manager\<close> is the record of that name; \<open>helmManager\<close> is its
  implementation.
\<close>

section \<open>Options\<close>

definition ChartVersion :: string where "ChartVersion = ''0.36.1''"
definition HandoffNamespace :: string where "HandoffNamespace = ''default''"
definition HandoffServiceAccount :: string where "HandoffServiceAccount = ''oubliette-agent''"
definition HandoffClusterRoleBinding :: string where "HandoffClusterRoleBinding = ''oubliette-agent-cluster-admin''"

record RuntimeIdentity =
  ri_User :: int64
  ri_Group :: int64
  ri_FSGroup :: int64

record ResourceBounds =
  rb_Request :: string
  rb_Limit :: string

record ValuesOptions =
  vo_HostWorkloadQueue :: string
  vo_RuntimeIdentity :: "RuntimeIdentity option"
  vo_EphemeralStorage :: "ResourceBounds option"

definition defaultIdentity :: RuntimeIdentity where
  "defaultIdentity = \<lparr>ri_User = 1000, ri_Group = 1000, ri_FSGroup = 1000\<rparr>"

definition defaultStorage :: ResourceBounds where
  "defaultStorage = \<lparr>rb_Request = ''256Mi'', rb_Limit = ''4Gi''\<rparr>"

definition DefaultValuesOptions :: ValuesOptions where
  "DefaultValuesOptions = \<lparr>vo_HostWorkloadQueue = '''', vo_RuntimeIdentity = Some defaultIdentity,
     vo_EphemeralStorage = Some defaultStorage\<rparr>"

text \<open>
  The validators return their problems; a parsed quantity is its value in nano units, the finest
  the library keeps.
\<close>

record validators =
  IsDNS1123Subdomain :: "string \<Rightarrow> string list"
  IsValidLabelValue :: "string \<Rightarrow> string list"
  ParseQuantity :: "string \<Rightarrow> int option"

datatype values_err =
    QueueNotSubdomain string
  | QueueNotLabel string
  | IdentityMixed
  | StorageHalfSet
  | StorageRequestInvalid
  | StorageLimitInvalid
  | StorageLimitBelowRequest

definition validateQueue :: "validators \<Rightarrow> string \<Rightarrow> values_err option" where
  "validateQueue L q =
     (if q = '''' then None
      else case IsDNS1123Subdomain L q of
        p # _ \<Rightarrow> Some (QueueNotSubdomain p)
      | [] \<Rightarrow> (case IsValidLabelValue L q of p # _ \<Rightarrow> Some (QueueNotLabel p) | [] \<Rightarrow> None))"

definition validateIdentity :: "RuntimeIdentity option \<Rightarrow> values_err option" where
  "validateIdentity ri = (case ri of None \<Rightarrow> None | Some identity \<Rightarrow>
     let allOmitted = ri_User identity = 0 \<and> ri_Group identity = 0 \<and> ri_FSGroup identity = 0;
         allPositive = 0 < sint (ri_User identity) \<and> 0 < sint (ri_Group identity) \<and> 0 < sint (ri_FSGroup identity)
     in if \<not> allOmitted \<and> \<not> allPositive then Some IdentityMixed else None)"

definition validateStorage :: "validators \<Rightarrow> ResourceBounds option \<Rightarrow> values_err option" where
  "validateStorage L rb = (case rb of None \<Rightarrow> None | Some bounds \<Rightarrow>
     if (rb_Request bounds = '''') \<noteq> (rb_Limit bounds = '''') then Some StorageHalfSet
     else if rb_Request bounds \<noteq> '''' then
       (case ParseQuantity L (rb_Request bounds) of
          None \<Rightarrow> Some StorageRequestInvalid
        | Some request \<Rightarrow> if request \<le> 0 then Some StorageRequestInvalid
          else (case ParseQuantity L (rb_Limit bounds) of
             None \<Rightarrow> Some StorageLimitInvalid
           | Some limit \<Rightarrow> if limit \<le> 0 then Some StorageLimitInvalid
             else if limit < request then Some StorageLimitBelowRequest else None))
     else None)"

definition ValuesOptions_Validate :: "validators \<Rightarrow> ValuesOptions \<Rightarrow> values_err option" where
  "ValuesOptions_Validate L opts =
     (case validateQueue L (vo_HostWorkloadQueue opts) of
        Some e \<Rightarrow> Some e
      | None \<Rightarrow> (case validateIdentity (vo_RuntimeIdentity opts) of
          Some e \<Rightarrow> Some e
        | None \<Rightarrow> validateStorage L (vo_EphemeralStorage opts)))"

definition withDefaults :: "ValuesOptions \<Rightarrow> ValuesOptions" where
  "withDefaults opts =
     (let o1 = (if vo_RuntimeIdentity opts = None then opts\<lparr>vo_RuntimeIdentity := vo_RuntimeIdentity DefaultValuesOptions\<rparr> else opts)
      in if vo_EphemeralStorage o1 = None then o1\<lparr>vo_EphemeralStorage := vo_EphemeralStorage DefaultValuesOptions\<rparr> else o1)"

section \<open>Values\<close>

text \<open>
  The trees \<open>map[string]any\<close> of Helm: the values of the program hold \<open>int64\<close> numbers, those
  decoded from the stored JSON of a release hold \<open>float64\<close> numbers, here by their bits. A map is
  an association list with distinct keys.
\<close>

datatype val =
    VNull
  | VBool bool
  | VStr string
  | VInt int64
  | VFloat "64 word"
  | VList "val list"
  | VMap "(string \<times> val) list"

text \<open>\<open>reflect.DeepEqual\<close>: same dynamic types, maps with the same keys and equal entries.\<close>

function DeepEqual :: "val \<Rightarrow> val \<Rightarrow> bool" where
  "DeepEqual (VMap a) y = (case y of VMap b \<Rightarrow> length a = length b \<and>
     list_all (\<lambda>x. case map_of b (fst x) of None \<Rightarrow> False | Some v \<Rightarrow> DeepEqual (snd x) v) a | _ \<Rightarrow> False)"
| "DeepEqual (VList a) y = (case y of VList b \<Rightarrow> length a = length b \<and>
     list_all (\<lambda>x. DeepEqual (fst x) (snd x)) (zip a b) | _ \<Rightarrow> False)"
| "DeepEqual VNull y = (y = VNull)"
| "DeepEqual (VBool p) y = (y = VBool p)"
| "DeepEqual (VStr s) y = (y = VStr s)"
| "DeepEqual (VInt n) y = (y = VInt n)"
| "DeepEqual (VFloat f) y = (y = VFloat f)"
  by pat_completeness auto
termination
proof (relation "measure (\<lambda>p. size (fst p))")
  fix a :: "(string \<times> val) list" and y b x v
  assume x: "x \<in> set a"
  have "size (snd x) \<le> size_prod (\<lambda>_. 0) size x" by (cases x) simp
  from size_list_estimation'[where f = "size_prod (\<lambda>_. 0) size", OF x this]
  show "((snd x, v), VMap a, y) \<in> measure (\<lambda>p. size (fst p))" by simp
next
  fix a y b and x :: "val \<times> val"
  assume "x \<in> set (zip a b)"
  then have "fst x \<in> set a" by (metis prod.collapse set_zip_leftD)
  then show "((fst x, snd x), VList a, y) \<in> measure (\<lambda>p. size (fst p))"
    using size_list_estimation'[of "fst x" a "size (fst x)" size] by simp
qed simp

definition boolMap :: "string \<Rightarrow> bool \<Rightarrow> val" where
  "boolMap k b = VMap [(k, VBool b)]"

text \<open>The maps of \<open>values\<close>, in the order the function builds them. The options have both parts
  set, which \<open>withDefaults\<close> guarantees.\<close>

definition requestsOf :: "ResourceBounds \<Rightarrow> val" where
  "requestsOf b = VMap [(''cpu'', VStr ''100m''), (''memory'', VStr ''256Mi''),
     (''ephemeral-storage'', if rb_Request b = '''' then VNull else VStr (rb_Request b))]"

definition limitsOf :: "ResourceBounds \<Rightarrow> val" where
  "limitsOf b = VMap [(''cpu'', VStr ''2''), (''memory'', VStr ''2Gi''),
     (''ephemeral-storage'', if rb_Request b = '''' then VNull else VStr (rb_Limit b))]"

definition podSecurity :: "RuntimeIdentity \<Rightarrow> val" where
  "podSecurity i = VMap ([(''runAsNonRoot'', VBool True), (''seccompProfile'', VMap [(''type'', VStr ''RuntimeDefault'')])] @
     (if 0 < sint (ri_User i)
      then [(''runAsUser'', VInt (ri_User i)), (''runAsGroup'', VInt (ri_Group i)), (''fsGroup'', VInt (ri_FSGroup i))]
      else [(''runAsUser'', VNull), (''runAsGroup'', VNull), (''fsGroup'', VNull)]))"

definition containerSecurity :: "RuntimeIdentity \<Rightarrow> val" where
  "containerSecurity i = VMap ([(''allowPrivilegeEscalation'', VBool False), (''runAsNonRoot'', VBool True),
      (''capabilities'', VMap [(''drop'', VList [VStr ''ALL''])])] @
     (if 0 < sint (ri_User i)
      then [(''runAsUser'', VInt (ri_User i)), (''runAsGroup'', VInt (ri_Group i))]
      else [(''runAsUser'', VNull), (''runAsGroup'', VNull)]))"

definition queueLabels :: "string \<Rightarrow> val" where
  "queueLabels q = VMap [(''kueue.x-k8s.io/queue-name'', VStr q)]"

definition statefulSetOf :: "string \<Rightarrow> RuntimeIdentity \<Rightarrow> ResourceBounds \<Rightarrow> val" where
  "statefulSetOf q i b = VMap
     ([(''image'', VMap [(''repository'', VStr ''loft-sh/vcluster-oss'')]),
       (''resources'', VMap [(''requests'', requestsOf b), (''limits'', limitsOf b)]),
       (''security'', VMap [(''podSecurityContext'', podSecurity i), (''containerSecurityContext'', containerSecurity i)]),
       (''persistence'', VMap [(''volumeClaim'', boolMap ''enabled'' False),
          (''dataVolume'', VList [VMap [(''name'', VStr ''data''), (''emptyDir'', VMap [])]])])] @
      (if q \<noteq> '''' then [(''pods'', VMap [(''labels'', queueLabels q)])] else []))"

definition controlPlaneValues :: "string \<Rightarrow> RuntimeIdentity \<Rightarrow> ResourceBounds \<Rightarrow> val" where
  "controlPlaneValues q i b = VMap
     ([(''backingStore'', VMap [(''database'', VMap [(''embedded'', boolMap ''enabled'' True)])]),
       (''service'', VMap [(''spec'', VMap [(''type'', VStr ''ClusterIP'')])]),
       (''statefulSet'', statefulSetOf q i b)] @
      (if q \<noteq> '''' then [(''coredns'', VMap [(''deployment'', VMap [(''pods'', VMap [(''labels'', queueLabels q)])])])] else []))"

definition syncValues :: val where
  "syncValues = VMap [(''toHost'', VMap
     [(''pods'', boolMap ''enabled'' True), (''services'', boolMap ''enabled'' True),
      (''endpoints'', boolMap ''enabled'' True), (''endpointSlices'', boolMap ''enabled'' True),
      (''configMaps'', VMap [(''enabled'', VBool True), (''all'', VBool False)]),
      (''secrets'', VMap [(''enabled'', VBool True), (''all'', VBool False)]),
      (''persistentVolumeClaims'', boolMap ''enabled'' False), (''networkPolicies'', boolMap ''enabled'' False),
      (''ingresses'', boolMap ''enabled'' False)])]"

definition policyValues :: val where
  "policyValues = VMap [(''resourceQuota'', boolMap ''enabled'' False), (''limitRange'', boolMap ''enabled'' False),
     (''networkPolicy'', boolMap ''enabled'' False)]"

definition orDefault :: "'a option \<Rightarrow> 'a \<Rightarrow> 'a" where
  "orDefault x d = (case x of None \<Rightarrow> d | Some y \<Rightarrow> y)"

definition helmValues :: "validators \<Rightarrow> string \<Rightarrow> string \<Rightarrow> ValuesOptions \<Rightarrow> values_err + val" where
  "helmValues L name namespace opts0 =
     (let opts = withDefaults opts0 in
      case ValuesOptions_Validate L opts of
        Some e \<Rightarrow> Inl e
      | None \<Rightarrow>
          (let q = vo_HostWorkloadQueue opts;
               i = orDefault (vo_RuntimeIdentity opts) defaultIdentity;
               b = orDefault (vo_EphemeralStorage opts) defaultStorage in
           Inr (VMap [(''sync'', syncValues), (''controlPlane'', controlPlaneValues q i b), (''policies'', policyValues),
             (''exportKubeConfig'', VMap [(''context'', VStr name),
                (''server'', VStr (''https://'' @ name @ ''.'' @ namespace @ '':443''))])])))"

section \<open>Releases and the handoff identity\<close>

record RoleRef =
  rr_APIGroup :: string
  rr_Kind :: string
  rr_Name :: string

record Subject =
  sj_Kind :: string
  sj_APIGroup :: string
  sj_Name :: string
  sj_Namespace :: string

record ClusterRoleBinding =
  crb_Name :: string
  crb_RoleRef :: RoleRef
  crb_Subjects :: "Subject list"

definition desiredHandoffBinding :: ClusterRoleBinding where
  "desiredHandoffBinding = \<lparr>crb_Name = HandoffClusterRoleBinding,
     crb_RoleRef = \<lparr>rr_APIGroup = ''rbac.authorization.k8s.io'', rr_Kind = ''ClusterRole'', rr_Name = ''cluster-admin''\<rparr>,
     crb_Subjects = [\<lparr>sj_Kind = ''ServiceAccount'', sj_APIGroup = '''', sj_Name = HandoffServiceAccount,
        sj_Namespace = HandoffNamespace\<rparr>]\<rparr>"

text \<open>The client of a virtual cluster; \<open>vc_EnsureServiceAccount\<close> is \<open>CreateOrUpdate\<close> with the
  empty mutation.\<close>

record 's vclient =
  vc_EnsureServiceAccount :: "string \<Rightarrow> string \<Rightarrow> 's \<Rightarrow> api_err option \<times> 's"
  vc_GetServiceAccount :: "string \<Rightarrow> string \<Rightarrow> 's \<Rightarrow> api_err option \<times> 's"
  vc_GetBinding :: "string \<Rightarrow> 's \<Rightarrow> (api_err + ClusterRoleBinding) \<times> 's"
  vc_CreateBinding :: "ClusterRoleBinding \<Rightarrow> 's \<Rightarrow> api_err option \<times> 's"
  vc_DeleteBinding :: "ClusterRoleBinding \<Rightarrow> 's \<Rightarrow> api_err option \<times> 's"
  vc_UpdateBinding :: "ClusterRoleBinding \<Rightarrow> 's \<Rightarrow> api_err option \<times> 's"

datatype helm_err = ErrReleaseNotFound | HelmOther string

record Release =
  rel_ChartVersion :: "string option"
  rel_Config :: val

record ActionOptions =
  ac_CreateNamespace :: bool
  ac_KeepHistory :: bool
  ac_Wait :: bool
  ac_Timeout :: duration

text \<open>
  Helm over a cluster state: the configuration of a namespace, the status of a release (its chart
  version is absent when the chart or its metadata is nil), loading a chart, and the actions.
\<close>

record 's helm =
  hm_Init :: "string \<Rightarrow> 's \<Rightarrow> string option \<times> 's"
  hm_Status :: "string \<Rightarrow> string \<Rightarrow> 's \<Rightarrow> (helm_err + Release) \<times> 's"
  hm_Load :: "string \<Rightarrow> 's \<Rightarrow> (string + string) \<times> 's"
  hm_Upgrade :: "string \<Rightarrow> ActionOptions \<Rightarrow> string \<Rightarrow> string \<Rightarrow> val \<Rightarrow> 's \<Rightarrow> string option \<times> 's"
  hm_Install :: "string \<Rightarrow> ActionOptions \<Rightarrow> string \<Rightarrow> string \<Rightarrow> val \<Rightarrow> 's \<Rightarrow> string option \<times> 's"
  hm_Uninstall :: "string \<Rightarrow> ActionOptions \<Rightarrow> string \<Rightarrow> 's \<Rightarrow> helm_err option \<times> 's"

record 's hostclient =
  hc_GetSecretData :: "string \<Rightarrow> string \<Rightarrow> 's \<Rightarrow> (api_err + smap) \<times> 's"
  hc_GetDeployment :: "string \<Rightarrow> string \<Rightarrow> 's \<Rightarrow> (api_err + int) \<times> 's"
  hc_GetStatefulSet :: "string \<Rightarrow> string \<Rightarrow> 's \<Rightarrow> (api_err + int) \<times> 's"

text \<open>The client libraries behind \<open>newVirtualClient\<close>; a REST configuration is opaque but for its
  timeout.\<close>

record RestConfig =
  rc_Config :: string
  rc_Timeout :: duration

record 's clientlib =
  RESTConfigFromKubeConfig :: "string \<Rightarrow> string + RestConfig"
  corev1_AddToScheme :: "string option"
  rbacv1_AddToScheme :: "string option"
  client_New :: "RestConfig \<Rightarrow> string + 's vclient"

record 's HelmManager =
  hmgr_ChartPath :: string
  hmgr_Helm :: "'s helm"
  hmgr_Client :: "'s hostclient"
  hmgr_Library :: "'s clientlib"
  hmgr_VirtualClientFactory :: "(string \<Rightarrow> string + 's vclient) option"
  hmgr_Validators :: validators
  hmgr_Values :: ValuesOptions

datatype vc_err =
    InitializeHelm string
  | ConfigureVCluster values_err
  | LoadChart string
  | UpgradeFailed string
  | GetRelease helm_err
  | InstallFailed string
  | UninstallFailed helm_err
  | VcApi api_err
  | BuildVirtualClient string
  | EnsureServiceAccountFailed api_err
  | CreateBindingFailed api_err
  | GetBindingFailed api_err
  | ReplaceBindingFailed api_err
  | RepairBindingFailed api_err

definition bootstrapConfig :: "'s HelmManager \<Rightarrow> string \<Rightarrow> string \<Rightarrow> 's \<Rightarrow> (vc_err + string option) \<times> 's" where
  "bootstrapConfig m name namespace s =
     (case hc_GetSecretData (hmgr_Client m) namespace (''vc-'' @ name) s of
        (Inl e, s1) \<Rightarrow> (if IsNotFound e then Inr None else Inl (VcApi e), s1)
      | (Inr d, s1) \<Rightarrow> (let config = mapGet d ''config'' in (Inr (if config = '''' then None else Some config), s1)))"

definition controlPlaneReady :: "'s HelmManager \<Rightarrow> string \<Rightarrow> string \<Rightarrow> 's \<Rightarrow> (vc_err + bool) \<times> 's" where
  "controlPlaneReady m name namespace s =
     (case hc_GetDeployment (hmgr_Client m) namespace name s of
        (Inr n, s1) \<Rightarrow> (Inr (n = 1), s1)
      | (Inl e, s1) \<Rightarrow>
          if \<not> IsNotFound e then (Inl (VcApi e), s1)
          else (case hc_GetStatefulSet (hmgr_Client m) namespace name s1 of
             (Inl e2, s2) \<Rightarrow> (if IsNotFound e2 then Inr False else Inl (VcApi e2), s2)
           | (Inr n, s2) \<Rightarrow> (Inr (n = 1), s2)))"

definition newVirtualClient :: "'s clientlib \<Rightarrow> string \<Rightarrow> string + 's vclient" where
  "newVirtualClient L kubeconfig =
     (case RESTConfigFromKubeConfig L kubeconfig of
        Inl e \<Rightarrow> Inl e
      | Inr config \<Rightarrow> (case corev1_AddToScheme L of
          Some e \<Rightarrow> Inl e
        | None \<Rightarrow> (case rbacv1_AddToScheme L of
            Some e \<Rightarrow> Inl e
          | None \<Rightarrow> client_New L (config\<lparr>rc_Timeout := 10 * Second\<rparr>))))"

definition virtualClient :: "'s HelmManager \<Rightarrow> string \<Rightarrow> vc_err + 's vclient" where
  "virtualClient m kubeconfig =
     (let factory = (case hmgr_VirtualClientFactory m of None \<Rightarrow> newVirtualClient (hmgr_Library m) | Some f \<Rightarrow> f) in
      case factory kubeconfig of Inl e \<Rightarrow> Inl (BuildVirtualClient e) | Inr v \<Rightarrow> Inr v)"

definition ensureHandoffBinding :: "'s vclient \<Rightarrow> 's \<Rightarrow> vc_err option \<times> 's" where
  "ensureHandoffBinding v s =
     (let desired = desiredHandoffBinding in
      case vc_GetBinding v (crb_Name desired) s of
        (Inl e, s1) \<Rightarrow>
          if IsNotFound e then
            (case vc_CreateBinding v desired s1 of
               (Some e2, s2) \<Rightarrow> (Some (CreateBindingFailed e2), s2)
             | (None, s2) \<Rightarrow> (None, s2))
          else (Some (GetBindingFailed e), s1)
      | (Inr current, s1) \<Rightarrow>
          if crb_RoleRef current \<noteq> crb_RoleRef desired then
            (case vc_DeleteBinding v current s1 of
               (Some e2, s2) \<Rightarrow> (if IsNotFound e2 then None else Some (ReplaceBindingFailed e2), s2)
             | (None, s2) \<Rightarrow> (None, s2))
          else if crb_Subjects current \<noteq> crb_Subjects desired then
            (case vc_UpdateBinding v (current\<lparr>crb_Subjects := crb_Subjects desired\<rparr>) s1 of
               (Some e2, s2) \<Rightarrow> (Some (RepairBindingFailed e2), s2)
             | (None, s2) \<Rightarrow> (None, s2))
          else (None, s1))"

definition handoffReady :: "'s vclient \<Rightarrow> 's \<Rightarrow> (vc_err + bool) \<times> 's" where
  "handoffReady v s =
     (case vc_GetServiceAccount v HandoffNamespace HandoffServiceAccount s of
        (Some e, s1) \<Rightarrow> (if IsNotFound e then Inr False else Inl (VcApi e), s1)
      | (None, s1) \<Rightarrow>
          (case vc_GetBinding v HandoffClusterRoleBinding s1 of
             (Inl e, s2) \<Rightarrow> (if IsNotFound e then Inr False else Inl (VcApi e), s2)
           | (Inr binding, s2) \<Rightarrow>
               (Inr (crb_RoleRef binding = crb_RoleRef desiredHandoffBinding \<and>
                     crb_Subjects binding = crb_Subjects desiredHandoffBinding), s2)))"

definition ensureHandoff :: "'s HelmManager \<Rightarrow> string \<Rightarrow> string \<Rightarrow> 's \<Rightarrow> vc_err option \<times> 's" where
  "ensureHandoff m name namespace s =
     (case bootstrapConfig m name namespace s of
        (Inl e, s1) \<Rightarrow> (Some e, s1)
      | (Inr None, s1) \<Rightarrow> (None, s1)
      | (Inr (Some config), s1) \<Rightarrow>
          (case virtualClient m config of
             Inl e \<Rightarrow> (Some e, s1)
           | Inr v \<Rightarrow>
               (case vc_EnsureServiceAccount v HandoffNamespace HandoffServiceAccount s1 of
                  (Some e, s2) \<Rightarrow> (Some (EnsureServiceAccountFailed e), s2)
                | (None, s2) \<Rightarrow> ensureHandoffBinding v s2)))"

text \<open>Loading the chart and then upgrading, or installing.\<close>

definition withChart :: "'s HelmManager \<Rightarrow> (string \<Rightarrow> 's \<Rightarrow> string option \<times> 's) \<Rightarrow> (string \<Rightarrow> vc_err) \<Rightarrow> 's \<Rightarrow> vc_err option \<times> 's" where
  "withChart m act err s =
     (case hm_Load (hmgr_Helm m) (hmgr_ChartPath m) s of
        (Inl e, s1) \<Rightarrow> (Some (LoadChart e), s1)
      | (Inr chart, s1) \<Rightarrow>
          (case act chart s1 of (Some e, s2) \<Rightarrow> (Some (err e), s2) | (None, s2) \<Rightarrow> (None, s2)))"

definition releaseOptions :: ActionOptions where
  "releaseOptions = \<lparr>ac_CreateNamespace = False, ac_KeepHistory = False, ac_Wait = False, ac_Timeout = 5 * Minute\<rparr>"

definition HelmManager_Ensure :: "'s HelmManager \<Rightarrow> string \<Rightarrow> string \<Rightarrow> 's \<Rightarrow> vc_err option \<times> 's" where
  "HelmManager_Ensure m name namespace s =
     (case hm_Init (hmgr_Helm m) namespace s of
        (Some e, s1) \<Rightarrow> (Some (InitializeHelm e), s1)
      | (None, s1) \<Rightarrow>
          (case helmValues (hmgr_Validators m) name namespace (hmgr_Values m) of
             Inl e \<Rightarrow> (Some (ConfigureVCluster e), s1)
           | Inr desired \<Rightarrow>
               (case hm_Status (hmgr_Helm m) namespace name s1 of
                  (Inr release, s2) \<Rightarrow>
                    if rel_ChartVersion release = Some ChartVersion \<and> DeepEqual (rel_Config release) desired
                    then ensureHandoff m name namespace s2
                    else withChart m (\<lambda>chart. hm_Upgrade (hmgr_Helm m) namespace releaseOptions name chart desired) UpgradeFailed s2
                | (Inl e, s2) \<Rightarrow>
                    if e \<noteq> ErrReleaseNotFound then (Some (GetRelease e), s2)
                    else withChart m (\<lambda>chart. hm_Install (hmgr_Helm m) namespace releaseOptions name chart desired) InstallFailed s2)))"

definition HelmManager_Delete :: "'s HelmManager \<Rightarrow> string \<Rightarrow> string \<Rightarrow> 's \<Rightarrow> vc_err option \<times> 's" where
  "HelmManager_Delete m name namespace s =
     (case hm_Init (hmgr_Helm m) namespace s of
        (Some e, s1) \<Rightarrow> (Some (InitializeHelm e), s1)
      | (None, s1) \<Rightarrow>
          (case hm_Uninstall (hmgr_Helm m) namespace (releaseOptions\<lparr>ac_Timeout := 0\<rparr>) name s1 of
             (None, s2) \<Rightarrow> (None, s2)
           | (Some e, s2) \<Rightarrow> (if e = ErrReleaseNotFound then None else Some (UninstallFailed e), s2)))"

definition HelmManager_Ready :: "'s HelmManager \<Rightarrow> string \<Rightarrow> string \<Rightarrow> 's \<Rightarrow> (vc_err + bool) \<times> 's" where
  "HelmManager_Ready m name namespace s =
     (case bootstrapConfig m name namespace s of
        (Inl e, s1) \<Rightarrow> (Inl e, s1)
      | (Inr None, s1) \<Rightarrow> (Inr False, s1)
      | (Inr (Some config), s1) \<Rightarrow>
          (case controlPlaneReady m name namespace s1 of
             (Inl e, s2) \<Rightarrow> (Inl e, s2)
           | (Inr False, s2) \<Rightarrow> (Inr False, s2)
           | (Inr True, s2) \<Rightarrow>
               (case virtualClient m config of
                  Inl e \<Rightarrow> (Inl e, s2)
                | Inr v \<Rightarrow> handoffReady v s2)))"

section \<open>The interface of the controller\<close>

record 's Manager =
  vm_Ensure :: "string \<Rightarrow> string \<Rightarrow> 's \<Rightarrow> vc_err option \<times> 's"
  vm_Delete :: "string \<Rightarrow> string \<Rightarrow> 's \<Rightarrow> vc_err option \<times> 's"
  vm_Ready :: "string \<Rightarrow> string \<Rightarrow> 's \<Rightarrow> (vc_err + bool) \<times> 's"

definition helmManager :: "'s HelmManager \<Rightarrow> 's Manager" where
  "helmManager m = \<lparr>vm_Ensure = HelmManager_Ensure m, vm_Delete = HelmManager_Delete m, vm_Ready = HelmManager_Ready m\<rparr>"

section \<open>What the values guarantee\<close>

fun vpath :: "val \<Rightarrow> string list \<Rightarrow> val option" where
  "vpath v [] = Some v"
| "vpath v (k # ks) = (case v of VMap m \<Rightarrow> (case map_of m k of None \<Rightarrow> None | Some w \<Rightarrow> vpath w ks) | _ \<Rightarrow> None)"

lemma withDefaults_parts:
  "vo_HostWorkloadQueue (withDefaults opts) = vo_HostWorkloadQueue opts"
  "vo_RuntimeIdentity (withDefaults opts) = Some (orDefault (vo_RuntimeIdentity opts) defaultIdentity)"
  "vo_EphemeralStorage (withDefaults opts) = Some (orDefault (vo_EphemeralStorage opts) defaultStorage)"
  by (auto simp: withDefaults_def DefaultValuesOptions_def orDefault_def Let_def split: option.splits)

lemma helmValues_cases:
  assumes "helmValues L name namespace opts = Inr v"
  obtains q i b where "q = vo_HostWorkloadQueue opts" "i = orDefault (vo_RuntimeIdentity opts) defaultIdentity"
    "b = orDefault (vo_EphemeralStorage opts) defaultStorage"
    "validateQueue L q = None" "validateIdentity (Some i) = None" "validateStorage L (Some b) = None"
    "v = VMap [(''sync'', syncValues), (''controlPlane'', controlPlaneValues q i b), (''policies'', policyValues),
       (''exportKubeConfig'', VMap [(''context'', VStr name),
          (''server'', VStr (''https://'' @ name @ ''.'' @ namespace @ '':443''))])]"
proof -
  let ?i = "orDefault (vo_RuntimeIdentity opts) defaultIdentity" and ?b = "orDefault (vo_EphemeralStorage opts) defaultStorage"
  have e: "orDefault (Some ?i) defaultIdentity = ?i" "orDefault (Some ?b) defaultStorage = ?b" by (simp_all add: orDefault_def)
  from assms have "ValuesOptions_Validate L (withDefaults opts) = None"
    by (auto simp: helmValues_def Let_def split: option.splits)
  then have n: "validateQueue L (vo_HostWorkloadQueue opts) = None" "validateIdentity (Some ?i) = None"
      "validateStorage L (Some ?b) = None"
    by (auto simp: ValuesOptions_Validate_def withDefaults_parts split: option.splits)
  from assms \<open>ValuesOptions_Validate L (withDefaults opts) = None\<close> show thesis
    by (intro that[OF refl refl refl n]) (simp add: helmValues_def Let_def withDefaults_parts e)
qed

definition securityPath :: "string \<Rightarrow> string \<Rightarrow> string list" where
  "securityPath context field = [''controlPlane'', ''statefulSet'', ''security'', context, field]"

definition storagePath :: "string \<Rightarrow> string list" where
  "storagePath k = [''controlPlane'', ''statefulSet'', ''resources'', k, ''ephemeral-storage'']"

definition syncPath :: "string \<Rightarrow> string \<Rightarrow> string list" where
  "syncPath kind field = [''sync'', ''toHost'', kind, field]"

definition nonRootId :: "val option \<Rightarrow> bool" where
  "nonRootId x \<longleftrightarrow> x = Some VNull \<or> (\<exists>u. x = Some (VInt u) \<and> 0 < sint u)"

lemmas values_defs = controlPlaneValues_def statefulSetOf_def podSecurity_def containerSecurity_def requestsOf_def
  limitsOf_def syncValues_def policyValues_def boolMap_def securityPath_def storagePath_def syncPath_def

text \<open>C23: values that pass validation always run the control plane as a non-root user without privilege escalation
  or capabilities, with numeric identities that are positive or explicitly null, never
  synchronise volume claims, network policies, ingresses or all Secrets to the host, and bound
  ephemeral storage by a positive request not above its limit, or by explicit nulls.\<close>

theorem helm_values_hardened:
  assumes ok: "helmValues L name namespace opts = Inr v"
  shows "(\<forall>ctx \<in> {''podSecurityContext'', ''containerSecurityContext''}.
      vpath v (securityPath ctx ''runAsNonRoot'') = Some (VBool True) \<and>
      nonRootId (vpath v (securityPath ctx ''runAsUser'')) \<and> nonRootId (vpath v (securityPath ctx ''runAsGroup''))) \<and>
    vpath v (securityPath ''containerSecurityContext'' ''allowPrivilegeEscalation'') = Some (VBool False) \<and>
    vpath v (securityPath ''containerSecurityContext'' ''capabilities'' @ [''drop'']) = Some (VList [VStr ''ALL'']) \<and>
    (\<forall>kind \<in> {''persistentVolumeClaims'', ''networkPolicies'', ''ingresses''}. vpath v (syncPath kind ''enabled'') = Some (VBool False)) \<and>
    vpath v (syncPath ''secrets'' ''all'') = Some (VBool False) \<and>
    ((vpath v (storagePath ''requests'') = Some VNull \<and> vpath v (storagePath ''limits'') = Some VNull) \<or>
     (\<exists>r l rq lq. vpath v (storagePath ''requests'') = Some (VStr r) \<and> vpath v (storagePath ''limits'') = Some (VStr l) \<and>
        ParseQuantity L r = Some rq \<and> ParseQuantity L l = Some lq \<and> 0 < rq \<and> rq \<le> lq))"
proof -
  from helmValues_cases[OF ok] obtain q i b where
    i: "validateIdentity (Some i) = None" and b: "validateStorage L (Some b) = None" and
    v: "v = VMap [(''sync'', syncValues), (''controlPlane'', controlPlaneValues q i b), (''policies'', policyValues),
       (''exportKubeConfig'', VMap [(''context'', VStr name),
          (''server'', VStr (''https://'' @ name @ ''.'' @ namespace @ '':443''))])]" by metis
  have security: "vpath v (securityPath ctx ''runAsNonRoot'') = Some (VBool True)"
    "nonRootId (vpath v (securityPath ctx ''runAsUser''))" "nonRootId (vpath v (securityPath ctx ''runAsGroup''))"
    if "ctx \<in> {''podSecurityContext'', ''containerSecurityContext''}" for ctx
    using that i by (auto simp: v values_defs nonRootId_def validateIdentity_def Let_def split: if_splits)
  have storage: "(vpath v (storagePath ''requests'') = Some VNull \<and> vpath v (storagePath ''limits'') = Some VNull) \<or>
     (\<exists>r l rq lq. vpath v (storagePath ''requests'') = Some (VStr r) \<and> vpath v (storagePath ''limits'') = Some (VStr l) \<and>
        ParseQuantity L r = Some rq \<and> ParseQuantity L l = Some lq \<and> 0 < rq \<and> rq \<le> lq)"
    using b by (auto simp: v values_defs validateStorage_def split: if_splits option.splits)
  show ?thesis using security storage by (auto simp: v values_defs)
qed

definition demo_validators :: validators where
  "demo_validators = \<lparr>IsDNS1123Subdomain = (\<lambda>_. []), IsValidLabelValue = (\<lambda>_. []),
     ParseQuantity = (\<lambda>q. if q = ''256Mi'' then Some 268435456000000000 else if q = ''4Gi'' then Some 4294967296000000000 else None)\<rparr>"

lemma demo_values_ok: "\<exists>v. helmValues demo_validators ''a'' ''oub-a'' DefaultValuesOptions = Inr v"
  by (simp add: helmValues_def ValuesOptions_Validate_def validateQueue_def validateIdentity_def validateStorage_def
      withDefaults_parts DefaultValuesOptions_def orDefault_def defaultIdentity_def defaultStorage_def demo_validators_def Let_def)

theorem helm_values_hardened_witness:
  "\<exists>v. helmValues demo_validators ''a'' ''oub-a'' DefaultValuesOptions = Inr v \<and>
     vpath v (securityPath ''containerSecurityContext'' ''allowPrivilegeEscalation'') = Some (VBool False)"
  using demo_values_ok helm_values_hardened by blast

section \<open>Comparing a stored release with the desired values\<close>

text \<open>The values \<open>encoding/json\<close> decodes into \<open>map[string]any\<close>: distinct keys and no \<open>int64\<close>.\<close>

fun decodedVal :: "val \<Rightarrow> bool" where
  "decodedVal (VInt _) = False"
| "decodedVal (VList xs) = list_all decodedVal xs"
| "decodedVal (VMap m) = (distinct (map fst m) \<and> list_all (\<lambda>x. decodedVal (snd x)) m)"
| "decodedVal _ = True"

lemma map_of_same_keys:
  assumes "distinct (map fst a)" and "length a = length b" and "fst ` set a \<subseteq> fst ` set b" and "map_of b k = Some v"
  shows "\<exists>u. map_of a k = Some u"
proof -
  have "card (fst ` set a) = length a" using assms(1) by (metis distinct_card length_map list.set_map)
  moreover have "card (fst ` set b) \<le> length b" by (metis card_length length_map list.set_map)
  ultimately have "fst ` set a = fst ` set b" using assms(2,3) by (metis List.finite_set card_seteq finite_imageI)
  with assms(4) show ?thesis by (metis map_of_eq_None_iff not_Some_eq option.simps(3))
qed

lemma DeepEqual_path:
  "DeepEqual x y \<Longrightarrow> decodedVal x \<Longrightarrow> vpath y p \<noteq> Some (VInt n)"
proof (induction p arbitrary: x y)
  case Nil
  then show ?case by (cases x) (auto split: val.splits)
next
  case (Cons k p)
  show ?case
  proof
    assume "vpath y (k # p) = Some (VInt n)"
    then obtain b v where b: "y = VMap b" "map_of b k = Some v" "vpath v p = Some (VInt n)"
      by (auto split: val.splits option.splits)
    with Cons.prems(1) obtain a where a: "x = VMap a" by (cases x) auto
    with b Cons.prems have all: "length a = length b" "distinct (map fst a)"
      "\<forall>z \<in> set a. decodedVal (snd z) \<and> (\<exists>w. map_of b (fst z) = Some w \<and> DeepEqual (snd z) w)"
      by (auto simp: list_all_iff split: option.splits)
    then have "fst ` set a \<subseteq> fst ` set b" by (auto dest: map_of_SomeD intro: image_eqI) (metis fst_conv image_eqI map_of_SomeD)
    with map_of_same_keys[OF all(2,1)] b(2) obtain u where "map_of a k = Some u" by blast
    then have "(k, u) \<in> set a" by (rule map_of_SomeD)
    with all(3) b(2) have "decodedVal u" "DeepEqual u v" by force+
    with Cons.IH b(3) show False by blast
  qed
qed

lemma numeric_user_path:
  "0 < sint (ri_User i) \<Longrightarrow>
   vpath (VMap [(''sync'', x), (''controlPlane'', controlPlaneValues q i b), (''policies'', y), (''exportKubeConfig'', z)])
     (securityPath ''podSecurityContext'' ''runAsUser'') = Some (VInt (ri_User i))"
  by (simp add: values_defs)

text \<open>A release read back from Helm's JSON storage never compares equal to desired values with a numeric runtime
  identity, the default: whatever the release, \<open>Ensure\<close> upgrades it again and does not reach the
  handoff.\<close>

theorem numeric_identity_always_upgrades:
  assumes "hm_Init (hmgr_Helm m) namespace s = (None, s1)"
    and "helmValues (hmgr_Validators m) name namespace (hmgr_Values m) = Inr desired"
    and "hm_Status (hmgr_Helm m) namespace name s1 = (Inr release, s2)"
    and "decodedVal (rel_Config release)"
    and "0 < sint (ri_User (orDefault (vo_RuntimeIdentity (hmgr_Values m)) defaultIdentity))"
  shows "HelmManager_Ensure m name namespace s =
    withChart m (\<lambda>chart. hm_Upgrade (hmgr_Helm m) namespace releaseOptions name chart desired) UpgradeFailed s2"
proof -
  let ?u = "ri_User (orDefault (vo_RuntimeIdentity (hmgr_Values m)) defaultIdentity)"
  from helmValues_cases[OF assms(2)] have "vpath desired (securityPath ''podSecurityContext'' ''runAsUser'') = Some (VInt ?u)"
    by (metis (no_types, lifting) assms(5) numeric_user_path)
  then have "\<not> DeepEqual (rel_Config release) desired" using DeepEqual_path assms(4) by blast
  then show ?thesis using assms(1-3) by (simp add: HelmManager_Ensure_def)
qed

text \<open>A manager whose release is stored as the desired tree with the numbers turned to floats.\<close>

definition demo_stored :: val where
  "demo_stored = VMap [(''controlPlane'', VMap [(''statefulSet'', VMap [(''security'',
     VMap [(''podSecurityContext'', VMap [(''runAsUser'', VFloat 0x408F400000000000)])])])])]"

definition demo_helm :: "'s helm" where
  "demo_helm = \<lparr>hm_Init = (\<lambda>_ s. (None, s)),
     hm_Status = (\<lambda>_ _ s. (Inr \<lparr>rel_ChartVersion = Some ChartVersion, rel_Config = demo_stored\<rparr>, s)),
     hm_Load = (\<lambda>_ s. (Inr ''chart'', s)), hm_Upgrade = (\<lambda>_ _ _ _ _ s. (None, s)),
     hm_Install = (\<lambda>_ _ _ _ _ s. (None, s)), hm_Uninstall = (\<lambda>_ _ _ s. (None, s))\<rparr>"

definition demo_manager :: "'s helm \<Rightarrow> 's hostclient \<Rightarrow> 's vclient \<Rightarrow> 's HelmManager" where
  "demo_manager h c v = \<lparr>hmgr_ChartPath = ''chart'', hmgr_Helm = h, hmgr_Client = c,
     hmgr_Library = \<lparr>RESTConfigFromKubeConfig = (\<lambda>k. Inr \<lparr>rc_Config = k, rc_Timeout = 0\<rparr>), corev1_AddToScheme = None,
       rbacv1_AddToScheme = None, client_New = (\<lambda>_. Inr v)\<rparr>,
     hmgr_VirtualClientFactory = None, hmgr_Validators = demo_validators, hmgr_Values = DefaultValuesOptions\<rparr>"

definition idle_host :: "'s hostclient" where
  "idle_host = \<lparr>hc_GetSecretData = (\<lambda>_ n s. (Inl (NotFound n), s)), hc_GetDeployment = (\<lambda>_ n s. (Inl (NotFound n), s)),
     hc_GetStatefulSet = (\<lambda>_ n s. (Inl (NotFound n), s))\<rparr>"

definition idle_virtual :: "'s vclient" where
  "idle_virtual = \<lparr>vc_EnsureServiceAccount = (\<lambda>_ _ s. (None, s)), vc_GetServiceAccount = (\<lambda>_ n s. (Some (NotFound n), s)),
     vc_GetBinding = (\<lambda>n s. (Inl (NotFound n), s)), vc_CreateBinding = (\<lambda>_ s. (None, s)),
     vc_DeleteBinding = (\<lambda>_ s. (None, s)), vc_UpdateBinding = (\<lambda>_ s. (None, s))\<rparr>"

theorem numeric_identity_always_upgrades_witness:
  "HelmManager_Ensure (demo_manager demo_helm idle_host idle_virtual) ''a'' ''oub-a'' () = (None, ()) \<and> decodedVal demo_stored"
proof -
  obtain d where d: "helmValues demo_validators ''a'' ''oub-a'' DefaultValuesOptions = Inr d" using demo_values_ok by blast
  have "decodedVal demo_stored" by (simp add: demo_stored_def)
  moreover have "0 < sint (ri_User (orDefault (vo_RuntimeIdentity DefaultValuesOptions) defaultIdentity))"
    by (simp add: DefaultValuesOptions_def orDefault_def defaultIdentity_def)
  ultimately show ?thesis
    using numeric_identity_always_upgrades[of "demo_manager demo_helm idle_host idle_virtual" "''oub-a''" "()" "()" "''a''" d
        "\<lparr>rel_ChartVersion = Some ChartVersion, rel_Config = demo_stored\<rparr>" "()"] d
    by (simp add: demo_manager_def demo_helm_def withChart_def)
qed

section \<open>Readiness and convergence of the handoff\<close>

text \<open>What a positive answer of the readiness check rests on, over the states of its calls.\<close>

definition handoff_observed :: "'s HelmManager \<Rightarrow> string \<Rightarrow> string \<Rightarrow> 's \<Rightarrow> 's \<Rightarrow> bool" where
  "handoff_observed m name namespace s s' \<longleftrightarrow> (\<exists>config s1 s2 v s3 binding.
     bootstrapConfig m name namespace s = (Inr (Some config), s1) \<and>
     controlPlaneReady m name namespace s1 = (Inr True, s2) \<and> virtualClient m config = Inr v \<and>
     vc_GetServiceAccount v HandoffNamespace HandoffServiceAccount s2 = (None, s3) \<and>
     vc_GetBinding v HandoffClusterRoleBinding s3 = (Inr binding, s') \<and>
     crb_RoleRef binding = crb_RoleRef desiredHandoffBinding \<and> crb_Subjects binding = crb_Subjects desiredHandoffBinding)"

text \<open>What a deletion without an error rests on: Helm uninstalled the release or had none.\<close>

definition release_gone :: "'s HelmManager \<Rightarrow> string \<Rightarrow> string \<Rightarrow> 's \<Rightarrow> 's \<Rightarrow> bool" where
  "release_gone m name namespace s s' \<longleftrightarrow> (\<exists>s1 e. hm_Init (hmgr_Helm m) namespace s = (None, s1) \<and>
     hm_Uninstall (hmgr_Helm m) namespace (releaseOptions\<lparr>ac_Timeout := 0\<rparr>) name s1 = (e, s') \<and> e \<in> {None, Some ErrReleaseNotFound})"

locale vcluster_manager =
  fixes V :: "'s Manager"
    and gone :: "string \<Rightarrow> string \<Rightarrow> 's \<Rightarrow> 's \<Rightarrow> bool"
    and handoff :: "string \<Rightarrow> string \<Rightarrow> 's \<Rightarrow> 's \<Rightarrow> bool"
  assumes Delete_gone: "vm_Delete V name namespace s = (None, s') \<Longrightarrow> gone name namespace s s'"
    and Ready_handoff: "vm_Ready V name namespace s = (Inr True, s') \<Longrightarrow> handoff name namespace s s'"

lemma HelmManager_Delete_gone:
  "HelmManager_Delete m name namespace s = (None, s') \<Longrightarrow> release_gone m name namespace s s'"
  by (auto simp: HelmManager_Delete_def release_gone_def split: prod.splits option.splits if_splits)

lemma handoffReady_True:
  assumes "handoffReady v s = (Inr True, s')"
  shows "\<exists>s1 binding. vc_GetServiceAccount v HandoffNamespace HandoffServiceAccount s = (None, s1) \<and>
    vc_GetBinding v HandoffClusterRoleBinding s1 = (Inr binding, s') \<and>
    crb_RoleRef binding = crb_RoleRef desiredHandoffBinding \<and> crb_Subjects binding = crb_Subjects desiredHandoffBinding"
  using assms by (auto simp: handoffReady_def split: prod.splits option.splits sum.splits if_splits)

lemma HelmManager_Ready_handoff:
  assumes "HelmManager_Ready m name namespace s = (Inr True, s')"
  shows "handoff_observed m name namespace s s'"
proof -
  from assms obtain config s1 s2 v where
    "bootstrapConfig m name namespace s = (Inr (Some config), s1)" "controlPlaneReady m name namespace s1 = (Inr True, s2)"
    "virtualClient m config = Inr v" "handoffReady v s2 = (Inr True, s')"
    by (auto simp: HelmManager_Ready_def split: prod.splits option.splits sum.splits bool.splits)
  moreover from handoffReady_True[OF this(4)] obtain s3 binding where
    "vc_GetServiceAccount v HandoffNamespace HandoffServiceAccount s2 = (None, s3)"
    "vc_GetBinding v HandoffClusterRoleBinding s3 = (Inr binding, s')"
    "crb_RoleRef binding = crb_RoleRef desiredHandoffBinding" "crb_Subjects binding = crb_Subjects desiredHandoffBinding"
    by blast
  ultimately show ?thesis unfolding handoff_observed_def by metis
qed

interpretation helm: vcluster_manager "helmManager m" "release_gone m" "handoff_observed m"
  by unfold_locales (simp_all add: helmManager_def HelmManager_Delete_gone HelmManager_Ready_handoff)

text \<open>
  A working API of the virtual cluster, with \<open>sa\<close> whether the ServiceAccount is stored and \<open>b\<close>
  the stored binding: role references are immutable, so an update keeps them.
\<close>

definition virtual_laws :: "'s vclient \<Rightarrow> ('s \<Rightarrow> bool) \<Rightarrow> ('s \<Rightarrow> ClusterRoleBinding option) \<Rightarrow> bool" where
  "virtual_laws v sa b \<longleftrightarrow>
     (\<forall>s. \<exists>s'. vc_EnsureServiceAccount v HandoffNamespace HandoffServiceAccount s = (None, s') \<and> sa s' \<and> b s' = b s) \<and>
     (\<forall>s. sa s \<longrightarrow> vc_GetServiceAccount v HandoffNamespace HandoffServiceAccount s = (None, s)) \<and>
     (\<forall>s. vc_GetBinding v HandoffClusterRoleBinding s =
        (case b s of None \<Rightarrow> Inl (NotFound HandoffClusterRoleBinding) | Some x \<Rightarrow> Inr x, s)) \<and>
     (\<forall>s x. b s = None \<longrightarrow> (\<exists>s'. vc_CreateBinding v x s = (None, s') \<and> b s' = Some x \<and> sa s' = sa s)) \<and>
     (\<forall>s x y. b s = Some y \<longrightarrow> crb_RoleRef x = crb_RoleRef y \<longrightarrow>
        (\<exists>s'. vc_UpdateBinding v x s = (None, s') \<and> b s' = Some x \<and> sa s' = sa s)) \<and>
     (\<forall>s y. b s = Some y \<longrightarrow> (\<exists>s'. vc_DeleteBinding v y s = (None, s') \<and> b s' = None \<and> sa s' = sa s))"

definition bindingWanted :: "ClusterRoleBinding option \<Rightarrow> bool" where
  "bindingWanted x \<longleftrightarrow> (\<exists>c. x = Some c \<and> crb_RoleRef c = crb_RoleRef desiredHandoffBinding \<and>
     crb_Subjects c = crb_Subjects desiredHandoffBinding)"

lemma ensureHandoffBinding_pass:
  assumes "virtual_laws v sa b"
  obtains s' where "ensureHandoffBinding v s = (None, s')" "sa s' = sa s"
    "case b s of None \<Rightarrow> bindingWanted (b s')
     | Some c \<Rightarrow> if crb_RoleRef c = crb_RoleRef desiredHandoffBinding then bindingWanted (b s') else b s' = None"
proof -
  have name: "crb_Name desiredHandoffBinding = HandoffClusterRoleBinding" by (simp add: desiredHandoffBinding_def)
  note get = assms[unfolded virtual_laws_def, THEN conjunct2, THEN conjunct2, THEN conjunct1, rule_format, of s]
  show thesis
  proof (cases "b s")
    case None
    then obtain s' where "vc_CreateBinding v desiredHandoffBinding s = (None, s')" "b s' = Some desiredHandoffBinding" "sa s' = sa s"
      using assms unfolding virtual_laws_def by blast
    then show ?thesis using None get by (intro that[of s']) (simp_all add: ensureHandoffBinding_def name bindingWanted_def)
  next
    case (Some c)
    consider (role) "crb_RoleRef c \<noteq> crb_RoleRef desiredHandoffBinding"
      | (subj) "crb_RoleRef c = crb_RoleRef desiredHandoffBinding" "crb_Subjects c \<noteq> crb_Subjects desiredHandoffBinding"
      | (ok) "crb_RoleRef c = crb_RoleRef desiredHandoffBinding" "crb_Subjects c = crb_Subjects desiredHandoffBinding"
      by blast
    then show ?thesis
    proof cases
      case role
      from Some obtain s' where "vc_DeleteBinding v c s = (None, s')" "b s' = None" "sa s' = sa s"
        using assms unfolding virtual_laws_def by blast
      then show ?thesis using Some get role by (intro that[of s']) (simp_all add: ensureHandoffBinding_def name)
    next
      case subj
      let ?x = "c\<lparr>crb_Subjects := crb_Subjects desiredHandoffBinding\<rparr>"
      have "crb_RoleRef ?x = crb_RoleRef c" by simp
      with Some obtain s' where "vc_UpdateBinding v ?x s = (None, s')" "b s' = Some ?x" "sa s' = sa s"
        using assms unfolding virtual_laws_def by blast
      then show ?thesis using Some get subj by (intro that[of s']) (simp_all add: ensureHandoffBinding_def name bindingWanted_def)
    next
      case ok
      then show ?thesis using Some get by (intro that[of s]) (simp_all add: ensureHandoffBinding_def name bindingWanted_def)
    qed
  qed
qed

lemma ensureHandoff_pass:
  assumes laws: "virtual_laws v sa b"
    and boot: "\<And>t. bootstrapConfig m name namespace t = (Inr (Some config), t)" and client: "virtualClient m config = Inr v"
  obtains s' where "ensureHandoff m name namespace s = (None, s')" "sa s'"
    "case b s of None \<Rightarrow> bindingWanted (b s')
     | Some c \<Rightarrow> if crb_RoleRef c = crb_RoleRef desiredHandoffBinding then bindingWanted (b s') else b s' = None"
proof -
  from laws obtain t where t: "vc_EnsureServiceAccount v HandoffNamespace HandoffServiceAccount s = (None, t)" "sa t" "b t = b s"
    unfolding virtual_laws_def by blast
  from ensureHandoffBinding_pass[OF laws, of t] obtain s' where p: "ensureHandoffBinding v t = (None, s')" "sa s' = sa t"
    "case b t of None \<Rightarrow> bindingWanted (b s')
     | Some c \<Rightarrow> if crb_RoleRef c = crb_RoleRef desiredHandoffBinding then bindingWanted (b s') else b s' = None" .
  show thesis by (rule that[of s']) (use p t in \<open>simp_all add: ensureHandoff_def boot client\<close>)
qed

text \<open>C24: against a working virtual API two passes of the handoff, whatever identity was stored before, end with a
  state the readiness check accepts.\<close>

theorem handoff_converges:
  assumes laws: "virtual_laws v sa b"
    and boot: "\<And>t. bootstrapConfig m name namespace t = (Inr (Some config), t)" and client: "virtualClient m config = Inr v"
  shows "\<exists>s1 s2. ensureHandoff m name namespace s = (None, s1) \<and> ensureHandoff m name namespace s1 = (None, s2) \<and>
    handoffReady v s2 = (Inr True, s2)"
proof -
  from ensureHandoff_pass[OF laws boot client, of s]
  obtain s1 where s1: "ensureHandoff m name namespace s = (None, s1)" "sa s1"
    "case b s of None \<Rightarrow> bindingWanted (b s1)
     | Some c \<Rightarrow> if crb_RoleRef c = crb_RoleRef desiredHandoffBinding then bindingWanted (b s1) else b s1 = None" .
  from ensureHandoff_pass[OF laws boot client, of s1]
  obtain s2 where s2: "ensureHandoff m name namespace s1 = (None, s2)" "sa s2"
    "case b s1 of None \<Rightarrow> bindingWanted (b s2)
     | Some c \<Rightarrow> if crb_RoleRef c = crb_RoleRef desiredHandoffBinding then bindingWanted (b s2) else b s2 = None" .
  have "bindingWanted (b s1) \<or> b s1 = None" using s1(3) by (auto split: option.splits if_splits)
  with s2(3) have "bindingWanted (b s2)" by (auto simp: bindingWanted_def split: option.splits if_splits)
  moreover have "vc_GetServiceAccount v HandoffNamespace HandoffServiceAccount s2 = (None, s2)"
    "vc_GetBinding v HandoffClusterRoleBinding s2 = (case b s2 of None \<Rightarrow> Inl (NotFound HandoffClusterRoleBinding) | Some x \<Rightarrow> Inr x, s2)"
    using laws s2(2) unfolding virtual_laws_def by blast+
  ultimately have "handoffReady v s2 = (Inr True, s2)" by (auto simp: handoffReady_def bindingWanted_def)
  with s1 s2 show ?thesis by blast
qed

type_synonym vstate = "bool \<times> ClusterRoleBinding option"

definition memvirtual :: "vstate vclient" where
  "memvirtual = \<lparr>vc_EnsureServiceAccount = (\<lambda>_ _ s. (None, (True, snd s))),
     vc_GetServiceAccount = (\<lambda>_ n s. (if fst s then None else Some (NotFound n), s)),
     vc_GetBinding = (\<lambda>n s. (case snd s of None \<Rightarrow> Inl (NotFound n) | Some x \<Rightarrow> Inr x, s)),
     vc_CreateBinding = (\<lambda>x s. case snd s of None \<Rightarrow> (None, (fst s, Some x)) | Some _ \<Rightarrow> (Some (AlreadyExists (crb_Name x)), s)),
     vc_DeleteBinding = (\<lambda>x s. (None, (fst s, None))),
     vc_UpdateBinding = (\<lambda>x s. case snd s of None \<Rightarrow> (Some (NotFound (crb_Name x)), s)
        | Some y \<Rightarrow> if crb_RoleRef x = crb_RoleRef y then (None, (fst s, Some x)) else (Some (BadRequest ''immutable''), s))\<rparr>"

lemma memvirtual_laws: "virtual_laws memvirtual fst snd"
  by (auto simp: virtual_laws_def memvirtual_def)

definition demo_host :: "'s hostclient" where
  "demo_host = \<lparr>hc_GetSecretData = (\<lambda>_ _ s. (Inr [''config'' \<mapsto> ''kubeconfig''], s)),
     hc_GetDeployment = (\<lambda>_ _ s. (Inr 1, s)), hc_GetStatefulSet = (\<lambda>_ _ s. (Inr 1, s))\<rparr>"

definition wrongBinding :: ClusterRoleBinding where
  "wrongBinding = desiredHandoffBinding\<lparr>crb_RoleRef := \<lparr>rr_APIGroup = '''', rr_Kind = ''ClusterRole'', rr_Name = ''view''\<rparr>\<rparr>"

theorem handoff_converges_witness:
  "\<exists>s1 s2. ensureHandoff (demo_manager demo_helm demo_host memvirtual) ''a'' ''oub-a'' (False, Some wrongBinding) = (None, s1) \<and>
     ensureHandoff (demo_manager demo_helm demo_host memvirtual) ''a'' ''oub-a'' s1 = (None, s2) \<and>
     handoffReady memvirtual s2 = (Inr True, s2)"
  by (rule handoff_converges[OF memvirtual_laws, where config = "''kubeconfig''"])
    (simp_all add: bootstrapConfig_def demo_manager_def demo_host_def mapGet_def virtualClient_def newVirtualClient_def)

end
