(* ===== verification/Controller.thy ===== *)
theory Controller
  imports Boundary VCluster
begin

text \<open>
  The controller, \<open>internal/controller/oubliette_controller.go\<close> and \<open>metrics.go\<close>: one pass of
  \<open>Reconcile\<close>, with teardown (\<open>finalize\<close>), the projection of the metrics status and the failure
  report. The vCluster manager and the evidence exporter are the interfaces of the code, here a
  record and a function; the API client, the condition helpers and the text of an error are
  parameters. The clock is the argument \<open>now\<close>.
\<close>

section \<open>State and results\<close>

definition Finalizer :: string where "Finalizer = ''oubliette.tlrmchlsmth.github.io/finalizer''"

datatype 'x ctl_err =
    CtlApi api_err
  | CtlTier profile_err
  | CtlBoundary boundary_err
  | CtlVCluster vc_err
  | CtlEvidence 'x
  | ExportBeforeTeardownFailed 'x
  | MetricsProfileIncomplete

type_synonym ('s, 'x) exporter = "Oubliette \<Rightarrow> string \<Rightarrow> 's \<Rightarrow> 'x option \<times> 's"

text \<open>The endpoints of a slice are their \<open>Ready\<close> conditions, a nil one being \<open>None\<close>.\<close>

record 's discovery =
  ds_GetService :: "string \<Rightarrow> string \<Rightarrow> 's \<Rightarrow> api_err option \<times> 's"
  ds_ListSlices :: "string \<Rightarrow> string \<Rightarrow> 's \<Rightarrow> (api_err + bool option list list) \<times> 's"

record ('s, 'x) Reconciler =
  r_Client :: "'s oub_client"
  r_Cluster :: "'s cluster"
  r_Discovery :: "'s discovery"
  r_Meta :: apimeta
  r_ErrorText :: "'x ctl_err \<Rightarrow> string"
  r_VCluster :: "'s Manager"
  r_TombstoneRetention :: duration
  r_KueueClusterQueue :: string
  r_KueueManagedLabel :: string
  r_KueueManagedValue :: string
  r_MetricsProfile :: MetricsProfile
  r_MetricsServiceNamespace :: string
  r_MetricsServiceName :: string
  r_EvidenceExporter :: "('s, 'x) exporter option"

definition boundaryConfig :: "('s, 'x) Reconciler \<Rightarrow> boundary_config" where
  "boundaryConfig r = \<lparr>bc_KueueClusterQueue = r_KueueClusterQueue r, bc_KueueManagedLabel = r_KueueManagedLabel r,
     bc_KueueManagedValue = r_KueueManagedValue r, bc_MetricsEnabled = mp_Enabled (r_MetricsProfile r),
     bc_MetricsServiceNamespace = r_MetricsServiceNamespace r\<rparr>"

record Result =
  res_Requeue :: bool
  res_RequeueAfter :: duration

definition noResult :: Result where "noResult = \<lparr>res_Requeue = False, res_RequeueAfter = 0\<rparr>"

definition after :: "duration \<Rightarrow> Result" where "after d = \<lparr>res_Requeue = False, res_RequeueAfter = d\<rparr>"

definition requeue :: Result where "requeue = \<lparr>res_Requeue = True, res_RequeueAfter = 0\<rparr>"

type_synonym ('s, 'x) outcome = "(Result \<times> 'x ctl_err option) \<times> 's"

section \<open>Conditions and finalizers\<close>

definition setCondition :: "apimeta \<Rightarrow> string \<Rightarrow> string \<Rightarrow> string \<Rightarrow> string \<Rightarrow> Oubliette \<Rightarrow> Oubliette" where
  "setCondition am t status reason message obj =
     obj\<lparr>o_Status := (o_Status obj)\<lparr>st_Conditions := SetStatusCondition am (st_Conditions (o_Status obj))
       \<lparr>c_Type = t, c_Status = status, c_ObservedGeneration = o_Generation obj, c_LastTransitionTime = zeroTime,
        c_Reason = reason, c_Message = message\<rparr>\<rparr>\<rparr>"

definition conditionTrue :: "apimeta \<Rightarrow> Oubliette \<Rightarrow> string \<Rightarrow> bool" where
  "conditionTrue am obj name = (case FindStatusCondition am (st_Conditions (o_Status obj)) name of
     None \<Rightarrow> False | Some c \<Rightarrow> c_Status c = ConditionTrue)"

definition ContainsFinalizer :: "Oubliette \<Rightarrow> string \<Rightarrow> bool" where
  "ContainsFinalizer obj f \<longleftrightarrow> f \<in> set (o_Finalizers obj)"

definition AddFinalizer :: "Oubliette \<Rightarrow> string \<Rightarrow> Oubliette" where
  "AddFinalizer obj f = (if ContainsFinalizer obj f then obj else obj\<lparr>o_Finalizers := o_Finalizers obj @ [f]\<rparr>)"

definition RemoveFinalizer :: "Oubliette \<Rightarrow> string \<Rightarrow> Oubliette" where
  "RemoveFinalizer obj f = obj\<lparr>o_Finalizers := filter (\<lambda>g. g \<noteq> f) (o_Finalizers obj)\<rparr>"

section \<open>Failure, metrics status\<close>

definition fail :: "('s, 'x) Reconciler \<Rightarrow> Oubliette \<Rightarrow> string \<Rightarrow> 'x ctl_err \<Rightarrow> 's \<Rightarrow> ('s, 'x) outcome" where
  "fail r obj reason err s =
     ((after (10 * Second), Some err),
      snd (cl_StatusPatch (r_Client r) (setCondition (r_Meta r) ConditionReady ConditionFalse reason (r_ErrorText r err) obj) obj s))"

fun anyReady :: "bool option list list \<Rightarrow> bool" where
  "anyReady [] = False"
| "anyReady (eps # rest) = (if Some True \<in> set eps then True else anyReady rest)"

definition metricsServiceReady :: "('s, 'x) Reconciler \<Rightarrow> 's \<Rightarrow> (api_err + bool) \<times> 's" where
  "metricsServiceReady r s =
     (case ds_GetService (r_Discovery r) (r_MetricsServiceNamespace r) (r_MetricsServiceName r) s of
        (Some e, s1) \<Rightarrow> (if IsNotFound e then Inr False else Inl e, s1)
      | (None, s1) \<Rightarrow>
          (case ds_ListSlices (r_Discovery r) (r_MetricsServiceNamespace r) (r_MetricsServiceName r) s1 of
             (Inl e, s2) \<Rightarrow> (Inl e, s2)
           | (Inr slices, s2) \<Rightarrow> (Inr (anyReady slices), s2)))"

definition setMetrics :: "string \<Rightarrow> string \<Rightarrow> string \<Rightarrow> string \<Rightarrow> Oubliette \<Rightarrow> Oubliette" where
  "setMetrics endpoint generation scope domain obj = obj\<lparr>o_Status := (o_Status obj)
     \<lparr>st_MetricsEndpoint := endpoint, st_MetricsProfileGeneration := generation,
      st_MetricsIsolationScope := scope, st_MetricsTrustDomain := domain\<rparr>\<rparr>"

text \<open>The projection changes the caller's object, so it returns it beside the readiness or the error.\<close>

definition projectMetricsStatus ::
  "('s, 'x) Reconciler \<Rightarrow> Oubliette \<Rightarrow> bool \<Rightarrow> 's \<Rightarrow> (('x ctl_err + bool) \<times> Oubliette) \<times> 's" where
  "projectMetricsStatus r obj virtualReady s =
     (let p = r_MetricsProfile r; cond = setCondition (r_Meta r) ConditionMetricsReady in
      if \<not> mp_Enabled p then
        ((Inr True, cond ConditionFalse ''MetricsDisabled'' ''metrics access is not enabled by the resolved profile''
            (setMetrics '''' '''' '''' '''' obj)), s)
      else if mp_Generation p = '''' \<or> mp_EndpointPrefix p = '''' \<or> mp_IsolationScope p = '''' \<or> mp_TrustDomain p = '''' \<or>
          r_MetricsServiceNamespace r = '''' \<or> r_MetricsServiceName r = '''' then
        ((Inl MetricsProfileIncomplete, obj), s)
      else
        (let obj1 = setMetrics (mp_EndpointPrefix p @ '':'' @ o_Name obj) (mp_Generation p) (mp_IsolationScope p) (mp_TrustDomain p) obj in
         if \<not> virtualReady then
           ((Inr False, cond ConditionFalse ''VirtualAPINotReady'' ''metrics access waits for virtual API readiness'' obj1), s)
         else
           (case metricsServiceReady r s of
              (Inl e, s1) \<Rightarrow> ((Inl (CtlApi e), obj1), s1)
            | (Inr False, s1) \<Rightarrow>
                ((Inr False, cond ConditionFalse ''QueryGatewayNotReady'' ''waiting for the private metrics query gateway'' obj1), s1)
            | (Inr True, s1) \<Rightarrow>
                ((Inr True, cond ConditionTrue ''QueryGatewayReady'' ''private scoped metrics access is ready'' obj1), s1))))"

section \<open>Teardown\<close>

definition expiringStatus :: "apimeta \<Rightarrow> Oubliette \<Rightarrow> Oubliette" where
  "expiringStatus am obj = setCondition am ConditionExpiring ConditionTrue ''TTLExpired'' ''expiry deadline reached'' obj"

definition forgottenStatus :: "apimeta \<Rightarrow> time \<Rightarrow> Oubliette \<Rightarrow> Oubliette" where
  "forgottenStatus am now obj =
     setCondition am ConditionForgotten ConditionTrue ''TTLTeardownComplete'' ''TTL teardown completed''
      (setCondition am ConditionMetricsReady ConditionFalse ''Forgotten'' ''metrics access has been revoked''
       (setCondition am ConditionReady ConditionFalse ''Forgotten'' ''all runtime resources have been removed''
        (setMetrics '''' '''' '''' '''' (obj\<lparr>o_Status := (o_Status obj)
           \<lparr>st_ForgottenAt := Some now, st_HostNamespace := '''', st_VirtualEndpoint := ''''\<rparr>\<rparr>))))"

text \<open>The first step: marking an expired object, where a conflict is ignored.\<close>

definition markExpiring :: "('s, 'x) Reconciler \<Rightarrow> Oubliette \<Rightarrow> bool \<Rightarrow> 's \<Rightarrow> (api_err + Oubliette) \<times> 's" where
  "markExpiring r obj expired s =
     (if \<not> expired then (Inr obj, s)
      else (case cl_StatusPatch (r_Client r) (expiringStatus (r_Meta r) obj) obj s of
        (Inr obj1, s1) \<Rightarrow> (Inr obj1, s1)
      | (Inl e, s1) \<Rightarrow> (if IsConflict e then Inr (expiringStatus (r_Meta r) obj) else Inl e, s1)))"

definition runExport :: "('s, 'x) Reconciler \<Rightarrow> Oubliette \<Rightarrow> string \<Rightarrow> 's \<Rightarrow> 'x option \<times> 's" where
  "runExport r obj namespace s = (case r_EvidenceExporter r of None \<Rightarrow> (None, s) | Some export \<Rightarrow> export obj namespace s)"

definition finishExpired :: "('s, 'x) Reconciler \<Rightarrow> Oubliette \<Rightarrow> time \<Rightarrow> 's \<Rightarrow> ('s, 'x) outcome" where
  "finishExpired r obj now s =
     (case cl_StatusPatch (r_Client r) (forgottenStatus (r_Meta r) now obj) obj s of
        (Inl e, s1) \<Rightarrow> ((noResult, Some (CtlApi e)), s1)
      | (Inr _, s1) \<Rightarrow> ((after Hour, None), s1))"

definition finishDeleted :: "('s, 'x) Reconciler \<Rightarrow> Oubliette \<Rightarrow> 's \<Rightarrow> ('s, 'x) outcome" where
  "finishDeleted r obj s =
     (if ContainsFinalizer obj Finalizer then
        (case cl_Update (r_Client r) (RemoveFinalizer obj Finalizer) s of
           (Inl e, s1) \<Rightarrow> ((noResult, if IsNotFound e then None else Some (CtlApi e)), s1)
         | (Inr _, s1) \<Rightarrow> ((noResult, None), s1))
      else ((noResult, None), s))"

definition finalize :: "('s, 'x) Reconciler \<Rightarrow> Oubliette \<Rightarrow> string \<Rightarrow> bool \<Rightarrow> time \<Rightarrow> 's \<Rightarrow> ('s, 'x) outcome" where
  "finalize r obj namespace expired now s =
     (case markExpiring r obj expired s of
        (Inl e, s1) \<Rightarrow> ((noResult, Some (CtlApi e)), s1)
      | (Inr obj1, s1) \<Rightarrow>
          (case runExport r obj1 namespace s1 of
             (Some e, s2) \<Rightarrow> ((noResult, Some (ExportBeforeTeardownFailed e)), s2)
           | (None, s2) \<Rightarrow>
               (case vm_Delete (r_VCluster r) (o_Name obj1) namespace s2 of
                  (Some e, s3) \<Rightarrow> ((noResult, Some (CtlVCluster e)), s3)
                | (None, s3) \<Rightarrow>
                    (case deleteNamespace (r_Cluster r) namespace s3 of
                       (Inl e, s4) \<Rightarrow> ((noResult, Some (CtlApi e)), s4)
                     | (Inr False, s4) \<Rightarrow> ((after (2 * Second), None), s4)
                     | (Inr True, s4) \<Rightarrow>
                         if expired then finishExpired r obj1 now s4 else finishDeleted r obj1 s4))))"

section \<open>Reconciliation\<close>

text \<open>The object of a forgotten Oubliette is kept for the retention and then deleted.\<close>

definition retentionOf :: "('s, 'x) Reconciler \<Rightarrow> duration" where
  "retentionOf r = (if sint (r_TombstoneRetention r) \<le> 0 then Hour else r_TombstoneRetention r)"

definition reconcileTombstone :: "('s, 'x) Reconciler \<Rightarrow> Oubliette \<Rightarrow> time \<Rightarrow> 's \<Rightarrow> ('s, 'x) outcome" where
  "reconcileTombstone r obj now s =
     (case st_ForgottenAt (o_Status obj) of
        None \<Rightarrow> ((after (retentionOf r), None), s)
      | Some t \<Rightarrow>
          (let remaining = Time_Sub (Time_Add t (retentionOf r)) now in
           if sint remaining \<le> 0 then
             (case cl_Delete (r_Client r) obj s of
                (Some e, s1) \<Rightarrow> (if IsNotFound e then (requeue, None) else (noResult, Some (CtlApi e)), s1)
              | (None, s1) \<Rightarrow> ((requeue, None), s1))
           else ((after remaining, None), s)))"

definition provisionedStatus :: "('s, 'x) Reconciler \<Rightarrow> Profile \<Rightarrow> string \<Rightarrow> bool \<Rightarrow> Oubliette \<Rightarrow> Oubliette" where
  "provisionedStatus r p namespace ready obj =
     (let obj1 = obj\<lparr>o_Status := (o_Status obj)\<lparr>st_ObservedGeneration := o_Generation obj, st_HostNamespace := namespace,
            st_ProfileGeneration := pf_Generation p, st_VirtualEndpoint := o_Name obj @ ''.'' @ namespace @ '':443''\<rparr>\<rparr>;
          obj2 = setCondition (r_Meta r) ConditionProvisioned ConditionTrue ''ReleaseInstalled'' ''vCluster release is installed'' obj1
      in if ready
         then setCondition (r_Meta r) ConditionReady ConditionTrue ''VirtualHandoffReady'' ''virtual API and handoff identity are ready'' obj2
         else setCondition (r_Meta r) ConditionReady ConditionFalse ''VirtualHandoffStarting'' ''waiting for the virtual API and handoff identity'' obj2)"

definition publishStatus :: "('s, 'x) Reconciler \<Rightarrow> Profile \<Rightarrow> Oubliette \<Rightarrow> string \<Rightarrow> bool \<Rightarrow> time \<Rightarrow> 's \<Rightarrow> ('s, 'x) outcome" where
  "publishStatus r p obj namespace ready now s =
     (case projectMetricsStatus r (provisionedStatus r p namespace ready obj) ready s of
        ((Inl e, obj1), s1) \<Rightarrow> fail r obj1 ''MetricsReadinessFailed'' e s1
      | ((Inr metricsReady, obj1), s1) \<Rightarrow>
          (case cl_StatusPatch (r_Client r) obj1 obj s1 of
             (Inl e, s2) \<Rightarrow> ((noResult, Some (CtlApi e)), s2)
           | (Inr obj2, s2) \<Rightarrow>
               if ready \<and> metricsReady then
                 (let remaining = Time_Sub (spec_ExpiresAt (o_Spec obj2)) now in
                  ((after (if sint (30 * Second) < sint remaining then 30 * Second else remaining), None), s2))
               else ((after (5 * Second), None), s2)))"

definition provision :: "('s, 'x) Reconciler \<Rightarrow> Oubliette \<Rightarrow> string \<Rightarrow> time \<Rightarrow> 's \<Rightarrow> ('s, 'x) outcome" where
  "provision r obj namespace now s =
     (case profile_Resolve (spec_Tier (o_Spec obj)) of
        Inl e \<Rightarrow> fail r obj ''UnsupportedTier'' (CtlTier e) s
      | Inr p \<Rightarrow>
          (case ensureBoundary (r_Cluster r) (boundaryConfig r) obj p namespace s of
             (Some e, s1) \<Rightarrow> fail r obj ''BoundaryFailed'' (CtlBoundary e) s1
           | (None, s1) \<Rightarrow>
               (case runExport r obj namespace s1 of
                  (Some e, s2) \<Rightarrow> fail r obj ''EvidenceExportFailed'' (CtlEvidence e) s2
                | (None, s2) \<Rightarrow>
                    (case vm_Ensure (r_VCluster r) (o_Name obj) namespace s2 of
                       (Some e, s3) \<Rightarrow> fail r obj ''ProvisioningFailed'' (CtlVCluster e) s3
                     | (None, s3) \<Rightarrow>
                         (case vm_Ready (r_VCluster r) (o_Name obj) namespace s3 of
                            (Inl e, s4) \<Rightarrow> fail r obj ''ReadinessFailed'' (CtlVCluster e) s4
                          | (Inr ready, s4) \<Rightarrow> publishStatus r p obj namespace ready now s4)))))"

definition reconcileObject :: "('s, 'x) Reconciler \<Rightarrow> Oubliette \<Rightarrow> time \<Rightarrow> 's \<Rightarrow> ('s, 'x) outcome" where
  "reconcileObject r obj now s =
     (case namespaceFor (o_Name obj) of
        Inl e \<Rightarrow> fail r obj ''InvalidName'' (CtlApi e) s
      | Inr namespace \<Rightarrow>
          if \<not> optIsZero (o_DeletionTimestamp obj) then finalize r obj namespace False now s
          else if conditionTrue (r_Meta r) obj ConditionForgotten then reconcileTombstone r obj now s
          else if \<not> now < spec_ExpiresAt (o_Spec obj) then finalize r obj namespace True now s
          else if \<not> ContainsFinalizer obj Finalizer then
            (case cl_Update (r_Client r) (AddFinalizer obj Finalizer) s of
               (Inl e, s1) \<Rightarrow> ((noResult, Some (CtlApi e)), s1)
             | (Inr _, s1) \<Rightarrow> ((requeue, None), s1))
          else provision r obj namespace now s)"

definition Reconcile :: "('s, 'x) Reconciler \<Rightarrow> string \<Rightarrow> time \<Rightarrow> 's \<Rightarrow> ('s, 'x) outcome" where
  "Reconcile r name now s =
     (case cl_Get (r_Client r) name s of
        (Inl e, s1) \<Rightarrow> ((noResult, if IsNotFound e then None else Some (CtlApi e)), s1)
      | (Inr obj, s1) \<Rightarrow> reconcileObject r obj now s1)"

section \<open>What the status projections write\<close>

lemma setCondition_frame [simp]:
  "o_Name (setCondition am t st re me obj) = o_Name obj" "o_Spec (setCondition am t st re me obj) = o_Spec obj"
  "o_Generation (setCondition am t st re me obj) = o_Generation obj"
  "o_Finalizers (setCondition am t st re me obj) = o_Finalizers obj"
  "st_ForgottenAt (o_Status (setCondition am t st re me obj)) = st_ForgottenAt (o_Status obj)"
  "st_MetricsEndpoint (o_Status (setCondition am t st re me obj)) = st_MetricsEndpoint (o_Status obj)"
  "st_MetricsTrustDomain (o_Status (setCondition am t st re me obj)) = st_MetricsTrustDomain (o_Status obj)"
  "st_MetricsProfileGeneration (o_Status (setCondition am t st re me obj)) = st_MetricsProfileGeneration (o_Status obj)"
  "st_MetricsIsolationScope (o_Status (setCondition am t st re me obj)) = st_MetricsIsolationScope (o_Status obj)"
  by (simp_all add: setCondition_def)

lemma setMetrics_frame [simp]:
  "o_Name (setMetrics a b c d obj) = o_Name obj" "o_Spec (setMetrics a b c d obj) = o_Spec obj"
  "o_Generation (setMetrics a b c d obj) = o_Generation obj"
  "st_Conditions (o_Status (setMetrics a b c d obj)) = st_Conditions (o_Status obj)"
  "st_ForgottenAt (o_Status (setMetrics a b c d obj)) = st_ForgottenAt (o_Status obj)"
  "st_MetricsEndpoint (o_Status (setMetrics a b c d obj)) = a"
  "st_MetricsTrustDomain (o_Status (setMetrics a b c d obj)) = d"
  "st_MetricsProfileGeneration (o_Status (setMetrics a b c d obj)) = b"
  "st_MetricsIsolationScope (o_Status (setMetrics a b c d obj)) = c"
  by (simp_all add: setMetrics_def)

lemma conditionTrue_setMetrics [simp]: "conditionTrue am (setMetrics a b c d obj) t = conditionTrue am obj t"
  by (simp add: conditionTrue_def)

lemma conditionTrue_eq: "condition_laws am \<Longrightarrow> conditionTrue am obj t = IsStatusConditionTrue am (st_Conditions (o_Status obj)) t"
  by (auto simp: conditionTrue_def condition_true_iff split: option.splits)

lemma conditionTrue_set_other:
  "condition_laws am \<Longrightarrow> t \<noteq> u \<Longrightarrow> conditionTrue am (setCondition am u st re me obj) t = conditionTrue am obj t"
  by (simp add: conditionTrue_eq setCondition_def true_set_other)

lemma conditionTrue_set_same:
  "condition_laws am \<Longrightarrow> conditionTrue am (setCondition am t st re me obj) t \<longleftrightarrow> st = ConditionTrue"
  using true_set_same[of am "st_Conditions (o_Status obj)" "\<lparr>c_Type = t, c_Status = st, c_ObservedGeneration = o_Generation obj,
     c_LastTransitionTime = zeroTime, c_Reason = re, c_Message = me\<rparr>"]
  by (simp add: conditionTrue_eq setCondition_def)

lemma condition_names_distinct [simp]:
  "ConditionReady \<noteq> ConditionForgotten" "ConditionForgotten \<noteq> ConditionReady"
  "ConditionMetricsReady \<noteq> ConditionForgotten" "ConditionForgotten \<noteq> ConditionMetricsReady"
  "ConditionExpiring \<noteq> ConditionForgotten" "ConditionForgotten \<noteq> ConditionExpiring"
  "ConditionProvisioned \<noteq> ConditionForgotten" "ConditionForgotten \<noteq> ConditionProvisioned"
  "ConditionReady \<noteq> ConditionMetricsReady" "ConditionMetricsReady \<noteq> ConditionReady"
  "ConditionReady \<noteq> ConditionExpiring" "ConditionExpiring \<noteq> ConditionReady"
  "ConditionMetricsReady \<noteq> ConditionExpiring" "ConditionExpiring \<noteq> ConditionMetricsReady"
  "ConditionProvisioned \<noteq> ConditionExpiring" "ConditionExpiring \<noteq> ConditionProvisioned"
  "ConditionProvisioned \<noteq> ConditionMetricsReady" "ConditionMetricsReady \<noteq> ConditionProvisioned"
  "ConditionProvisioned \<noteq> ConditionReady" "ConditionReady \<noteq> ConditionProvisioned"
  "ConditionFalse \<noteq> ConditionTrue" "ConditionTrue \<noteq> ConditionFalse"
  by (simp_all add: condition_names ConditionTrue_def ConditionFalse_def)

text \<open>Only the two metrics conditions and fields change in the projection of the metrics status.\<close>

lemma projectMetricsStatus_other:
  assumes "condition_laws (r_Meta r)" and "projectMetricsStatus r obj vr s = ((res, obj'), s')" and "t \<noteq> ConditionMetricsReady"
  shows "conditionTrue (r_Meta r) obj' t = conditionTrue (r_Meta r) obj t \<and> o_Name obj' = o_Name obj"
  using assms(2) conditionTrue_set_other[OF assms(1,3)]
  by (auto simp: projectMetricsStatus_def Let_def split: if_splits prod.splits sum.splits bool.splits)

lemma provisionedStatus_other:
  assumes "condition_laws (r_Meta r)" and "t \<noteq> ConditionReady" and "t \<noteq> ConditionProvisioned"
  shows "conditionTrue (r_Meta r) (provisionedStatus r p namespace ready obj) t = conditionTrue (r_Meta r) obj t \<and>
    o_Name (provisionedStatus r p namespace ready obj) = o_Name obj"
  using conditionTrue_set_other[OF assms(1,2)] conditionTrue_set_other[OF assms(1,3)]
  by (auto simp: provisionedStatus_def Let_def conditionTrue_def)

lemma anyReady_iff: "anyReady slices \<longleftrightarrow> (\<exists>eps \<in> set slices. Some True \<in> set eps)"
  by (induction slices) auto

definition gatewayReady :: "('s, 'x) Reconciler \<Rightarrow> 's \<Rightarrow> 's \<Rightarrow> bool" where
  "gatewayReady r s s' \<longleftrightarrow> (\<exists>s1 slices.
     ds_GetService (r_Discovery r) (r_MetricsServiceNamespace r) (r_MetricsServiceName r) s = (None, s1) \<and>
     ds_ListSlices (r_Discovery r) (r_MetricsServiceNamespace r) (r_MetricsServiceName r) s1 = (Inr slices, s') \<and>
     (\<exists>eps \<in> set slices. Some True \<in> set eps))"

lemma metricsServiceReady_True: "metricsServiceReady r s = (Inr True, s') \<longleftrightarrow> gatewayReady r s s'"
  by (auto simp: metricsServiceReady_def gatewayReady_def anyReady_iff split: prod.splits option.splits sum.splits if_splits)

text \<open>The metrics part of a status, as (endpoint, generation, isolation scope, trust domain).\<close>

definition metricsFields :: "Oubliette \<Rightarrow> string \<times> string \<times> string \<times> string" where
  "metricsFields obj = (st_MetricsEndpoint (o_Status obj), st_MetricsProfileGeneration (o_Status obj),
     st_MetricsIsolationScope (o_Status obj), st_MetricsTrustDomain (o_Status obj))"

lemma projection_exact:
  assumes laws: "condition_laws (r_Meta r)" and ok: "projectMetricsStatus r obj virtualReady s = ((Inr b, obj'), s')"
  shows "(conditionTrue (r_Meta r) obj' ConditionMetricsReady \<longleftrightarrow>
      mp_Enabled (r_MetricsProfile r) \<and> virtualReady \<and> (\<exists>t. gatewayReady r s t)) \<and>
    (b \<longleftrightarrow> \<not> mp_Enabled (r_MetricsProfile r) \<or> virtualReady \<and> (\<exists>t. gatewayReady r s t)) \<and>
    metricsFields obj' = (if mp_Enabled (r_MetricsProfile r)
     then (mp_EndpointPrefix (r_MetricsProfile r) @ '':'' @ o_Name obj, mp_Generation (r_MetricsProfile r),
       mp_IsolationScope (r_MetricsProfile r), mp_TrustDomain (r_MetricsProfile r))
     else ('''', '''', '''', '''')) \<and> o_Name obj' = o_Name obj \<and>
    (mp_Enabled (r_MetricsProfile r) \<longrightarrow> mp_EndpointPrefix (r_MetricsProfile r) \<noteq> '''' \<and> mp_Generation (r_MetricsProfile r) \<noteq> '''' \<and>
       mp_IsolationScope (r_MetricsProfile r) \<noteq> '''' \<and> mp_TrustDomain (r_MetricsProfile r) \<noteq> '''')"
proof (cases "mp_Enabled (r_MetricsProfile r) \<and> virtualReady")
  case False
  with ok show ?thesis
    by (auto simp: projectMetricsStatus_def Let_def metricsFields_def conditionTrue_set_same[OF laws] split: if_splits)
next
  case True
  note ready = metricsServiceReady_True[of r s]
  have unready: "metricsServiceReady r s = (Inr False, t) \<Longrightarrow> \<not> gatewayReady r s u" for t u using ready[of u] by fastforce
  from True ok show ?thesis using ready unready
    by (auto simp: projectMetricsStatus_def Let_def metricsFields_def conditionTrue_set_same[OF laws]
        split: if_splits prod.splits sum.splits bool.splits)
qed

text \<open>A published status never clears \<open>Expiring\<close>: an Oubliette renewed after teardown began stays in that
  phase.\<close>

theorem renewed_stays_expiring:
  assumes "condition_laws (r_Meta r)"
    and "projectMetricsStatus r (provisionedStatus r p namespace ready obj) ready s = ((res, obj'), s')"
    and "conditionTrue (r_Meta r) obj ConditionExpiring"
  shows "conditionTrue (r_Meta r) obj' ConditionExpiring"
  using projectMetricsStatus_other[OF assms(1,2)] provisionedStatus_other[OF assms(1)] assms(3) by simp

section \<open>Forgotten means gone\<close>

text \<open>
  What the pass relies on of its surroundings, with \<open>objs\<close> the Oubliettes stored in a state and
  \<open>present\<close> the host namespaces that exist. Every call may fail. Reads answer with what is stored;
  an update or a delete keeps the status of the stored object, or removes the object; a merge patch of the
  status writes the conditions when they differ from its base. Calls on other kinds leave the
  Oubliettes alone, and only writing a Namespace object makes its namespace exist.
\<close>

definition writes_object :: "('s \<Rightarrow> string \<Rightarrow> Oubliette option) \<Rightarrow> ('s \<Rightarrow> string \<Rightarrow> bool) \<Rightarrow> string \<Rightarrow> 's \<Rightarrow> 's \<Rightarrow> bool" where
  "writes_object objs present n s s' \<longleftrightarrow> present s' = present s \<and>
     (objs s' = objs s \<or> objs s' = (objs s)(n := None) \<or>
      (\<exists>x y. objs s n = Some y \<and> objs s' = (objs s)(n \<mapsto> x) \<and> o_Name x = n \<and> o_Status x = o_Status y))"

definition patches_status :: "('s \<Rightarrow> string \<Rightarrow> Oubliette option) \<Rightarrow> ('s \<Rightarrow> string \<Rightarrow> bool) \<Rightarrow> Oubliette \<Rightarrow> Oubliette \<Rightarrow> 's \<Rightarrow> 's \<Rightarrow> bool" where
  "patches_status objs present x b s s' \<longleftrightarrow> present s' = present s \<and>
     (objs s' = objs s \<or> (\<exists>x' y. objs s (o_Name x) = Some y \<and> objs s' = (objs s)(o_Name x \<mapsto> x') \<and> o_Name x' = o_Name x \<and>
        o_Spec x' = o_Spec y \<and>
        st_Conditions (o_Status x') = (if st_Conditions (o_Status x) = st_Conditions (o_Status b)
          then st_Conditions (o_Status y) else st_Conditions (o_Status x))))"

definition quiet :: "('s \<Rightarrow> string \<Rightarrow> Oubliette option) \<Rightarrow> ('s \<Rightarrow> string \<Rightarrow> bool) \<Rightarrow> 's \<Rightarrow> 's \<Rightarrow> bool" where
  "quiet objs present s s' \<longleftrightarrow> objs s' = objs s \<and> (\<forall>n. present s' n \<longrightarrow> present s n)"

definition client_laws :: "'s oub_client \<Rightarrow> ('s \<Rightarrow> string \<Rightarrow> Oubliette option) \<Rightarrow> ('s \<Rightarrow> string \<Rightarrow> bool) \<Rightarrow> bool" where
  "client_laws C objs present \<longleftrightarrow>
     (\<forall>s n obj. objs s n = Some obj \<longrightarrow> o_Name obj = n) \<and>
     (\<forall>n s res s'. cl_Get C n s = (res, s') \<longrightarrow> quiet objs present s s' \<and>
        (\<forall>obj. res = Inr obj \<longrightarrow> objs s n = Some obj)) \<and>
     (\<forall>x s res s'. cl_Update C x s = (res, s') \<longrightarrow> writes_object objs present (o_Name x) s s') \<and>
     (\<forall>x s res s'. cl_Delete C x s = (res, s') \<longrightarrow> writes_object objs present (o_Name x) s s') \<and>
     (\<forall>x b s res s'. cl_StatusPatch C x b s = (res, s') \<longrightarrow> patches_status objs present x b s s' \<and>
        (\<forall>x'. res = Inr x' \<longrightarrow> objs s' (o_Name x) = Some x'))"

definition host_laws :: "('s, 'x) Reconciler \<Rightarrow> ('s \<Rightarrow> string \<Rightarrow> Oubliette option) \<Rightarrow> ('s \<Rightarrow> string \<Rightarrow> bool) \<Rightarrow> bool" where
  "host_laws r objs present \<longleftrightarrow>
     (\<forall>x f s res s'. createOrUpdate (r_Cluster r) x f s = (res, s') \<longrightarrow> objs s' = objs s \<and>
        (\<forall>n. present s' n \<longrightarrow> present s n \<or> keyOf x = (KNamespace, '''', n))) \<and>
     (\<forall>n s res s'. getClusterQueue (r_Cluster r) n s = (res, s') \<longrightarrow> quiet objs present s s') \<and>
     (\<forall>n s res s'. getNamespace (r_Cluster r) n s = (res, s') \<longrightarrow> quiet objs present s s' \<and>
        (\<forall>e. res = Inl e \<longrightarrow> IsNotFound e \<longrightarrow> \<not> present s' n)) \<and>
     (\<forall>n s res s'. removeNamespace (r_Cluster r) n s = (res, s') \<longrightarrow> quiet objs present s s') \<and>
     (\<forall>a b s res s'. ds_GetService (r_Discovery r) a b s = (res, s') \<longrightarrow> quiet objs present s s') \<and>
     (\<forall>a b s res s'. ds_ListSlices (r_Discovery r) a b s = (res, s') \<longrightarrow> quiet objs present s s') \<and>
     (\<forall>a b s res s'. vm_Ensure (r_VCluster r) a b s = (res, s') \<longrightarrow> quiet objs present s s') \<and>
     (\<forall>a b s res s'. vm_Delete (r_VCluster r) a b s = (res, s') \<longrightarrow> quiet objs present s s') \<and>
     (\<forall>a b s res s'. vm_Ready (r_VCluster r) a b s = (res, s') \<longrightarrow> quiet objs present s s') \<and>
     (\<forall>E a b s res s'. r_EvidenceExporter r = Some E \<longrightarrow> E a b s = (res, s') \<longrightarrow> quiet objs present s s')"

definition forgotten_gone :: "apimeta \<Rightarrow> ('s \<Rightarrow> string \<Rightarrow> Oubliette option) \<Rightarrow> ('s \<Rightarrow> string \<Rightarrow> bool) \<Rightarrow> 's \<Rightarrow> bool" where
  "forgotten_gone am objs present s \<longleftrightarrow> (\<forall>n obj ns. objs s n = Some obj \<longrightarrow> conditionTrue am obj ConditionForgotten \<longrightarrow>
     namespaceFor n = Inr ns \<longrightarrow> \<not> present s ns)"

lemma quiet_refl [intro]: "quiet objs present s s" by (simp add: quiet_def)

lemma quiet_trans [trans]: "quiet objs present s t \<Longrightarrow> quiet objs present t u \<Longrightarrow> quiet objs present s u"
  by (simp add: quiet_def)

lemma forgotten_gone_quiet: "forgotten_gone am objs present s \<Longrightarrow> quiet objs present s s' \<Longrightarrow> forgotten_gone am objs present s'"
  unfolding forgotten_gone_def quiet_def by metis

lemma forgotten_gone_write:
  assumes "forgotten_gone am objs present s" and "writes_object objs present n s s'"
  shows "forgotten_gone am objs present s'"
  using assms unfolding forgotten_gone_def writes_object_def conditionTrue_def by (auto split: if_splits)

lemma forgotten_gone_patch:
  assumes "forgotten_gone am objs present s" and "patches_status objs present x b s s'"
    and "\<And>ns. conditionTrue am x ConditionForgotten \<Longrightarrow> namespaceFor (o_Name x) = Inr ns \<Longrightarrow> \<not> present s ns"
  shows "forgotten_gone am objs present s'"
proof -
  have p: "present s' = present s" using assms(2) by (simp add: patches_status_def)
  show ?thesis
    unfolding forgotten_gone_def p
  proof (intro allI impI)
    fix n obj m assume o: "objs s' n = Some obj" "conditionTrue am obj ConditionForgotten" "namespaceFor n = Inr m"
    show "\<not> present s m"
    proof (cases "objs s n = Some obj")
      case True
      with o assms(1) show ?thesis unfolding forgotten_gone_def by blast
    next
      case False
      with assms(2) o(1) obtain y where y: "n = o_Name x" "objs s n = Some y"
        "st_Conditions (o_Status obj) = st_Conditions (o_Status y) \<or> st_Conditions (o_Status obj) = st_Conditions (o_Status x)"
        unfolding patches_status_def by (auto split: if_splits)
      then have "conditionTrue am y ConditionForgotten \<or> conditionTrue am x ConditionForgotten"
        using o(2) by (auto simp: conditionTrue_def)
      then show ?thesis using assms(1,3) y o(3) unfolding forgotten_gone_def by auto
    qed
  qed
qed

text \<open>A pass that may create the namespace of an object that is not forgotten.\<close>

lemma forgotten_gone_create:
  assumes "forgotten_gone am objs present s" and "objs s' = objs s"
    and "\<And>m. present s' m \<Longrightarrow> present s m \<or> m = ns" and "namespaceFor name = Inr ns"
    and "objs s name = Some obj" and "\<not> conditionTrue am obj ConditionForgotten"
  shows "forgotten_gone am objs present s'"
  unfolding forgotten_gone_def
proof (intro allI impI notI)
  fix n x m assume x: "objs s' n = Some x" "conditionTrue am x ConditionForgotten" "namespaceFor n = Inr m" "present s' m"
  have "present s m \<or> m = ns" using assms(3) x(4) by blast
  moreover have "\<not> present s m" using assms(1,2) x(1-3) unfolding forgotten_gone_def by auto
  ultimately have "n = name" using namespaceFor_inject[OF x(3)] assms(4) by blast
  with x(1,2) assms(2,5,6) show False by simp
qed

definition grows :: "('s \<Rightarrow> string \<Rightarrow> Oubliette option) \<Rightarrow> ('s \<Rightarrow> string \<Rightarrow> bool) \<Rightarrow> string \<Rightarrow> 's \<Rightarrow> 's \<Rightarrow> bool" where
  "grows objs present ns s s' \<longleftrightarrow> objs s' = objs s \<and> (\<forall>m. present s' m \<longrightarrow> present s m \<or> m = ns)"

lemma quiet_grows: "quiet objs present s s' \<Longrightarrow> grows objs present ns s s'"
  by (simp add: quiet_def grows_def)

lemma grows_trans [trans]: "grows objs present ns s t \<Longrightarrow> grows objs present ns t u \<Longrightarrow> grows objs present ns s u"
  by (auto simp: grows_def)

lemma host_lawsD:
  assumes "host_laws r objs present"
  shows "createOrUpdate (r_Cluster r) x f s = (ce, s') \<Longrightarrow> objs s' = objs s \<and>
      (\<forall>n. present s' n \<longrightarrow> present s n \<or> keyOf x = (KNamespace, '''', n))"
    and "getClusterQueue (r_Cluster r) n s = (e, s') \<Longrightarrow> quiet objs present s s'"
    and "getNamespace (r_Cluster r) n s = (ge, s') \<Longrightarrow> quiet objs present s s' \<and>
      (\<forall>e. ge = Inl e \<longrightarrow> IsNotFound e \<longrightarrow> \<not> present s' n)"
    and "removeNamespace (r_Cluster r) nso s = (e, s') \<Longrightarrow> quiet objs present s s'"
    and "ds_GetService (r_Discovery r) a b s = (e, s') \<Longrightarrow> quiet objs present s s'"
    and "ds_ListSlices (r_Discovery r) a b s = (le, s') \<Longrightarrow> quiet objs present s s'"
    and "vm_Ensure (r_VCluster r) a b s = (ve, s') \<Longrightarrow> quiet objs present s s'"
    and "vm_Delete (r_VCluster r) a b s = (ve, s') \<Longrightarrow> quiet objs present s s'"
    and "vm_Ready (r_VCluster r) a b s = (re, s') \<Longrightarrow> quiet objs present s s'"
    and "runExport r obj b s = (xe, s') \<Longrightarrow> quiet objs present s s'"
proof -
  show "runExport r obj b s = (xe, s') \<Longrightarrow> quiet objs present s s'"
    using assms unfolding host_laws_def runExport_def by (cases "r_EvidenceExporter r") auto
qed (insert assms, unfold host_laws_def, metis+)

lemma createOrUpdate_grows:
  assumes "host_laws r objs present" and "createOrUpdate (r_Cluster r) x f s = (res, s')"
  shows "grows objs present (k_Name x) s s'" and "kindOf (k_Spec x) \<noteq> KNamespace \<Longrightarrow> quiet objs present s s'"
proof -
  have a: "objs s' = objs s \<and> (\<forall>n. present s' n \<longrightarrow> present s n \<or> keyOf x = (KNamespace, '''', n))"
    by (rule host_lawsD(1)[OF assms])
  then show "grows objs present (k_Name x) s s'" by (auto simp: grows_def keyOf_def)
  show "kindOf (k_Spec x) \<noteq> KNamespace \<Longrightarrow> quiet objs present s s'" using a by (auto simp: quiet_def keyOf_def)
qed

lemma newObject_sel [simp]: "k_Name (newObject ns n sp) = n" "k_Spec (newObject ns n sp) = sp"
  by (simp_all add: newObject_def)

lemma ensureObjects_quiet:
  assumes laws: "host_laws r objs present"
  shows "ensureObjects (r_Cluster r) obj ns os s = (res, s') \<Longrightarrow> \<forall>x \<in> set os. kindOf (snd x) \<noteq> KNamespace \<Longrightarrow> quiet objs present s s'"
proof (induction os arbitrary: s)
  case (Cons a os)
  obtain n sp where a: "a = (n, sp)" by (cases a)
  obtain e s1 where c: "createOrUpdate (r_Cluster r) (newObject ns n (emptySpec sp)) (setSpec (r_Cluster r) obj sp) s = (e, s1)"
    by (metis surj_pair)
  from createOrUpdate_grows(2)[OF laws c] Cons.prems(2) a have q: "quiet objs present s s1" by simp
  show ?case
  proof (cases e)
    case None
    with Cons.prems(1) c a have "ensureObjects (r_Cluster r) obj ns os s1 = (res, s')" by simp
    with Cons.IH Cons.prems(2) q show ?thesis by (auto intro: quiet_trans)
  next
    case (Some x)
    with Cons.prems(1) c a q show ?thesis by simp
  qed
qed auto

lemma ensureKueue_quiet:
  assumes laws: "host_laws r objs present" and call: "ensureKueue (r_Cluster r) c obj ns s = (res, s')"
  shows "quiet objs present s s'"
proof (cases "bc_KueueClusterQueue c = ''''")
  case True
  with call show ?thesis by (auto simp: ensureKueue_def)
next
  case False
  obtain e s1 where g: "getClusterQueue (r_Cluster r) (bc_KueueClusterQueue c) s = (e, s1)" by (metis surj_pair)
  have q: "quiet objs present s s1" by (rule host_lawsD(2)[OF laws g])
  obtain e2 s2 where u: "createOrUpdate (r_Cluster r) (newObject ns KueueQueueName (LocalQueueSpec ''''))
      (setSpec (r_Cluster r) obj (LocalQueueSpec (bc_KueueClusterQueue c))) s1 = (e2, s2)" by (metis surj_pair)
  have "quiet objs present s1 s2" using createOrUpdate_grows(2)[OF laws u] by simp
  with q have "quiet objs present s s2" by (rule quiet_trans)
  with q show ?thesis using call False g u by (auto simp: ensureKueue_def split: option.splits if_splits)
qed

lemma ensureBoundary_grows:
  assumes laws: "host_laws r objs present" and call: "ensureBoundary (r_Cluster r) c obj p ns s = (res, s')"
  shows "grows objs present ns s s'"
proof -
  let ?f = "\<lambda>x. case mutateNamespace c obj x of Inl e \<Rightarrow> Inl e | Inr x' \<Rightarrow> setControllerReference (r_Cluster r) obj x'"
  obtain e s1 where c: "createOrUpdate (r_Cluster r) (newObject '''' ns (NamespaceSpec None)) ?f s = (e, s1)" by (metis surj_pair)
  have g: "grows objs present ns s s1" using createOrUpdate_grows(1)[OF laws c] by simp
  obtain e2 s2 where k: "ensureKueue (r_Cluster r) c obj ns s1 = (e2, s2)" by (metis surj_pair)
  have g2: "grows objs present ns s s2" using grows_trans[OF g quiet_grows[OF ensureKueue_quiet[OF laws k]]] .
  obtain e3 s3 where o: "ensureObjects (r_Cluster r) obj ns (boundaryObjects c obj p) s2 = (e3, s3)" by (metis surj_pair)
  have "\<forall>x \<in> set (boundaryObjects c obj p). kindOf (snd x) \<noteq> KNamespace" by (simp add: boundaryObjects_def)
  from grows_trans[OF g2 quiet_grows[OF ensureObjects_quiet[OF laws o this]]]
  show ?thesis using call c k o g g2 by (auto simp: ensureBoundary_def split: option.splits)
qed

lemma deleteNamespace_gone:
  assumes laws: "host_laws r objs present" and call: "deleteNamespace (r_Cluster r) ns s = (res, s')"
  shows "quiet objs present s s'" and "res = Inr True \<Longrightarrow> \<not> present s' ns"
proof -
  obtain x s1 where g: "getNamespace (r_Cluster r) ns s = (x, s1)" by (metis surj_pair)
  have q: "quiet objs present s s1" and nf: "\<And>e. x = Inl e \<Longrightarrow> IsNotFound e \<Longrightarrow> \<not> present s1 ns"
    using host_lawsD(3)[OF laws g] by blast+
  have r: "removeNamespace (r_Cluster r) n s1 = (e, t) \<Longrightarrow> quiet objs present s t" for n e t
    using host_lawsD(4)[OF laws] q by (blast intro: quiet_trans)
  show "quiet objs present s s'" using call g q r
    by (auto simp: deleteNamespace_def split: sum.splits if_splits prod.splits option.splits)
  show "res = Inr True \<Longrightarrow> \<not> present s' ns" using call g nf
    by (auto simp: deleteNamespace_def split: sum.splits if_splits prod.splits option.splits)
qed

lemma projectMetricsStatus_quiet:
  assumes laws: "host_laws r objs present" and call: "projectMetricsStatus r obj vr s = (res, s')"
  shows "quiet objs present s s'"
proof -
  obtain x t where m: "metricsServiceReady r s = (x, t)" by (metis surj_pair)
  have "quiet objs present s t"
  proof -
    obtain e s1 where g: "ds_GetService (r_Discovery r) (r_MetricsServiceNamespace r) (r_MetricsServiceName r) s = (e, s1)"
      by (metis surj_pair)
    obtain y s2 where l: "ds_ListSlices (r_Discovery r) (r_MetricsServiceNamespace r) (r_MetricsServiceName r) s1 = (y, s2)"
      by (metis surj_pair)
    note host_lawsD(5)[OF laws g] host_lawsD(6)[OF laws l]
    then have "quiet objs present s s1" "quiet objs present s s2" by (auto intro: quiet_trans)
    then show ?thesis using m g l by (auto simp: metricsServiceReady_def split: option.splits sum.splits if_splits)
  qed
  then show ?thesis using call m
    by (auto simp: projectMetricsStatus_def Let_def split: if_splits sum.splits bool.splits)
qed

lemma client_lawsD:
  assumes "client_laws C objs present"
  shows "objs s n = Some obj \<Longrightarrow> o_Name obj = n"
    and "cl_Get C n s = (ge, s') \<Longrightarrow> quiet objs present s s' \<and> (\<forall>obj. ge = Inr obj \<longrightarrow> objs s n = Some obj)"
    and "cl_Update C x s = (ge, s') \<Longrightarrow> writes_object objs present (o_Name x) s s'"
    and "cl_Delete C x s = (e, s') \<Longrightarrow> writes_object objs present (o_Name x) s s'"
    and "cl_StatusPatch C x b s = (ge, s') \<Longrightarrow> patches_status objs present x b s s' \<and>
      (\<forall>x'. ge = Inr x' \<longrightarrow> objs s' (o_Name x) = Some x')"
  using assms unfolding client_laws_def by metis+

lemma fail_keeps:
  assumes am: "condition_laws (r_Meta r)" and C: "client_laws (r_Client r) objs present"
    and inv: "forgotten_gone (r_Meta r) objs present s"
    and safe: "\<And>ns. conditionTrue (r_Meta r) obj ConditionForgotten \<Longrightarrow> namespaceFor (o_Name obj) = Inr ns \<Longrightarrow> \<not> present s ns"
    and call: "fail r obj reason err s = (res, s')"
  shows "forgotten_gone (r_Meta r) objs present s'"
proof -
  let ?x = "setCondition (r_Meta r) ConditionReady ConditionFalse reason (r_ErrorText r err) obj"
  obtain y where y: "cl_StatusPatch (r_Client r) ?x obj s = (y, s')" using call by (metis fail_def prod.collapse snd_conv)
  show ?thesis
    by (rule forgotten_gone_patch[OF inv client_lawsD(5)[OF C y, THEN conjunct1]])
      (use safe in \<open>simp add: conditionTrue_set_other[OF am]\<close>)
qed

lemma markExpiring_keeps:
  assumes am: "condition_laws (r_Meta r)" and C: "client_laws (r_Client r) objs present"
    and inv: "forgotten_gone (r_Meta r) objs present s" and stored: "objs s (o_Name obj) = Some obj"
    and call: "markExpiring r obj expired s = (res, s1)"
  shows "forgotten_gone (r_Meta r) objs present s1" and "res = Inr obj1 \<Longrightarrow> o_Name obj1 = o_Name obj"
proof -
  have name: "o_Name (expiringStatus (r_Meta r) obj) = o_Name obj"
    and cond: "conditionTrue (r_Meta r) (expiringStatus (r_Meta r) obj) ConditionForgotten = conditionTrue (r_Meta r) obj ConditionForgotten"
    by (simp_all add: expiringStatus_def conditionTrue_set_other[OF am])
  obtain y t where y: "cl_StatusPatch (r_Client r) (expiringStatus (r_Meta r) obj) obj s = (y, t)" by (metis surj_pair)
  note patch = client_lawsD(5)[OF C y]
  have "forgotten_gone (r_Meta r) objs present t"
    by (rule forgotten_gone_patch[OF inv patch[THEN conjunct1]])
      (use inv[unfolded forgotten_gone_def, rule_format, OF stored] in \<open>simp add: name cond\<close>)
  then show "forgotten_gone (r_Meta r) objs present s1"
    using call inv y by (auto simp: markExpiring_def split: if_splits sum.splits)
  assume r: "res = Inr obj1"
  show "o_Name obj1 = o_Name obj"
  proof (cases y)
    case (Inl e)
    with call y r name show ?thesis by (auto simp: markExpiring_def split: if_splits)
  next
    case (Inr x')
    then have "objs t (o_Name obj) = Some x'" using patch name by simp
    from client_lawsD(1)[OF C this] Inr call y r show ?thesis by (auto simp: markExpiring_def split: if_splits)
  qed
qed

lemma finish_keeps:
  assumes C: "client_laws (r_Client r) objs present" and inv: "forgotten_gone (r_Meta r) objs present s"
    and gone: "\<And>ns. namespaceFor (o_Name obj) = Inr ns \<Longrightarrow> \<not> present s ns"
  shows "finishExpired r obj now s = (res, s') \<Longrightarrow> forgotten_gone (r_Meta r) objs present s'"
    and "finishDeleted r obj s = (res, s') \<Longrightarrow> forgotten_gone (r_Meta r) objs present s'"
proof -
  have name: "o_Name (forgottenStatus (r_Meta r) now obj) = o_Name obj" by (simp add: forgottenStatus_def)
  obtain y t where y: "cl_StatusPatch (r_Client r) (forgottenStatus (r_Meta r) now obj) obj s = (y, t)" by (metis surj_pair)
  have "forgotten_gone (r_Meta r) objs present t"
    by (rule forgotten_gone_patch[OF inv client_lawsD(5)[OF C y, THEN conjunct1]]) (use gone name in simp)
  then show "finishExpired r obj now s = (res, s') \<Longrightarrow> forgotten_gone (r_Meta r) objs present s'"
    using y by (auto simp: finishExpired_def split: sum.splits)
  obtain z u where z: "cl_Update (r_Client r) (RemoveFinalizer obj Finalizer) s = (z, u)" by (metis surj_pair)
  from forgotten_gone_write[OF inv client_lawsD(3)[OF C z]]
  show "finishDeleted r obj s = (res, s') \<Longrightarrow> forgotten_gone (r_Meta r) objs present s'"
    using z inv by (auto simp: finishDeleted_def split: sum.splits if_splits)
qed

lemma finalize_keeps:
  assumes am: "condition_laws (r_Meta r)" and C: "client_laws (r_Client r) objs present" and H: "host_laws r objs present"
    and inv: "forgotten_gone (r_Meta r) objs present s" and stored: "objs s (o_Name obj) = Some obj"
    and ns: "namespaceFor (o_Name obj) = Inr namespace"
    and call: "finalize r obj namespace expired now s = (res, s')"
  shows "forgotten_gone (r_Meta r) objs present s'"
proof -
  obtain x1 s1 where m: "markExpiring r obj expired s = (x1, s1)" by (metis surj_pair)
  note inv1 = markExpiring_keeps(1)[OF am C inv stored m]
  show ?thesis
  proof (cases x1)
    case (Inl e)
    with call m inv1 show ?thesis by (simp add: finalize_def)
  next
    case (Inr obj1)
    with markExpiring_keeps(2)[OF am C inv stored m] have name: "o_Name obj1 = o_Name obj" by blast
    obtain x2 s2 where e: "runExport r obj1 namespace s1 = (x2, s2)" by (metis surj_pair)
    obtain x3 s3 where d: "vm_Delete (r_VCluster r) (o_Name obj1) namespace s2 = (x3, s3)" by (metis surj_pair)
    obtain x4 s4 where n: "deleteNamespace (r_Cluster r) namespace s3 = (x4, s4)" by (metis surj_pair)
    note inv2 = forgotten_gone_quiet[OF inv1 host_lawsD(10)[OF H e]]
    note inv3 = forgotten_gone_quiet[OF inv2 host_lawsD(8)[OF H d]]
    note inv4 = forgotten_gone_quiet[OF inv3 deleteNamespace_gone(1)[OF H n]]
    have gone: "x4 = Inr True \<Longrightarrow> namespaceFor (o_Name obj1) = Inr m \<Longrightarrow> \<not> present s4 m" for m
      using deleteNamespace_gone(2)[OF H n] ns name by simp
    show ?thesis using call m Inr e d n inv1 inv2 inv3 inv4 finish_keeps[OF C inv4 gone]
      by (auto simp: finalize_def split: option.splits sum.splits bool.splits if_splits)
  qed
qed

lemma publishStatus_keeps:
  assumes am: "condition_laws (r_Meta r)" and C: "client_laws (r_Client r) objs present" and H: "host_laws r objs present"
    and inv: "forgotten_gone (r_Meta r) objs present s" and live: "\<not> conditionTrue (r_Meta r) obj ConditionForgotten"
    and call: "publishStatus r p obj namespace ready now s = (res, s')"
  shows "forgotten_gone (r_Meta r) objs present s'"
proof -
  obtain x obj1 s1 where m: "projectMetricsStatus r (provisionedStatus r p namespace ready obj) ready s = ((x, obj1), s1)"
    by (metis surj_pair)
  have live1: "\<not> conditionTrue (r_Meta r) obj1 ConditionForgotten"
    using projectMetricsStatus_other[OF am m] provisionedStatus_other[OF am] live by simp
  note inv1 = forgotten_gone_quiet[OF inv projectMetricsStatus_quiet[OF H m]]
  obtain y t where y: "cl_StatusPatch (r_Client r) obj1 obj s1 = (y, t)" by (metis surj_pair)
  have "forgotten_gone (r_Meta r) objs present t"
    by (rule forgotten_gone_patch[OF inv1 client_lawsD(5)[OF C y, THEN conjunct1]]) (use live1 in simp)
  moreover have "fail r obj1 reason err s1 = (res, s') \<Longrightarrow> forgotten_gone (r_Meta r) objs present s'" for reason err
    using fail_keeps[OF am C inv1] live1 by blast
  ultimately show ?thesis using call m y by (auto simp: publishStatus_def Let_def split: sum.splits if_splits)
qed

lemma provision_keeps:
  assumes am: "condition_laws (r_Meta r)" and C: "client_laws (r_Client r) objs present" and H: "host_laws r objs present"
    and inv: "forgotten_gone (r_Meta r) objs present s" and stored: "objs s (o_Name obj) = Some obj"
    and live: "\<not> conditionTrue (r_Meta r) obj ConditionForgotten" and ns: "namespaceFor (o_Name obj) = Inr namespace"
    and call: "provision r obj namespace now s = (res, s')"
  shows "forgotten_gone (r_Meta r) objs present s'"
proof -
  have failing: "fail r obj reason err t = (res, s') \<Longrightarrow> forgotten_gone (r_Meta r) objs present t \<Longrightarrow>
      forgotten_gone (r_Meta r) objs present s'" for reason err t
    using fail_keeps[OF am C] live by blast
  show ?thesis
  proof (cases "profile_Resolve (spec_Tier (o_Spec obj))")
    case (Inl e)
    with call failing inv show ?thesis by (auto simp: provision_def)
  next
    case (Inr p)
    obtain x1 s1 where b: "ensureBoundary (r_Cluster r) (boundaryConfig r) obj p namespace s = (x1, s1)" by (metis surj_pair)
    obtain x2 s2 where e: "runExport r obj namespace s1 = (x2, s2)" by (metis surj_pair)
    obtain x3 s3 where v: "vm_Ensure (r_VCluster r) (o_Name obj) namespace s2 = (x3, s3)" by (metis surj_pair)
    obtain x4 s4 where a: "vm_Ready (r_VCluster r) (o_Name obj) namespace s3 = (x4, s4)" by (metis surj_pair)
    have g: "grows objs present namespace s s1" by (rule ensureBoundary_grows[OF H b])
    have inv1: "forgotten_gone (r_Meta r) objs present s1"
      by (rule forgotten_gone_create[OF inv _ _ ns stored live]) (use g in \<open>auto simp: grows_def\<close>)
    note inv2 = forgotten_gone_quiet[OF inv1 host_lawsD(10)[OF H e]]
    note inv3 = forgotten_gone_quiet[OF inv2 host_lawsD(7)[OF H v]]
    note inv4 = forgotten_gone_quiet[OF inv3 host_lawsD(9)[OF H a]]
    have publishing: "publishStatus r p obj namespace ready now s4 = (res, s') \<Longrightarrow> forgotten_gone (r_Meta r) objs present s'" for ready
      by (rule publishStatus_keeps[OF am C H inv4 live])
    show ?thesis using call Inr b e v a
      by (auto simp: provision_def split: option.splits sum.splits
          intro: failing[OF _ inv1] failing[OF _ inv2] failing[OF _ inv3] failing[OF _ inv4] publishing)
  qed
qed

lemma reconcileTombstone_keeps:
  assumes C: "client_laws (r_Client r) objs present" and inv: "forgotten_gone (r_Meta r) objs present s"
    and call: "reconcileTombstone r obj now s = (res, s')"
  shows "forgotten_gone (r_Meta r) objs present s'"
proof -
  obtain y t where y: "cl_Delete (r_Client r) obj s = (y, t)" by (metis surj_pair)
  from forgotten_gone_write[OF inv client_lawsD(4)[OF C y]] show ?thesis
    using call inv y by (auto simp: reconcileTombstone_def Let_def split: option.splits if_splits)
qed

lemma reconcile_keeps:
  assumes am: "condition_laws (r_Meta r)" and C: "client_laws (r_Client r) objs present" and H: "host_laws r objs present"
    and inv: "forgotten_gone (r_Meta r) objs present s" and call: "Reconcile r name now s = (res, s')"
  shows "forgotten_gone (r_Meta r) objs present s'"
proof -
  obtain x s1 where g: "cl_Get (r_Client r) name s = (x, s1)" by (metis surj_pair)
  note get = client_lawsD(2)[OF C g]
  note inv1 = forgotten_gone_quiet[OF inv get[THEN conjunct1]]
  show ?thesis
  proof (cases x)
    case (Inl e)
    with call g inv1 show ?thesis by (auto simp: Reconcile_def)
  next
    case (Inr obj)
    with get client_lawsD(1)[OF C] have stored: "objs s1 (o_Name obj) = Some obj" by (auto simp: quiet_def)
    have body: "reconcileObject r obj now s1 = (res, s')" using call g Inr by (simp add: Reconcile_def)
    show ?thesis
    proof (cases "namespaceFor (o_Name obj)")
      case (Inl e)
      with body have "fail r obj ''InvalidName'' (CtlApi e) s1 = (res, s')" by (simp add: reconcileObject_def)
      from fail_keeps[OF am C inv1 _ this] Inl show ?thesis by simp
    next
      case (Inr namespace)
      obtain y t where u: "cl_Update (r_Client r) (AddFinalizer obj Finalizer) s1 = (y, t)" by (metis surj_pair)
      have "forgotten_gone (r_Meta r) objs present t" by (rule forgotten_gone_write[OF inv1 client_lawsD(3)[OF C u]])
      then show ?thesis using body Inr u
        by (auto simp: reconcileObject_def split: if_splits sum.splits
            intro: finalize_keeps[OF am C H inv1 stored Inr] reconcileTombstone_keeps[OF C inv1] provision_keeps[OF am C H inv1 stored _ Inr])
    qed
  qed
qed

section \<open>Retention, requeues and progress of teardown\<close>

lemma retentionOf_pos: "0 < sint (retentionOf r)"
  by (simp add: retentionOf_def)

text \<open>C21: the tombstone of a forgotten Oubliette is left alone until its retention has elapsed, with a wake-up at
  that moment, and its deletion is requested from then on.\<close>

theorem tombstone_retained:
  assumes "cl_Get (r_Client r) name s = (Inr obj, s1)" and "namespaceFor (o_Name obj) = Inr namespace"
    and "optIsZero (o_DeletionTimestamp obj)" and "conditionTrue (r_Meta r) obj ConditionForgotten"
    and "st_ForgottenAt (o_Status obj) = Some t"
  shows "(now < t + sint (retentionOf r) \<longrightarrow> (\<exists>d. Reconcile r name now s = ((after d, None), s1) \<and>
      sint d = min (2 ^ 63 - 1) (t + sint (retentionOf r) - now) \<and> 0 < sint d)) \<and>
    (t + sint (retentionOf r) \<le> now \<longrightarrow> snd (Reconcile r name now s) = snd (cl_Delete (r_Client r) obj s1))"
proof -
  let ?d = "Time_Sub (Time_Add t (retentionOf r)) now"
  have body: "Reconcile r name now s = (if sint ?d \<le> 0 then
      (case cl_Delete (r_Client r) obj s1 of
         (Some e, s2) \<Rightarrow> (if IsNotFound e then (requeue, None) else (noResult, Some (CtlApi e)), s2)
       | (None, s2) \<Rightarrow> ((requeue, None), s2)) else ((after ?d, None), s1))"
    using assms by (simp add: Reconcile_def reconcileObject_def reconcileTombstone_def Let_def)
  have d: "sint ?d = max (- (2 ^ 63)) (min (2 ^ 63 - 1) (t + sint (retentionOf r) - now))"
    by (simp only: sint_Time_Sub Time_Add_def)
  have "now < t + sint (retentionOf r) \<Longrightarrow> sint ?d = min (2 ^ 63 - 1) (t + sint (retentionOf r) - now) \<and> 0 < sint ?d"
    unfolding d by (simp add: max_def min_def)
  moreover have "t + sint (retentionOf r) \<le> now \<Longrightarrow> sint ?d \<le> 0" unfolding d by (simp add: max_def min_def)
  ultimately show ?thesis unfolding body by (auto split: prod.splits option.splits)
qed

text \<open>A merge patch whose base is the stored object stores, when it is accepted, the conditions and the metrics part it
  was given.\<close>

definition merge_laws :: "apimeta \<Rightarrow> 's oub_client \<Rightarrow> ('s \<Rightarrow> string \<Rightarrow> Oubliette option) \<Rightarrow> bool" where
  "merge_laws am C objs \<longleftrightarrow> (\<forall>x b s z s'. objs s (o_Name x) = Some b \<longrightarrow> cl_StatusPatch C x b s = (Inr z, s') \<longrightarrow>
     objs s' (o_Name x) = Some z \<and> metricsFields z = metricsFields x \<and> (\<forall>t. conditionTrue am z t = conditionTrue am x t))"

text \<open>C22: a pass that publishes the status of a provisioned Oubliette stores a status that says metrics are ready exactly when
  the profile enables them, the virtual API is ready and the gateway's Service exists with a ready endpoint. With metrics
  enabled its four metrics fields are the profile's endpoint identity for this Oubliette, generation, isolation
  scope and trust domain, none of them empty; with metrics disabled all four are empty. While the virtual API or an enabled
  gateway is not ready, the pass comes back after five seconds.\<close>

theorem metrics_status_exact:
  assumes laws: "condition_laws (r_Meta r)" and H: "host_laws r objs present"
    and M: "merge_laws (r_Meta r) (r_Client r) objs" and stored: "objs s (o_Name obj) = Some obj"
    and ok: "publishStatus r p obj namespace ready now s = ((res, None), s')"
  shows "\<exists>obj'. objs s' (o_Name obj) = Some obj' \<and>
    (conditionTrue (r_Meta r) obj' ConditionMetricsReady \<longleftrightarrow>
      mp_Enabled (r_MetricsProfile r) \<and> ready \<and> (\<exists>t. gatewayReady r s t)) \<and>
    (if mp_Enabled (r_MetricsProfile r)
     then st_MetricsEndpoint (o_Status obj') = mp_EndpointPrefix (r_MetricsProfile r) @ '':'' @ o_Name obj \<and>
       st_MetricsProfileGeneration (o_Status obj') = mp_Generation (r_MetricsProfile r) \<and>
       st_MetricsIsolationScope (o_Status obj') = mp_IsolationScope (r_MetricsProfile r) \<and>
       st_MetricsTrustDomain (o_Status obj') = mp_TrustDomain (r_MetricsProfile r) \<and>
       '''' \<notin> {mp_EndpointPrefix (r_MetricsProfile r), mp_Generation (r_MetricsProfile r), mp_IsolationScope (r_MetricsProfile r),
         mp_TrustDomain (r_MetricsProfile r)}
     else st_MetricsEndpoint (o_Status obj') = '''' \<and> st_MetricsProfileGeneration (o_Status obj') = '''' \<and>
       st_MetricsIsolationScope (o_Status obj') = '''' \<and> st_MetricsTrustDomain (o_Status obj') = '''') \<and>
    (\<not> ready \<or> mp_Enabled (r_MetricsProfile r) \<and> \<not> (\<exists>t. gatewayReady r s t) \<longrightarrow> res = after (5 * Second))"
proof -
  from ok obtain b obj1 s1 z where
    m: "projectMetricsStatus r (provisionedStatus r p namespace ready obj) ready s = ((Inr b, obj1), s1)"
    and z: "cl_StatusPatch (r_Client r) obj1 obj s1 = (Inr z, s')"
    and res: "\<not> (ready \<and> b) \<longrightarrow> res = after (5 * Second)"
    by (auto simp: publishStatus_def fail_def Let_def split: sum.splits prod.splits if_splits)
  note e = projection_exact[OF laws m]
  have name: "o_Name obj1 = o_Name obj" using e provisionedStatus_other[OF laws, of ConditionMetricsReady] by simp
  have s1: "objs s1 (o_Name obj1) = Some obj" using projectMetricsStatus_quiet[OF H m] stored name by (simp add: quiet_def)
  have new: "objs s' (o_Name obj1) = Some z" "metricsFields z = metricsFields obj1" "\<forall>t. conditionTrue (r_Meta r) z t = conditionTrue (r_Meta r) obj1 t"
    using M[unfolded merge_laws_def, rule_format, OF s1 z] by blast+
  show ?thesis
  proof (intro exI[of _ z] conjI)
    show "objs s' (o_Name obj) = Some z" using new(1) name by simp
    show "conditionTrue (r_Meta r) z ConditionMetricsReady \<longleftrightarrow> mp_Enabled (r_MetricsProfile r) \<and> ready \<and> (\<exists>t. gatewayReady r s t)"
      using e new(3) by blast
  qed (use e new(2) name res in \<open>auto simp: metricsFields_def\<close>)
qed

lemma provision_publishes:
  assumes H: "host_laws r objs present" and call: "provision r obj namespace now s = ((res, None), s')"
  shows "\<exists>p ready s4. publishStatus r p obj namespace ready now s4 = ((res, None), s') \<and> objs s4 = objs s"
proof -
  from call obtain p ready s1 s2 s3 s4 where
    b: "ensureBoundary (r_Cluster r) (boundaryConfig r) obj p namespace s = (None, s1)"
    and e: "runExport r obj namespace s1 = (None, s2)" and v: "vm_Ensure (r_VCluster r) (o_Name obj) namespace s2 = (None, s3)"
    and a: "vm_Ready (r_VCluster r) (o_Name obj) namespace s3 = (Inr ready, s4)"
    and pub: "publishStatus r p obj namespace ready now s4 = ((res, None), s')"
    by (auto simp: provision_def fail_def split: sum.splits prod.splits option.splits)
  have "objs s4 = objs s" using ensureBoundary_grows[OF H b] host_lawsD(10)[OF H e] host_lawsD(7)[OF H v] host_lawsD(9)[OF H a]
    by (simp add: grows_def quiet_def)
  with pub show ?thesis by blast
qed

text \<open>C20: a pass over a live Oubliette that ends without an error always schedules the next one, within 30 seconds and
  not later than the expiry or five seconds from now, so the deadline is noticed.\<close>

theorem expiry_noticed:
  assumes C: "client_laws (r_Client r) objs present" and H: "host_laws r objs present"
    and get: "cl_Get (r_Client r) name s = (Inr obj, s1)" and ns: "namespaceFor (o_Name obj) = Inr namespace"
    and live: "optIsZero (o_DeletionTimestamp obj)" "\<not> conditionTrue (r_Meta r) obj ConditionForgotten"
      "now < spec_ExpiresAt (o_Spec obj)" "ContainsFinalizer obj Finalizer"
    and ok: "Reconcile r name now s = ((res, None), s')"
  shows "0 < sint (res_RequeueAfter res) \<and> sint (res_RequeueAfter res) \<le> 30000000000 \<and>
    now + sint (res_RequeueAfter res) \<le> max (spec_ExpiresAt (o_Spec obj)) (now + 5000000000)"
proof -
  have stored: "objs s1 (o_Name obj) = Some obj"
    using client_lawsD(2)[OF C get] client_lawsD(1)[OF C] by (auto simp: quiet_def)
  have prov: "provision r obj namespace now s1 = ((res, None), s')"
    using ok get ns live by (simp add: Reconcile_def reconcileObject_def)
  from provision_publishes[OF H prov] obtain p ready s4 where
    pub: "publishStatus r p obj namespace ready now s4 = ((res, None), s')" and s4: "objs s4 = objs s1" by blast
  from pub obtain b obj1 s5 obj2 where
    m: "projectMetricsStatus r (provisionedStatus r p namespace ready obj) ready s4 = ((Inr b, obj1), s5)"
    and p: "cl_StatusPatch (r_Client r) obj1 obj s5 = (Inr obj2, s')"
    and res: "res = after (if ready \<and> b then (if sint (30 * Second) < sint (Time_Sub (spec_ExpiresAt (o_Spec obj2)) now)
        then 30 * Second else Time_Sub (spec_ExpiresAt (o_Spec obj2)) now) else 5 * Second)"
    by (auto simp: publishStatus_def fail_def Let_def split: sum.splits prod.splits if_splits)
  have name: "o_Name obj1 = o_Name obj" using m
    by (auto simp: projectMetricsStatus_def provisionedStatus_def Let_def split: if_splits prod.splits sum.splits bool.splits)
  have "objs s5 (o_Name obj1) = Some obj" using projectMetricsStatus_quiet[OF H m] s4 stored name by (simp add: quiet_def)
  then have spec: "o_Spec obj2 = o_Spec obj" using client_lawsD(5)[OF C p] unfolding patches_status_def by auto
  have sec: "sint (30 * Second) = 30000000000" "sint (5 * Second) = 5000000000" by (simp_all add: Second_def)
  define d where "d = spec_ExpiresAt (o_Spec obj) - now"
  have d: "0 < d" "spec_ExpiresAt (o_Spec obj) = now + d" using live(3) by (simp_all add: d_def)
  have "sint (Time_Sub (spec_ExpiresAt (o_Spec obj)) now) = min (2 ^ 63 - 1) d"
    unfolding sint_Time_Sub d(2) using d(1) by simp
  then show ?thesis unfolding res spec d(2) using d(1) by (auto simp: after_def sec)
qed

text \<open>
  The surroundings of a teardown that nobody else touches: \<open>stored\<close> is the Oubliette the API keeps and
  \<open>todo\<close> bounds the setbacks still to come. Every call may fail, a failure leaves the object as it
  was, and each failed call and each pass that still finds the host namespace uses up one of them. A status
  patch that is accepted applies the changed parts of the status, with the time of \<open>ForgottenAt\<close> cut to whole seconds.
\<close>

definition stays :: "('s \<Rightarrow> Oubliette option) \<Rightarrow> ('s \<Rightarrow> nat) \<Rightarrow> 's \<Rightarrow> 's \<Rightarrow> bool" where
  "stays stored todo s s' \<longleftrightarrow> stored s' = stored s \<and> todo s' \<le> todo s"

definition setback :: "('s \<Rightarrow> Oubliette option) \<Rightarrow> ('s \<Rightarrow> nat) \<Rightarrow> 's \<Rightarrow> 's \<Rightarrow> bool" where
  "setback stored todo s s' \<longleftrightarrow> stored s' = stored s \<and> todo s' < todo s"

definition status_applied :: "apimeta \<Rightarrow> Oubliette \<Rightarrow> Oubliette \<Rightarrow> Oubliette \<Rightarrow> Oubliette \<Rightarrow> bool" where
  "status_applied am x b y z \<longleftrightarrow> o_Name z = o_Name y \<and> o_Spec z = o_Spec y \<and> o_DeletionTimestamp z = o_DeletionTimestamp y \<and>
     (\<forall>t. conditionTrue am z t = conditionTrue am (if st_Conditions (o_Status x) = st_Conditions (o_Status b) then y else x) t) \<and>
     st_ForgottenAt (o_Status z) = (if st_ForgottenAt (o_Status x) = st_ForgottenAt (o_Status b) then st_ForgottenAt (o_Status y)
       else map_option truncSecond (st_ForgottenAt (o_Status x)))"

definition teardown_env ::
  "('s, 'x) Reconciler \<Rightarrow> string \<Rightarrow> string \<Rightarrow> ('s \<Rightarrow> Oubliette option) \<Rightarrow> ('s \<Rightarrow> nat) \<Rightarrow> bool" where
  "teardown_env r name ns stored todo \<longleftrightarrow>
     (\<forall>s obj. stored s = Some obj \<longrightarrow> cl_Get (r_Client r) name s = (Inr obj, s)) \<and>
     (\<forall>s x b y res s'. stored s = Some y \<longrightarrow> o_Name x = name \<longrightarrow> cl_StatusPatch (r_Client r) x b s = (res, s') \<longrightarrow>
        (case res of Inl e \<Rightarrow> setback stored todo s s'
         | Inr z \<Rightarrow> stored s' = Some z \<and> todo s' \<le> todo s \<and> status_applied (r_Meta r) x b y z)) \<and>
     (\<forall>E obj s res s'. r_EvidenceExporter r = Some E \<longrightarrow> E obj ns s = (res, s') \<longrightarrow>
        (if res = None then stays stored todo s s' else setback stored todo s s')) \<and>
     (\<forall>s res s'. vm_Delete (r_VCluster r) name ns s = (res, s') \<longrightarrow>
        (if res = None then stays stored todo s s' else setback stored todo s s')) \<and>
     (\<forall>s res s'. getNamespace (r_Cluster r) ns s = (res, s') \<longrightarrow>
        (case res of
           Inl e \<Rightarrow> if IsNotFound e then stays stored todo s s' else setback stored todo s s'
         | Inr n \<Rightarrow> if optIsZero (n_DeletionTimestamp n)
             then \<forall>d s''. removeNamespace (r_Cluster r) n s' = (d, s'') \<longrightarrow> setback stored todo s s''
             else setback stored todo s s'))"

lemma teardown_envD:
  assumes "teardown_env r name ns stored todo"
  shows "stored s = Some obj \<Longrightarrow> cl_Get (r_Client r) name s = (Inr obj, s)"
    and "stored s = Some y \<Longrightarrow> o_Name x = name \<Longrightarrow> cl_StatusPatch (r_Client r) x b s = (res, s') \<Longrightarrow>
      (case res of Inl e \<Rightarrow> setback stored todo s s' | Inr z \<Rightarrow> stored s' = Some z \<and> todo s' \<le> todo s \<and> status_applied (r_Meta r) x b y z)"
    and "r_EvidenceExporter r = Some E \<Longrightarrow> E obj ns s = (ex, s') \<Longrightarrow> (if ex = None then stays stored todo s s' else setback stored todo s s')"
    and "vm_Delete (r_VCluster r) name ns s = (de, s') \<Longrightarrow> (if de = None then stays stored todo s s' else setback stored todo s s')"
    and "getNamespace (r_Cluster r) ns s = (ge, s') \<Longrightarrow> (case ge of
           Inl e \<Rightarrow> if IsNotFound e then stays stored todo s s' else setback stored todo s s'
         | Inr n \<Rightarrow> if optIsZero (n_DeletionTimestamp n)
             then \<forall>d s''. removeNamespace (r_Cluster r) n s' = (d, s'') \<longrightarrow> setback stored todo s s''
             else setback stored todo s s')"
  using assms unfolding teardown_env_def by simp_all

text \<open>Successive passes over one Oubliette at the given times.\<close>

fun passes :: "('s, 'x) Reconciler \<Rightarrow> string \<Rightarrow> time list \<Rightarrow> 's \<Rightarrow> 's" where
  "passes r name [] s = s"
| "passes r name (t # ts) s = passes r name ts (snd (Reconcile r name t s))"

definition expiredLive :: "apimeta \<Rightarrow> string \<Rightarrow> Oubliette \<Rightarrow> time \<Rightarrow> bool" where
  "expiredLive am name obj t \<longleftrightarrow> o_Name obj = name \<and> optIsZero (o_DeletionTimestamp obj) \<and>
     \<not> conditionTrue am obj ConditionForgotten \<and> st_ForgottenAt (o_Status obj) = None \<and> spec_ExpiresAt (o_Spec obj) \<le> t"

definition recordedForgotten :: "apimeta \<Rightarrow> Oubliette option \<Rightarrow> time \<Rightarrow> bool" where
  "recordedForgotten am stored t \<longleftrightarrow> (\<exists>obj. stored = Some obj \<and> conditionTrue am obj ConditionForgotten \<and>
     st_ForgottenAt (o_Status obj) = Some (truncSecond t))"

lemma expiringStatus_keeps:
  assumes "condition_laws am"
  shows "expiredLive am name (expiringStatus am obj) t = expiredLive am name obj t"
  using conditionTrue_set_other[OF assms, of ConditionForgotten ConditionExpiring]
  by (simp add: expiredLive_def expiringStatus_def) (simp add: setCondition_def)

lemma applied_expiring:
  assumes "condition_laws am" and "status_applied am (expiringStatus am obj) obj obj z"
  shows "expiredLive am name z t = expiredLive am name obj t"
proof -
  have "conditionTrue am z ConditionForgotten = conditionTrue am obj ConditionForgotten"
    using assms(2) conditionTrue_set_other[OF assms(1), of ConditionForgotten ConditionExpiring]
    by (simp add: status_applied_def expiringStatus_def)
  moreover have "st_ForgottenAt (o_Status z) = st_ForgottenAt (o_Status obj)" using assms(2) by (simp add: status_applied_def expiringStatus_def)
  ultimately show ?thesis using assms(2) by (simp add: expiredLive_def status_applied_def)
qed

lemma applied_forgotten:
  assumes am: "condition_laws am" and live: "expiredLive am name obj t" and z: "status_applied am (forgottenStatus am t obj) obj y z"
  shows "recordedForgotten am (Some z) t"
proof -
  let ?f = "forgottenStatus am t obj"
  have c: "conditionTrue am ?f ConditionForgotten" unfolding forgottenStatus_def by (subst conditionTrue_set_same[OF am]) simp
  then have "st_Conditions (o_Status ?f) \<noteq> st_Conditions (o_Status obj)" using live by (auto simp: expiredLive_def conditionTrue_def)
  moreover have "st_ForgottenAt (o_Status ?f) = Some t" by (simp add: forgottenStatus_def)
  ultimately show ?thesis using z c live by (simp add: status_applied_def recordedForgotten_def expiredLive_def)
qed

text \<open>Marking the object as expiring leaves it due, in the API and in hand, whether the patch was accepted,
  met a conflict or failed.\<close>

lemma markExpiring_step:
  assumes am: "condition_laws (r_Meta r)" and env: "teardown_env r name ns stored todo" and st: "stored s = Some obj" and n: "o_Name obj = name"
    and call: "markExpiring r obj True s = (res, s')"
  shows "todo s' \<le> todo s" and "res = Inl e \<Longrightarrow> todo s' < todo s"
    and "\<exists>y. stored s' = Some y \<and> (\<forall>u. expiredLive (r_Meta r) name y u = expiredLive (r_Meta r) name obj u)"
    and "res = Inr obj1 \<Longrightarrow> \<forall>u. expiredLive (r_Meta r) name obj1 u = expiredLive (r_Meta r) name obj u"
proof -
  let ?x = "expiringStatus (r_Meta r) obj"
  obtain a s1 where a: "cl_StatusPatch (r_Client r) ?x obj s = (a, s1)" by (metis surj_pair)
  have "o_Name ?x = name" using n by (simp add: expiringStatus_def)
  note l = teardown_envD(2)[OF env st this a]
  have res: "s' = s1" "res = (case a of Inr z \<Rightarrow> Inr z | Inl e \<Rightarrow> if IsConflict e then Inr ?x else Inl e)"
    using call a by (auto simp: markExpiring_def split: sum.splits)
  show "todo s' \<le> todo s" "res = Inl e \<Longrightarrow> todo s' < todo s"
    using l res by (auto simp: setback_def split: sum.splits if_splits)
  show "\<exists>y. stored s' = Some y \<and> (\<forall>u. expiredLive (r_Meta r) name y u = expiredLive (r_Meta r) name obj u)"
    using l res(1) st applied_expiring[OF am] by (auto simp: setback_def split: sum.splits)
  show "\<forall>u. expiredLive (r_Meta r) name obj1 u = expiredLive (r_Meta r) name obj u" if "res = Inr obj1"
    using l res(2) that applied_expiring[OF am] expiringStatus_keeps[OF am] by (auto split: sum.splits if_splits)
qed

lemma runExport_step:
  assumes "teardown_env r name ns stored todo" and "runExport r obj ns s = (e, s')"
  shows "if e = None then stays stored todo s s' else setback stored todo s s'"
proof (cases "r_EvidenceExporter r")
  case None
  with assms(2) show ?thesis by (auto simp: runExport_def stays_def)
next
  case (Some E)
  with assms(2) have "E obj ns s = (e, s')" by (simp add: runExport_def)
  then show ?thesis by (rule teardown_envD(3)[OF assms(1) Some])
qed

lemma deleteNamespace_step:
  assumes env: "teardown_env r name ns stored todo" and call: "deleteNamespace (r_Cluster r) ns s = (res, s')"
  shows "if res = Inr True then stays stored todo s s' else setback stored todo s s'"
proof -
  obtain a s1 where a: "getNamespace (r_Cluster r) ns s = (a, s1)" by (metis surj_pair)
  show ?thesis using call a teardown_envD(5)[OF env a] by (auto simp: deleteNamespace_def split: sum.splits if_splits option.splits prod.splits)
qed

text \<open>A pass over an expired Oubliette records it as forgotten, or it leaves it due and uses up a setback.\<close>

lemma teardown_pass:
  assumes am: "condition_laws (r_Meta r)" and env: "teardown_env r name ns stored todo" and ns: "namespaceFor name = Inr ns"
    and st: "stored s = Some obj" and ex: "expiredLive (r_Meta r) name obj t" and pass: "Reconcile r name t s = (out, s')"
  shows "recordedForgotten (r_Meta r) (stored s') t \<or>
    todo s' < todo s \<and> (\<exists>y. stored s' = Some y \<and> (\<forall>u. expiredLive (r_Meta r) name y u = expiredLive (r_Meta r) name obj u))"
proof -
  have n: "o_Name obj = name" using ex by (simp add: expiredLive_def)
  have fin: "finalize r obj ns True t s = (out, s')"
    using pass teardown_envD(1)[OF env st] ns ex by (simp add: Reconcile_def reconcileObject_def expiredLive_def)
  obtain a s1 where a: "markExpiring r obj True s = (a, s1)" by (metis surj_pair)
  note m = markExpiring_step[OF am env st n a]
  obtain y where y: "stored s1 = Some y" "\<forall>u. expiredLive (r_Meta r) name y u = expiredLive (r_Meta r) name obj u" using m(3) by blast
  have stop: ?thesis if "setback stored todo s1 s'" using that m(1) y by (auto simp: setback_def)
  show ?thesis
  proof (cases a)
    case (Inl e)
    with fin a have "s' = s1" by (simp add: finalize_def)
    then show ?thesis using m(2)[OF Inl] y by auto
  next
    case (Inr obj1)
    note due = m(4)[OF Inr, rule_format, of t]
    have n1: "o_Name obj1 = name" using due ex by (simp add: expiredLive_def)
    obtain x s2 where x: "runExport r obj1 ns s1 = (x, s2)" by (metis surj_pair)
    obtain d s3 where d: "vm_Delete (r_VCluster r) name ns s2 = (d, s3)" by (metis surj_pair)
    obtain g s4 where g: "deleteNamespace (r_Cluster r) ns s3 = (g, s4)" by (metis surj_pair)
    note steps = runExport_step[OF env x] teardown_envD(4)[OF env d] deleteNamespace_step[OF env g]
    consider "x \<noteq> None" | "x = None" "d \<noteq> None" | "x = None" "d = None" "g \<noteq> Inr True" | "x = None" "d = None" "g = Inr True" by blast
    then show ?thesis
    proof cases
      case 4
      then have kept: "stored s4 = Some y" "todo s4 \<le> todo s1" using steps y by (auto simp: stays_def)
      have f: "finishExpired r obj1 t s4 = (out, s')" using fin a Inr x d g n1 4 by (simp add: finalize_def)
      obtain p s5 where p: "cl_StatusPatch (r_Client r) (forgottenStatus (r_Meta r) t obj1) obj1 s4 = (p, s5)" by (metis surj_pair)
      have "o_Name (forgottenStatus (r_Meta r) t obj1) = name" using n1 by (simp add: forgottenStatus_def)
      note l = teardown_envD(2)[OF env kept(1) this p]
      have "s' = s5" using f p by (auto simp: finishExpired_def split: sum.splits)
      then show ?thesis using l kept due ex applied_forgotten[OF am, of name obj1 t y] m(1) y by (auto simp: setback_def split: sum.splits)
    next
      case 1
      then have "s' = s2" using fin a Inr x by (auto simp: finalize_def)
      then show ?thesis using 1 steps(1) stop by simp
    next
      case 2
      then have "s' = s3" using fin a Inr x d n1 by (auto simp: finalize_def)
      with 2 steps(1,2) have "setback stored todo s1 s'" by (auto simp: stays_def setback_def)
      then show ?thesis by (rule stop)
    next
      case 3
      then have "s' = s4" using fin a Inr x d g n1 by (auto simp: finalize_def split: sum.splits bool.splits)
      with 3 steps have "setback stored todo s1 s'" by (auto simp: stays_def setback_def)
      then show ?thesis by (rule stop)
    qed
  qed
qed

lemma teardown_last:
  assumes am: "condition_laws (r_Meta r)" and env: "teardown_env r name ns stored todo" and ns: "namespaceFor name = Inr ns"
    and st: "stored s = Some obj" and ex: "expiredLive (r_Meta r) name obj t" and todo: "todo s = 0"
  shows "recordedForgotten (r_Meta r) (stored (snd (Reconcile r name t s))) t"
  using teardown_pass[OF am env ns st ex, of "fst (Reconcile r name t s)"] todo by (metis less_nat_zero_code surjective_pairing)

text \<open>C5: a teardown completes once its obstacles are exhausted. Evidence export, the Helm uninstall, the status patches and the calls on
  the host namespace may fail, and each failure, like each pass that still finds the host namespace, leaves the expired
  Oubliette to the next pass; when at most \<open>todo\<close> such setbacks are still to come (an export that never
  succeeds holds the teardown for ever), one of the first \<open>todo + 1\<close> passes stores the object as forgotten, with the
  time of that pass in the whole seconds the API keeps. Nobody else writes the object meanwhile.\<close>

theorem teardown_completes:
  assumes am: "condition_laws (r_Meta r)" and env: "teardown_env r name ns stored todo" and ns: "namespaceFor name = Inr ns"
    and "stored s = Some obj" and "\<forall>t \<in> set ts. expiredLive (r_Meta r) name obj t" and "todo s < length ts"
  shows "\<exists>k obj'. k \<le> todo s \<and> stored (passes r name (take (Suc k) ts) s) = Some obj' \<and> conditionTrue (r_Meta r) obj' ConditionForgotten \<and>
    st_ForgottenAt (o_Status obj') = Some ((ts ! k) div 1000000000 * 1000000000)"
  using assms(4-6)
proof (induction ts arbitrary: s obj)
  case Nil
  then show ?case by simp
next
  case (Cons t ts)
  obtain out s' where p: "Reconcile r name t s = (out, s')" by (metis surj_pair)
  have ex: "expiredLive (r_Meta r) name obj t" using Cons.prems(2) by simp
  from teardown_pass[OF am env ns Cons.prems(1) ex p] show ?case
  proof (elim disjE conjE exE)
    assume "recordedForgotten (r_Meta r) (stored s') t"
    then show ?thesis using p by (auto simp: recordedForgotten_def truncSecond_def intro!: exI[of _ "0 :: nat"])
  next
    fix y assume y: "todo s' < todo s" "stored s' = Some y" "\<forall>u. expiredLive (r_Meta r) name y u = expiredLive (r_Meta r) name obj u"
    then obtain k obj' where k: "k \<le> todo s'" "stored (passes r name (take (Suc k) ts) s') = Some obj'" "conditionTrue (r_Meta r) obj' ConditionForgotten"
      "st_ForgottenAt (o_Status obj') = Some ((ts ! k) div 1000000000 * 1000000000)"
      using Cons.IH[OF y(2)] Cons.prems(2,3) by auto
    with y(1) p show ?thesis by (intro exI[of _ "Suc k"] exI[of _ obj']) simp
  qed
qed

section \<open>Order of teardown\<close>

locale evidence_exporter =
  fixes E :: "('s, 'x) exporter"
    and exported :: "Oubliette \<Rightarrow> string \<Rightarrow> 's \<Rightarrow> 's \<Rightarrow> bool"
  assumes export_ok: "E obj namespace s = (None, s') \<Longrightarrow> exported obj namespace s s'"

text \<open>What a completed teardown went through, in the order of the calls.\<close>

locale teardown_host = vcluster_manager V gone handoff + evidence_exporter E exported
  for V :: "'s Manager" and gone handoff and E :: "('s, 'x) exporter" and exported
begin

lemma teardown_ordered:
  assumes "r_VCluster r = V" and "r_EvidenceExporter r = Some E"
    and call: "finalize r obj namespace expired now s = ((res, None), s')" and "res \<noteq> after (2 * Second)"
  shows "\<exists>obj1 s1 s2 s3 s4 e. markExpiring r obj expired s = (Inr obj1, s1) \<and> exported obj1 namespace s1 s2 \<and>
    gone (o_Name obj1) namespace s2 s3 \<and> getNamespace (r_Cluster r) namespace s3 = (Inl e, s4) \<and> IsNotFound e \<and>
    (if expired then finishExpired r obj1 now s4 else finishDeleted r obj1 s4) = ((res, None), s')"
proof -
  obtain obj1 s1 where m: "markExpiring r obj expired s = (Inr obj1, s1)"
    using call by (auto simp: finalize_def split: prod.splits sum.splits)
  obtain s2 where x: "E obj1 namespace s1 = (None, s2)"
    using call m assms(2) by (auto simp: finalize_def runExport_def split: prod.splits option.splits)
  obtain s3 where d: "vm_Delete V (o_Name obj1) namespace s2 = (None, s3)"
    using call m x assms(1,2) by (auto simp: finalize_def runExport_def split: prod.splits option.splits)
  obtain s4 where n: "deleteNamespace (r_Cluster r) namespace s3 = (Inr True, s4)"
    and f: "(if expired then finishExpired r obj1 now s4 else finishDeleted r obj1 s4) = ((res, None), s')"
    using call m x d assms(1,2,4) by (auto simp: finalize_def runExport_def split: prod.splits sum.splits bool.splits if_splits)
  from n obtain e where "getNamespace (r_Cluster r) namespace s3 = (Inl e, s4)" "IsNotFound e"
    by (auto simp: deleteNamespace_def split: prod.splits sum.splits if_splits option.splits)
  then show ?thesis using m f export_ok[OF x] Delete_gone[OF d] by blast
qed

lemma failed_export_stops:
  assumes "r_EvidenceExporter r = Some E" and "markExpiring r obj expired s = (Inr obj1, s1)"
    and "E obj1 namespace s1 = (Some e, s2)"
  shows "finalize r obj namespace expired now s = ((noResult, Some (ExportBeforeTeardownFailed e)), s2)"
  using assms by (simp add: finalize_def runExport_def)

lemma ready_means_handoff:
  assumes "r_VCluster r = V" and "condition_laws (r_Meta r)"
    and call: "provision r obj namespace now s = ((res, None), s')"
  shows "\<exists>p ready s1 s2. publishStatus r p obj namespace ready now s2 = ((res, None), s') \<and>
    (ready \<longrightarrow> handoff (o_Name obj) namespace s1 s2)"
proof -
  from call obtain p ready s1 s2 where "vm_Ready V (o_Name obj) namespace s1 = (Inr ready, s2)"
    "publishStatus r p obj namespace ready now s2 = ((res, None), s')"
    using assms(1) by (auto simp: provision_def fail_def split: sum.splits prod.splits option.splits)
  moreover from this(1) have "ready \<longrightarrow> handoff (o_Name obj) namespace s1 s2" using Ready_handoff by (cases ready) auto
  ultimately show ?thesis by blast
qed

end

section \<open>An in-memory host\<close>

text \<open>Oubliettes, namespaced objects, and calls that succeed, as an instance of the laws.\<close>

record world =
  w_objs :: "Oubliette list"
  w_kube :: objects

definition w_stored :: "world \<Rightarrow> string \<Rightarrow> Oubliette option" where
  "w_stored w = mem_find (w_objs w)"

definition w_present :: "world \<Rightarrow> string \<Rightarrow> bool" where
  "w_present w n \<longleftrightarrow> w_kube w (KNamespace, '''', n) \<noteq> None"

definition liftw :: "(Oubliette list \<Rightarrow> 'a \<times> Oubliette list) \<Rightarrow> world \<Rightarrow> 'a \<times> world" where
  "liftw f w = (case f (w_objs w) of (x, os) \<Rightarrow> (x, w\<lparr>w_objs := os\<rparr>))"

definition liftk :: "(objects \<Rightarrow> 'a \<times> objects) \<Rightarrow> world \<Rightarrow> 'a \<times> world" where
  "liftk f w = (case f (w_kube w) of (x, ks) \<Rightarrow> (x, w\<lparr>w_kube := ks\<rparr>))"

definition mergeStatus :: "Oubliette \<Rightarrow> Oubliette \<Rightarrow> Oubliette \<Rightarrow> Oubliette" where
  "mergeStatus x b y = y\<lparr>o_Status := (o_Status x)\<lparr>st_Conditions :=
       if st_Conditions (o_Status x) = st_Conditions (o_Status b) then st_Conditions (o_Status y) else st_Conditions (o_Status x),
     st_ForgottenAt := if st_ForgottenAt (o_Status x) = st_ForgottenAt (o_Status b) then st_ForgottenAt (o_Status y)
       else map_option truncSecond (st_ForgottenAt (o_Status x))\<rparr>\<rparr>"

definition worldclient :: "world oub_client" where
  "worldclient =
     \<lparr>cl_Get = (\<lambda>n. liftw (cl_Get memclient n)), cl_List = liftw (cl_List memclient),
      cl_Create = (\<lambda>x. liftw (cl_Create memclient x)), cl_Update = (\<lambda>x. liftw (cl_Update memclient x)),
      cl_Delete = (\<lambda>x. liftw (cl_Delete memclient x)),
      cl_StatusPatch = (\<lambda>x b. liftw (\<lambda>s. case mem_find s (o_Name x) of
          None \<Rightarrow> (Inl (NotFound (o_Name x)), s)
        | Some y \<Rightarrow> (Inr (mergeStatus x b y), mem_put (mergeStatus x b y) s)))\<rparr>"

definition worldcluster :: "world cluster" where
  "worldcluster =
     \<lparr>createOrUpdate = (\<lambda>x f. liftk (createOrUpdate memcluster x f)),
      setControllerReference = setControllerReference memcluster,
      getNamespace = (\<lambda>n. liftk (getNamespace memcluster n)),
      removeNamespace = (\<lambda>n. liftk (removeNamespace memcluster n)),
      getClusterQueue = (\<lambda>n. liftk (getClusterQueue memcluster n))\<rparr>"

definition steady_manager :: "'s Manager" where
  "steady_manager = \<lparr>vm_Ensure = (\<lambda>_ _ s. (None, s)), vm_Delete = (\<lambda>_ _ s. (None, s)), vm_Ready = (\<lambda>_ _ s. (Inr True, s))\<rparr>"

definition world_reconciler :: "(world, unit) Reconciler" where
  "world_reconciler = \<lparr>r_Client = worldclient, r_Cluster = worldcluster,
     r_Discovery = \<lparr>ds_GetService = (\<lambda>_ _ s. (None, s)), ds_ListSlices = (\<lambda>_ _ s. (Inr [[Some True]], s))\<rparr>,
     r_Meta = listmeta, r_ErrorText = (\<lambda>_. ''error''), r_VCluster = steady_manager, r_TombstoneRetention = 0,
     r_KueueClusterQueue = '''', r_KueueManagedLabel = '''', r_KueueManagedValue = '''', r_MetricsProfile = disabledMetrics,
     r_MetricsServiceNamespace = '''', r_MetricsServiceName = '''', r_EvidenceExporter = Some (\<lambda>_ _ s. (None, s))\<rparr>"

lemma mem_find_remove: "mem_find (filter (\<lambda>z. o_Name z \<noteq> n) s) = (mem_find s)(n := None)"
proof
  fix m
  show "mem_find (filter (\<lambda>z. o_Name z \<noteq> n) s) m = ((mem_find s)(n := None)) m"
  proof (cases "m = n")
    case True
    then show ?thesis by (induction s) (auto simp: mem_find_def)
  next
    case False
    then show ?thesis by (simp add: mem_find_filter_other)
  qed
qed

lemma worldclient_laws: "client_laws worldclient w_stored w_present"
  unfolding client_laws_def
proof (intro conjI allI impI)
  show "w_stored s n = Some obj \<Longrightarrow> o_Name obj = n" for s n obj by (simp add: w_stored_def mem_find_name)
next
  show "quiet w_stored w_present s s'" if "cl_Get worldclient n s = (res, s')" for n s res s'
    using that by (auto simp: worldclient_def memclient_def liftw_def quiet_def w_stored_def w_present_def)
next
  show "w_stored s n = Some obj" if "cl_Get worldclient n s = (res, s')" "res = Inr obj" for n s res s' obj
    using that by (auto simp: worldclient_def memclient_def liftw_def w_stored_def split: option.splits)
next
  show "writes_object w_stored w_present (o_Name x) s s'" if "cl_Update worldclient x s = (res, s')" for x s res s'
    using that by (auto simp: worldclient_def memclient_def liftw_def writes_object_def w_stored_def w_present_def
        mem_find_put Let_def split: option.splits)
next
  show "writes_object w_stored w_present (o_Name x) s s'" if "cl_Delete worldclient x s = (res, s')" for x s res s'
  proof (cases "mem_find (w_objs s) (o_Name x)")
    case None
    with that show ?thesis by (auto simp: worldclient_def memclient_def liftw_def writes_object_def)
  next
    case (Some y)
    then have "o_Name y = o_Name x" by (rule mem_find_name)
    with that Some show ?thesis
      by (cases "o_Finalizers y = []") (auto simp: worldclient_def memclient_def liftw_def writes_object_def w_stored_def
          w_present_def mem_find_put mem_find_remove intro!: exI[of _ "y\<lparr>o_DeletionTimestamp := Some 0\<rparr>"])
  qed
next
  show "patches_status w_stored w_present x b s s'" if "cl_StatusPatch worldclient x b s = (res, s')" for x b s res s'
  proof (cases "mem_find (w_objs s) (o_Name x)")
    case None
    with that show ?thesis by (auto simp: worldclient_def liftw_def patches_status_def)
  next
    case (Some y)
    then have "o_Name (mergeStatus x b y) = o_Name x" by (simp add: mergeStatus_def mem_find_name)
    moreover have "o_Spec (mergeStatus x b y) = o_Spec y" by (simp add: mergeStatus_def)
    moreover have "st_Conditions (o_Status (mergeStatus x b y)) = (if st_Conditions (o_Status x) = st_Conditions (o_Status b)
        then st_Conditions (o_Status y) else st_Conditions (o_Status x))" by (simp add: mergeStatus_def)
    ultimately show ?thesis using that Some
      by (auto simp: worldclient_def liftw_def patches_status_def w_stored_def w_present_def mem_find_put)
  qed
next
  show "w_stored s' (o_Name x) = Some x'" if "cl_StatusPatch worldclient x b s = (res, s')" "res = Inr x'" for x b s res s' x'
    using that by (auto simp: worldclient_def liftw_def w_stored_def mergeStatus_def mem_find_put split: option.splits dest: mem_find_name)
qed

lemma world_host_laws: "host_laws world_reconciler w_stored w_present"
  unfolding host_laws_def
  by (intro conjI allI impI) (auto simp: world_reconciler_def worldcluster_def memcluster_def liftk_def quiet_def w_stored_def
      w_present_def steady_manager_def split: sum.splits option.splits if_splits)

section \<open>Witnesses\<close>

definition enabledMetrics :: MetricsProfile where
  "enabledMetrics = disabledMetrics\<lparr>mp_Enabled := True, mp_Generation := ''g1'', mp_EndpointPrefix := ''metrics'',
     mp_IsolationScope := ''pod'', mp_TrustDomain := ''td''\<rparr>"

definition metrics_reconciler :: "(world, unit) Reconciler" where
  "metrics_reconciler = world_reconciler\<lparr>r_MetricsProfile := enabledMetrics, r_MetricsServiceNamespace := ''sys'',
     r_MetricsServiceName := ''gw''\<rparr>"

definition emptyWorld :: world where "emptyWorld = \<lparr>w_objs = [], w_kube = (\<lambda>_. None)\<rparr>"

lemma world_merge_laws: "merge_laws am worldclient w_stored"
  unfolding merge_laws_def
  by (auto simp: worldclient_def liftw_def w_stored_def mem_find_put metricsFields_def mergeStatus_def conditionTrue_def dest: mem_find_name)

lemma metrics_host_laws: "host_laws metrics_reconciler w_stored w_present"
  using world_host_laws unfolding host_laws_def by (simp add: metrics_reconciler_def)

theorem metrics_status_exact_witness:
  "\<exists>res w' obj'. publishStatus metrics_reconciler demo_profile (demo_oub ''a'') ''oub-a'' True 0 (emptyWorld\<lparr>w_objs := [demo_oub ''a'']\<rparr>) = ((res, None), w') \<and>
     w_stored w' ''a'' = Some obj' \<and> conditionTrue listmeta obj' ConditionMetricsReady \<and> st_MetricsEndpoint (o_Status obj') = ''metrics:a'' \<and>
     st_MetricsTrustDomain (o_Status obj') = ''td''"
proof -
  let ?w = "emptyWorld\<lparr>w_objs := [demo_oub ''a'']\<rparr>"
  have d: "r_Meta metrics_reconciler = listmeta" "r_MetricsProfile metrics_reconciler = enabledMetrics" "r_Client metrics_reconciler = worldclient"
    "mp_Enabled enabledMetrics" "mp_EndpointPrefix enabledMetrics = ''metrics''" "mp_TrustDomain enabledMetrics = ''td''" "o_Name (demo_oub ''a'') = ''a''"
    by (simp_all add: metrics_reconciler_def world_reconciler_def enabledMetrics_def demo_oub_def)
  have set: "mp_Generation enabledMetrics = ''g1''" "mp_IsolationScope enabledMetrics = ''pod''" "r_MetricsServiceNamespace metrics_reconciler = ''sys''"
    "r_MetricsServiceName metrics_reconciler = ''gw''" by (simp_all add: metrics_reconciler_def enabledMetrics_def)
  have g: "gatewayReady metrics_reconciler ?w ?w"
    by (simp add: gatewayReady_def metrics_reconciler_def world_reconciler_def)
  then have m: "metricsServiceReady metrics_reconciler ?w = (Inr True, ?w)" by (simp add: metricsServiceReady_True)
  let ?x = "provisionedStatus metrics_reconciler demo_profile ''oub-a'' True (demo_oub ''a'')"
  have x: "o_Name ?x = ''a''" using provisionedStatus_other[of metrics_reconciler ConditionMetricsReady demo_profile "''oub-a''" True "demo_oub ''a''"] listmeta_laws d by simp
  obtain obj1 where o: "projectMetricsStatus metrics_reconciler ?x True ?w = ((Inr True, obj1), ?w)" "o_Name obj1 = ''a''"
    by (simp add: projectMetricsStatus_def d set m x)
  have stored: "w_stored ?w (o_Name (demo_oub ''a'')) = Some (demo_oub ''a'')" by (simp add: w_stored_def mem_find_def d)
  then obtain z w' where "cl_StatusPatch worldclient obj1 (demo_oub ''a'') ?w = (Inr z, w')" using o(2)
    by (simp add: worldclient_def liftw_def w_stored_def d)
  with o obtain res where ok: "publishStatus metrics_reconciler demo_profile (demo_oub ''a'') ''oub-a'' True 0 ?w = ((res, None), w')"
    by (simp add: publishStatus_def d Let_def)
  have laws: "condition_laws (r_Meta metrics_reconciler)" "merge_laws (r_Meta metrics_reconciler) (r_Client metrics_reconciler) w_stored"
    using listmeta_laws world_merge_laws d by simp_all
  from metrics_status_exact[OF laws(1) metrics_host_laws laws(2) stored ok] g ok show ?thesis by (auto simp: d)
qed

definition tombstone :: Oubliette where
  "tombstone = forgottenStatus listmeta 100000000000 (demo_oub ''a'')"

lemma tombstone_facts:
  "o_Name tombstone = ''a''" "optIsZero (o_DeletionTimestamp tombstone)" "conditionTrue listmeta tombstone ConditionForgotten"
  "st_ForgottenAt (o_Status tombstone) = Some 100000000000"
proof -
  show "conditionTrue listmeta tombstone ConditionForgotten"
    unfolding tombstone_def forgottenStatus_def by (subst conditionTrue_set_same[OF listmeta_laws]) simp
qed (simp_all add: tombstone_def forgottenStatus_def demo_oub_def setCondition_def setMetrics_def optIsZero_def)

lemma world_get: "mem_find (w_objs w) n = Some x \<Longrightarrow> cl_Get (r_Client world_reconciler) n w = (Inr x, w)"
  by (simp add: world_reconciler_def worldclient_def liftw_def memclient_def)

lemma namespaceFor_a: "namespaceFor ''a'' = Inr ''oub-a''"
  by (simp add: namespaceFor_Inr)

theorem tombstone_retained_witness:
  "\<exists>d. Reconcile world_reconciler ''a'' 200000000000 (emptyWorld\<lparr>w_objs := [tombstone]\<rparr>) =
     ((after d, None), emptyWorld\<lparr>w_objs := [tombstone]\<rparr>) \<and> sint d = 3500000000000"
proof -
  let ?w = "emptyWorld\<lparr>w_objs := [tombstone]\<rparr>"
  have g: "cl_Get (r_Client world_reconciler) ''a'' ?w = (Inr tombstone, ?w)"
    by (rule world_get) (simp add: mem_find_def tombstone_facts)
  have r: "r_Meta world_reconciler = listmeta" "sint (retentionOf world_reconciler) = 3600000000000"
    by (simp_all add: world_reconciler_def retentionOf_def)
  have n: "namespaceFor (o_Name tombstone) = Inr ''oub-a''" by (simp add: tombstone_facts namespaceFor_a)
  have f: "conditionTrue (r_Meta world_reconciler) tombstone ConditionForgotten" by (simp add: r tombstone_facts)
  show ?thesis
    using tombstone_retained[OF g n tombstone_facts(2) f tombstone_facts(4), of 200000000000] by (auto simp: r)
qed

definition live_oub :: Oubliette where
  "live_oub = (demo_oub ''a'')\<lparr>o_Finalizers := [Finalizer]\<rparr>"

lemma live_oub_facts:
  "o_Name live_oub = ''a''" "optIsZero (o_DeletionTimestamp live_oub)" "\<not> conditionTrue listmeta live_oub ConditionForgotten"
  "spec_ExpiresAt (o_Spec live_oub) = 300000000000" "ContainsFinalizer live_oub Finalizer" "st_ForgottenAt (o_Status live_oub) = None"
  by (simp_all add: live_oub_def demo_oub_def optIsZero_def conditionTrue_def listmeta_def zeroStatus_def ContainsFinalizer_def)

lemma live_pass_ok:
  assumes "w = emptyWorld\<lparr>w_objs := [live_oub]\<rparr>"
  shows "\<exists>res w'. Reconcile world_reconciler ''a'' 290000000000 w = ((res, None), w')"
proof -
  have g: "cl_Get (r_Client world_reconciler) ''a'' w = (Inr live_oub, w)"
    by (rule world_get) (simp add: assms mem_find_def live_oub_facts)
  obtain p where p: "profile_Resolve (spec_Tier (o_Spec live_oub)) = Inr p"
    by (simp add: profile_Resolve_def live_oub_def demo_oub_def)
  obtain w1 where b: "ensureBoundary (r_Cluster world_reconciler) (boundaryConfig world_reconciler) live_oub p ''oub-a'' w = (None, w1)"
      and w1: "w_objs w1 = [live_oub]"
    by (simp add: ensureBoundary_def ensureKueue_def boundaryObjects_def boundaryConfig_def world_reconciler_def worldcluster_def
        memcluster_def liftk_def mutateNamespace_def newObject_def setSpec_def keyOf_def emptySpec_def Let_def assms emptyWorld_def
        disabledMetrics_def)
  have m: "mem_find (w_objs w1) ''a'' = Some live_oub" by (simp add: w1 mem_find_def live_oub_facts)
  have r: "r_Meta world_reconciler = listmeta" "r_VCluster world_reconciler = steady_manager"
    "r_EvidenceExporter world_reconciler = Some (\<lambda>_ _ s. (None, s))" "r_MetricsProfile world_reconciler = disabledMetrics"
    by (simp_all add: world_reconciler_def)
  have nm: "o_Name (provisionedStatus world_reconciler p ns True live_oub) = ''a''" for ns
    by (simp add: provisionedStatus_def Let_def live_oub_facts)
  have "cl_StatusPatch (r_Client world_reconciler) x live_oub w1 =
      (Inr (mergeStatus x live_oub live_oub), w1\<lparr>w_objs := mem_put (mergeStatus x live_oub live_oub) (w_objs w1)\<rparr>)"
    if "o_Name x = ''a''" for x using that m by (simp add: world_reconciler_def worldclient_def liftw_def)
  then have "\<exists>res w'. publishStatus world_reconciler p live_oub ''oub-a'' True 290000000000 w1 = ((res, None), w')"
    using nm by (simp add: publishStatus_def projectMetricsStatus_def Let_def r disabledMetrics_def)
  then show ?thesis using g p b
    by (simp add: Reconcile_def reconcileObject_def live_oub_facts namespaceFor_a r provision_def runExport_def steady_manager_def)
qed

theorem expiry_noticed_witness:
  "\<exists>res w'. Reconcile world_reconciler ''a'' 290000000000 (emptyWorld\<lparr>w_objs := [live_oub]\<rparr>) = ((res, None), w') \<and>
     290000000000 + sint (res_RequeueAfter res) \<le> 300000000000"
proof -
  let ?w = "emptyWorld\<lparr>w_objs := [live_oub]\<rparr>"
  obtain res w' where ok: "Reconcile world_reconciler ''a'' 290000000000 ?w = ((res, None), w')" using live_pass_ok by blast
  have g: "cl_Get (r_Client world_reconciler) ''a'' ?w = (Inr live_oub, ?w)"
    by (rule world_get) (simp add: mem_find_def live_oub_facts)
  have n: "namespaceFor (o_Name live_oub) = Inr ''oub-a''" by (simp add: live_oub_facts namespaceFor_a)
  have f: "\<not> conditionTrue (r_Meta world_reconciler) live_oub ConditionForgotten" by (simp add: world_reconciler_def live_oub_facts)
  have e: "290000000000 < spec_ExpiresAt (o_Spec live_oub)" by (simp add: live_oub_facts)
  have H: "client_laws (r_Client world_reconciler) w_stored w_present" using worldclient_laws by (simp add: world_reconciler_def)
  from expiry_noticed[OF H world_host_laws g n live_oub_facts(2) f e live_oub_facts(5) ok] ok show ?thesis
    by (auto simp: live_oub_facts)
qed

text \<open>The in-memory host with any exporter that keeps the object and whose failures are numbered.\<close>

lemma world_teardown_env:
  assumes r: "r = world_reconciler\<lparr>r_EvidenceExporter := Some E\<rparr>"
    and objs: "\<And>w os. todo (w\<lparr>w_objs := os\<rparr>) = todo w"
    and removed: "\<And>w. w_present w ns \<Longrightarrow> todo (w\<lparr>w_kube := (w_kube w)((KNamespace, '''', ns) := None)\<rparr>) < todo w"
    and export: "\<And>obj w res w'. E obj ns w = (res, w') \<Longrightarrow>
      if res = None then stays (\<lambda>w. w_stored w name) todo w w' else setback (\<lambda>w. w_stored w name) todo w w'"
  shows "teardown_env r name ns (\<lambda>w. w_stored w name) todo"
  unfolding teardown_env_def
proof (intro conjI allI impI)
  show "cl_Get (r_Client r) name s = (Inr obj, s)" if "w_stored s name = Some obj" for s obj
    using that by (simp add: r world_reconciler_def worldclient_def liftw_def memclient_def w_stored_def)
next
  fix s s' :: world and x b y :: Oubliette and res
  assume y: "w_stored s name = Some y" and n: "o_Name x = name" and p: "cl_StatusPatch (r_Client r) x b s = (res, s')"
  have "o_Name y = name" using y by (simp add: w_stored_def mem_find_name)
  moreover have "status_applied (r_Meta r) x b y (mergeStatus x b y)"
    by (simp add: status_applied_def mergeStatus_def conditionTrue_def)
  ultimately show "case res of Inl e \<Rightarrow> setback (\<lambda>w. w_stored w name) todo s s'
      | Inr z \<Rightarrow> w_stored s' name = Some z \<and> todo s' \<le> todo s \<and> status_applied (r_Meta r) x b y z"
    using y n p by (auto simp: r world_reconciler_def worldclient_def liftw_def w_stored_def mem_find_put objs mergeStatus_def)
next
  fix s s' :: world and res assume g: "getNamespace (r_Cluster r) ns s = (res, s')"
  show "case res of
      Inl e \<Rightarrow> if IsNotFound e then stays (\<lambda>w. w_stored w name) todo s s' else setback (\<lambda>w. w_stored w name) todo s s'
    | Inr n \<Rightarrow> if optIsZero (n_DeletionTimestamp n)
        then \<forall>d s''. removeNamespace (r_Cluster r) n s' = (d, s'') \<longrightarrow> setback (\<lambda>w. w_stored w name) todo s s''
        else setback (\<lambda>w. w_stored w name) todo s s'"
    using g removed[of s] by (auto simp: r world_reconciler_def worldcluster_def memcluster_def liftk_def w_stored_def w_present_def optIsZero_def
        stays_def setback_def split: option.splits)
next
  fix F obj s res s' assume "r_EvidenceExporter r = Some F" and "F obj ns s = (res, s')"
  then have "E obj ns s = (res, s')" by (simp add: r)
  then show "if res = None then stays (\<lambda>w. w_stored w name) todo s s' else setback (\<lambda>w. w_stored w name) todo s s'" by (rule export)
qed (auto simp: r world_reconciler_def steady_manager_def stays_def)

lemma steady_teardown_env:
  "teardown_env world_reconciler name ns (\<lambda>w. w_stored w name) (\<lambda>w. if w_present w ns then 1 else 0)"
  by (rule world_teardown_env[where E = "\<lambda>_ _ s. (None, s)"]) (simp_all add: world_reconciler_def w_present_def stays_def)

text \<open>An exporter whose archive is out of reach once, and its host.\<close>

definition flaky_export :: "(world, unit) exporter" where
  "flaky_export obj ns w = (if w_present w ''outage'' then (Some (), w\<lparr>w_kube := (w_kube w)((KNamespace, '''', ''outage'') := None)\<rparr>) else (None, w))"

definition flaky_reconciler :: "(world, unit) Reconciler" where
  "flaky_reconciler = world_reconciler\<lparr>r_EvidenceExporter := Some flaky_export\<rparr>"

definition flaky_todo :: "world \<Rightarrow> nat" where
  "flaky_todo w = (if w_present w ''outage'' then 1 else 0) + (if w_present w ''oub-a'' then 1 else 0)"

lemma flaky_teardown_env: "teardown_env flaky_reconciler ''a'' ''oub-a'' (\<lambda>w. w_stored w ''a'') flaky_todo"
proof (rule world_teardown_env[OF flaky_reconciler_def])
  show "if res = None then stays (\<lambda>w. w_stored w ''a'') flaky_todo w w' else setback (\<lambda>w. w_stored w ''a'') flaky_todo w w'"
    if "flaky_export obj ''oub-a'' w = (res, w')" for obj w res w'
    using that by (auto simp: flaky_export_def flaky_todo_def stays_def setback_def w_present_def w_stored_def split: if_splits)
qed (simp_all add: flaky_todo_def w_present_def)

definition expiredWorld :: world where
  "expiredWorld = \<lparr>w_objs = [live_oub], w_kube = [(KNamespace, '''', ''oub-a'') \<mapsto> newObject '''' ''oub-a'' (NamespaceSpec None),
     (KNamespace, '''', ''outage'') \<mapsto> newObject '''' ''outage'' (NamespaceSpec None)]\<rparr>"

text \<open>The first pass fails at the export, the second removes the host namespace, the third finds it gone.\<close>

theorem teardown_completes_witness:
  "\<exists>k obj'. w_stored (passes flaky_reconciler ''a'' (take (Suc k) [300000000000, 302000000000, 304000000007]) expiredWorld) ''a'' = Some obj' \<and>
     conditionTrue listmeta obj' ConditionForgotten \<and>
     st_ForgottenAt (o_Status obj') = Some ([300000000000, 302000000000, 304000000007] ! k div 1000000000 * 1000000000)"
proof -
  let ?ts = "[300000000000, 302000000000, 304000000007] :: time list"
  have r: "r_Meta flaky_reconciler = listmeta" by (simp add: flaky_reconciler_def world_reconciler_def)
  have a: "condition_laws (r_Meta flaky_reconciler)" using listmeta_laws r by simp
  have st: "w_stored expiredWorld ''a'' = Some live_oub" by (simp add: w_stored_def expiredWorld_def mem_find_def live_oub_facts)
  have ex: "\<forall>t \<in> set ?ts. expiredLive (r_Meta flaky_reconciler) ''a'' live_oub t"
    by (simp add: expiredLive_def r live_oub_facts)
  have l: "flaky_todo expiredWorld < length ?ts" by (simp add: flaky_todo_def w_present_def expiredWorld_def)
  from teardown_completes[OF a flaky_teardown_env namespaceFor_a, of expiredWorld live_oub ?ts, OF st ex l]
  show ?thesis unfolding r by blast
qed

end
