(* ===== verification/ControlPlane.thy ===== *)
theory ControlPlane
  imports Controller Lifecycle
begin

text \<open>
  The control plane as a whole: passes of the controller and calls of the lifecycle service, by any
  callers and at any times, interleaved with each other and with the host, on one API server. A pass
  and a service call each run as one atomic step, with reads that see the stored objects. This is an assumption of
  the model: the status patches of a pass carry no resource version and the manager's client reads
  through a cache, so calls interleaved within a pass, and stale reads, are not covered.
\<close>

section \<open>Steps\<close>

text \<open>The part of the API the service uses beside \<open>client_laws\<close>: a creation stores a new object with an empty status or nothing, and
  listing reads.\<close>

definition create_laws :: "'s oub_client \<Rightarrow> ('s \<Rightarrow> string \<Rightarrow> Oubliette option) \<Rightarrow> ('s \<Rightarrow> string \<Rightarrow> bool) \<Rightarrow> bool" where
  "create_laws C objs present \<longleftrightarrow>
     (\<forall>x s res s'. cl_Create C x s = (res, s') \<longrightarrow> present s' = present s \<and>
        (objs s' = objs s \<or> (\<exists>x'. objs s (o_Name x) = None \<and> objs s' = (objs s)(o_Name x \<mapsto> x') \<and> o_Status x' = zeroStatus))) \<and>
     (\<forall>s res s'. cl_List C s = (res, s') \<longrightarrow> quiet objs present s s')"

inductive system_step ::
  "('s, 'x) Reconciler \<Rightarrow> ('s \<Rightarrow> string \<Rightarrow> Oubliette option) \<Rightarrow> ('s \<Rightarrow> string \<Rightarrow> bool) \<Rightarrow> 's \<Rightarrow> 's \<Rightarrow> bool"
  for r objs present where
  step_reconcile: "Reconcile r name now s = (res, s') \<Longrightarrow> system_step r objs present s s'"
| step_create: "Create (r_Meta r) (r_Client r) now ctx ci s = (v, s') \<Longrightarrow> system_step r objs present s s'"
| step_get: "Get (r_Meta r) (r_Client r) ctx name s = (v, s') \<Longrightarrow> system_step r objs present s s'"
| step_list: "Service_List (r_Meta r) (r_Client r) ctx s = (vs, s') \<Longrightarrow> system_step r objs present s s'"
| step_renew: "Renew (r_Meta r) (r_Client r) now ctx ri s = (v, s') \<Longrightarrow> system_step r objs present s s'"
| step_delete: "Delete (r_Client r) ctx name s = (u, s') \<Longrightarrow> system_step r objs present s s'"
| step_host: "quiet objs present s s' \<Longrightarrow> system_step r objs present s s'"

inductive reachable ::
  "('s, 'x) Reconciler \<Rightarrow> ('s \<Rightarrow> string \<Rightarrow> Oubliette option) \<Rightarrow> ('s \<Rightarrow> string \<Rightarrow> bool) \<Rightarrow> 's \<Rightarrow> bool"
  for r objs present where
  reach_init: "(\<And>n obj. objs s n = Some obj \<Longrightarrow> \<not> conditionTrue (r_Meta r) obj ConditionForgotten) \<Longrightarrow> reachable r objs present s"
| reach_step: "reachable r objs present s \<Longrightarrow> system_step r objs present s s' \<Longrightarrow> reachable r objs present s'"

inductive_cases system_stepE: "system_step r objs present s s'"

section \<open>The invariant\<close>

lemma create_keeps:
  assumes am: "condition_laws am" and C: "client_laws C objs present" and N: "create_laws C objs present"
    and inv: "forgotten_gone am objs present s" and call: "Create am C now ctx ci s = (v, s')"
  shows "forgotten_gone am objs present s'"
proof -
  have create: "forgotten_gone am objs present s1" if c: "cl_Create C x s = (y, s1)" for x y s1
  proof -
    from N c have p: "present s1 = present s" and o: "objs s1 = objs s \<or> (\<exists>x'. objs s (o_Name x) = None \<and>
        objs s1 = (objs s)(o_Name x \<mapsto> x') \<and> o_Status x' = zeroStatus)" unfolding create_laws_def by blast+
    have z: "o_Status x' = zeroStatus \<Longrightarrow> \<not> conditionTrue am x' ConditionForgotten" for x'
      by (simp add: conditionTrue_def zeroStatus_def find_condition_Nil[OF am])
    show ?thesis using inv o z unfolding forgotten_gone_def p by (auto split: if_splits)
  qed
  have get: "forgotten_gone am objs present s2" if "forgotten_gone am objs present s1" "cl_Get C n s1 = (z, s2)" for n s1 z s2
    using forgotten_gone_quiet[OF that(1)] client_lawsD(2)[OF C that(2)] by blast
  show ?thesis using call inv
    by (auto simp: Create_def Let_def split: sum.splits option.splits prod.splits if_splits dest: create get[OF create])
qed

lemma read_keeps:
  assumes C: "client_laws C objs present" and N: "create_laws C objs present" and inv: "forgotten_gone am objs present s"
  shows "Get am C ctx name s = (v, s') \<Longrightarrow> forgotten_gone am objs present s'"
    and "Service_List am C ctx s = (vs, s') \<Longrightarrow> forgotten_gone am objs present s'"
proof -
  have get: "forgotten_gone am objs present s1" if "cl_Get C n s = (z, s1)" for n z s1
    using forgotten_gone_quiet[OF inv] client_lawsD(2)[OF C that] by blast
  show "Get am C ctx name s = (v, s') \<Longrightarrow> forgotten_gone am objs present s'"
    using inv by (auto simp: Get_def split: sum.splits option.splits prod.splits if_splits dest: get)
  have "forgotten_gone am objs present s1" if "cl_List C s = (z, s1)" for z s1
    using forgotten_gone_quiet[OF inv] N that unfolding create_laws_def by blast
  then show "Service_List am C ctx s = (vs, s') \<Longrightarrow> forgotten_gone am objs present s'"
    using inv by (auto simp: Service_List_def split: sum.splits prod.splits)
qed

lemma write_keeps:
  assumes C: "client_laws C objs present" and inv: "forgotten_gone am objs present s"
  shows "Renew am C now ctx ri s = (v, s') \<Longrightarrow> forgotten_gone am objs present s'"
    and "Delete C ctx name s = (u, s') \<Longrightarrow> forgotten_gone am objs present s'"
proof -
  have get: "forgotten_gone am objs present s1" if "cl_Get C n s = (z, s1)" for n z s1
    using forgotten_gone_quiet[OF inv] client_lawsD(2)[OF C that] by blast
  have update: "forgotten_gone am objs present s2" if "cl_Get C n s = (z, s1)" "cl_Update C x s1 = (y, s2)" for n z s1 x y s2
    using forgotten_gone_write[OF get[OF that(1)] client_lawsD(3)[OF C that(2)]] .
  have delete: "forgotten_gone am objs present s2" if "cl_Get C n s = (z, s1)" "cl_Delete C x s1 = (y, s2)" for n z s1 x y s2
    using forgotten_gone_write[OF get[OF that(1)] client_lawsD(4)[OF C that(2)]] .
  show "Renew am C now ctx ri s = (v, s') \<Longrightarrow> forgotten_gone am objs present s'"
    using inv by (auto simp: Renew_def Let_def split: sum.splits option.splits prod.splits if_splits dest: get update)
  show "Delete C ctx name s = (u, s') \<Longrightarrow> forgotten_gone am objs present s'"
    using inv by (auto simp: Delete_def split: sum.splits option.splits prod.splits if_splits dest: get delete)
qed

lemma system_step_keeps:
  assumes am: "condition_laws (r_Meta r)" and C: "client_laws (r_Client r) objs present" and N: "create_laws (r_Client r) objs present"
    and H: "host_laws r objs present" and inv: "forgotten_gone (r_Meta r) objs present s" and step: "system_step r objs present s s'"
  shows "forgotten_gone (r_Meta r) objs present s'"
  using step
proof cases
  case step_reconcile
  then show ?thesis by (rule reconcile_keeps[OF am C H inv])
next
  case step_create
  then show ?thesis by (rule create_keeps[OF am C N inv])
next
  case step_get
  then show ?thesis by (rule read_keeps(1)[OF C N inv])
next
  case step_list
  then show ?thesis by (rule read_keeps(2)[OF C N inv])
next
  case step_renew
  then show ?thesis by (rule write_keeps(1)[OF C inv])
next
  case step_delete
  then show ?thesis by (rule write_keeps(2)[OF C inv])
next
  case step_host
  then show ?thesis by (rule forgotten_gone_quiet[OF inv])
qed

text \<open>C6: in every state that passes of the controller, calls of the lifecycle service and the host can reach, in any
  interleaving and with any failures, an Oubliette whose status says it is forgotten has no host namespace.\<close>

theorem forgotten_means_gone:
  assumes am: "condition_laws (r_Meta r)" and C: "client_laws (r_Client r) objs present" and N: "create_laws (r_Client r) objs present"
    and H: "host_laws r objs present" and reach: "reachable r objs present s"
    and obj: "objs s n = Some obj" "conditionTrue (r_Meta r) obj ConditionForgotten" "namespaceFor n = Inr ns"
  shows "\<not> present s ns"
proof -
  from reach have "forgotten_gone (r_Meta r) objs present s"
  proof induction
    case (reach_init s)
    then show ?case unfolding forgotten_gone_def by blast
  next
    case (reach_step s s')
    then show ?case by (blast intro: system_step_keeps[OF am C N H])
  qed
  with obj show ?thesis unfolding forgotten_gone_def by blast
qed

lemma world_create_laws: "create_laws worldclient w_stored w_present"
  unfolding create_laws_def
  by (auto simp: worldclient_def memclient_def liftw_def w_stored_def w_present_def quiet_def mem_find_put Let_def
      split: option.splits)

theorem forgotten_means_gone_witness:
  "\<exists>w obj. reachable world_reconciler w_stored w_present w \<and> w_stored w ''a'' = Some obj \<and>
     conditionTrue listmeta obj ConditionForgotten \<and> \<not> w_present w ''oub-a''"
proof -
  let ?w = "emptyWorld\<lparr>w_objs := [live_oub]\<rparr>" and ?r = "world_reconciler"
  have m: "r_Meta ?r = listmeta" "r_Client ?r = worldclient" by (simp_all add: world_reconciler_def)
  have init: "reachable ?r w_stored w_present ?w"
    by (rule reach_init) (auto simp: w_stored_def mem_find_def m live_oub_facts split: if_splits)
  have am: "condition_laws (r_Meta ?r)" and C: "client_laws (r_Client ?r) w_stored w_present" and N: "create_laws (r_Client ?r) w_stored w_present"
    using listmeta_laws worldclient_laws world_create_laws m by simp_all
  have st: "w_stored ?w ''a'' = Some live_oub" by (simp add: w_stored_def mem_find_def live_oub_facts)
  have ex: "expiredLive (r_Meta ?r) ''a'' live_oub 300000000000" by (simp add: expiredLive_def m live_oub_facts)
  have l: "(if w_present ?w ''oub-a'' then 1 else 0) = (0 :: nat)" by (simp add: w_present_def emptyWorld_def)
  obtain res w' where p: "Reconcile ?r ''a'' 300000000000 ?w = (res, w')" by (metis surj_pair)
  note last_pass = teardown_last[OF am steady_teardown_env namespaceFor_a]
  from last_pass[OF st ex l, unfolded p snd_conv] obtain obj' where
    o: "w_stored w' ''a'' = Some obj'" "conditionTrue (r_Meta ?r) obj' ConditionForgotten" unfolding recordedForgotten_def by blast
  have re: "reachable ?r w_stored w_present w'" using reach_step[OF init step_reconcile[OF p]] .
  from forgotten_means_gone[OF am C N world_host_laws re o namespaceFor_a] re o show ?thesis by (auto simp: m)
qed

section \<open>A failed pass is reported\<close>









lemma provisionedStatus_name [simp]: "o_Name (provisionedStatus r p namespace ready obj) = o_Name obj"
  by (simp add: provisionedStatus_def Let_def)







end
