(* ===== verification/Observability.thy ===== *)
theory Observability
  imports Json MetricsGateway "HOL-Library.Multiset"
begin

text \<open>
  Scrape-target coverage, \<open>internal/observability/targets.go\<close> and \<open>prometheus.go\<close>: a validator that compares the targets
  Prometheus discovered for an Oubliette with the expected ones, and the reader of Prometheus' active-target API in front of it.
  The URL parser and the HTTP client are parameters; the JSON answer is decoded as \<open>encoding/json\<close> does it.
\<close>

section \<open>Targets\<close>

definition LabelOubliette :: string where "LabelOubliette = ''oubliette_id''"
definition LabelProfileGeneration :: string where "LabelProfileGeneration = ''oubliette_profile_generation''"
definition LabelRole :: string where "LabelRole = ''oubliette_role''"
definition LabelPodUID :: string where "LabelPodUID = ''oubliette_pod_uid''"
definition LabelEndpoint :: string where "LabelEndpoint = ''oubliette_endpoint''"
definition LabelNode :: string where "LabelNode = ''oubliette_node''"

lemmas target_labels = LabelOubliette_def LabelProfileGeneration_def LabelRole_def LabelPodUID_def LabelEndpoint_def LabelNode_def

record Target =
  tg_Role :: string
  tg_PodUID :: string
  tg_Endpoint :: string
  tg_Node :: string

record DiscoveredTarget =
  dt_Health :: string
  dt_Labels :: smap

record TargetSet =
  ts_Oubliette :: string
  ts_ProfileGeneration :: string
  ts_Expected :: "Target list"

datatype coverage_err =
    IdentityIncomplete
  | TargetDuplicated string
  | UnexpectedAttribution
  | UnexpectedTarget string
  | TargetNotUnique string
  | TargetUnhealthy string
  | UntrustedAttribution string
  | TargetsMissing string
  | TargetURLInvalid
  | TargetRequestInvalid
  | TargetReadFailed string
  | TargetStatus int
  | TargetResponseTooLarge
  | TargetResponseInvalid

definition targetKey :: "string \<Rightarrow> string \<Rightarrow> string" where
  "targetKey podUID endpoint = (if podUID = '''' \<or> endpoint = '''' then ''<incomplete>'' else podUID @ ''/'' @ endpoint)"

text \<open>The expected targets by their keys, in the order they were entered.\<close>

fun wantTargets :: "Target list \<Rightarrow> (string \<times> Target) list \<Rightarrow> coverage_err + (string \<times> Target) list" where
  "wantTargets [] want = Inr want"
| "wantTargets (t # ts) want =
     (if tg_Role t = '''' \<or> tg_PodUID t = '''' \<or> tg_Endpoint t = '''' \<or> tg_Node t = '''' then Inl IdentityIncomplete
      else let key = targetKey (tg_PodUID t) (tg_Endpoint t) in
      if map_of want key \<noteq> None then Inl (TargetDuplicated key) else wantTargets ts (want @ [(key, t)]))"

definition discoveredKey :: "DiscoveredTarget \<Rightarrow> string" where
  "discoveredKey d = targetKey (mapGet (dt_Labels d) LabelPodUID) (mapGet (dt_Labels d) LabelEndpoint)"

fun seeTargets :: "TargetSet \<Rightarrow> (string \<times> Target) list \<Rightarrow> DiscoveredTarget list \<Rightarrow> string list \<Rightarrow> coverage_err + string list" where
  "seeTargets ts want [] seen = Inr seen"
| "seeTargets ts want (d # ds) seen =
     (let labels = dt_Labels d; key = discoveredKey d in
      if mapGet labels LabelOubliette \<noteq> ts_Oubliette ts \<or> mapGet labels LabelProfileGeneration \<noteq> ts_ProfileGeneration ts
      then Inl UnexpectedAttribution
      else (case map_of want key of
        None \<Rightarrow> Inl (UnexpectedTarget key)
      | Some expected \<Rightarrow>
          if key \<in> set seen then Inl (TargetNotUnique key)
          else if dt_Health d \<noteq> ''up'' then Inl (TargetUnhealthy key)
          else if mapGet labels LabelRole \<noteq> tg_Role expected \<or> mapGet labels LabelNode \<noteq> tg_Node expected
          then Inl (UntrustedAttribution key)
          else seeTargets ts want ds (seen @ [key])))"

definition ValidateTargetCoverage :: "TargetSet \<Rightarrow> DiscoveredTarget list \<Rightarrow> coverage_err option" where
  "ValidateTargetCoverage ts discovered =
     (if ts_Oubliette ts = '''' \<or> ts_ProfileGeneration ts = '''' \<or> length (ts_Expected ts) = 0 then Some IdentityIncomplete
      else (case wantTargets (ts_Expected ts) [] of
        Inl e \<Rightarrow> Some e
      | Inr want \<Rightarrow>
          (case seeTargets ts want discovered [] of
             Inl e \<Rightarrow> Some e
           | Inr seen \<Rightarrow>
               if length seen \<noteq> length want
               then Some (TargetsMissing (Join (sort (filter (\<lambda>k. k \<notin> set seen) (map fst want))) '', ''))
               else None)))"

section \<open>The active-target API\<close>

record target_url =
  tu_Scheme :: string
  tu_Host :: string
  tu_Path :: string
  tu_Query :: url_values

record target_request =
  tr_URL :: target_url
  tr_Authorization :: string

record target_response =
  tp_StatusCode :: int
  tp_Body :: string
  tp_ReadFails :: bool

text \<open>\<open>hl_Parse\<close> is \<open>url.Parse\<close> with \<open>Query\<close>, \<open>hl_NewRequest\<close> says whether the request can be made from the URL, \<open>hl_Default\<close> is
  the client with the ten second timeout that the code makes when it has none.\<close>

record 'w targetlib =
  hl_Parse :: "string \<Rightarrow> target_url option"
  hl_NewRequest :: "target_url \<Rightarrow> bool"
  hl_Default :: "target_request \<Rightarrow> 'w \<Rightarrow> (string + target_response) \<times> 'w"

record 'w PrometheusTargetAPI =
  pt_BaseURL :: string
  pt_Authorization :: string
  pt_Client :: "(target_request \<Rightarrow> 'w \<Rightarrow> (string + target_response) \<times> 'w) option"
  pt_MaxBytes :: int64

text \<open>
  The answer decoded by \<open>encoding/json\<close>. A later array for the same field is decoded over the elements of the earlier one: the
  slots keep what they held, and the length is that of the last array. \<open>null\<close> and the empty array start afresh.
\<close>

record scrape =
  sc_Labels :: smap
  sc_Health :: string

record scrape_list =
  sl_slots :: "scrape list"
  sl_len :: nat

record targets_payload =
  pl_Status :: string
  pl_Data :: scrape_list

fun setLabel :: "string \<times> json \<Rightarrow> smap \<Rightarrow> smap option" where
  "setLabel (k, JStr s) m = Some (m(k \<mapsto> s))"
| "setLabel (k, JNull) m = Some (m(k \<mapsto> ''''))"
| "setLabel (k, _) m = None"

fun setLabels :: "json \<Rightarrow> smap \<Rightarrow> smap option" where
  "setLabels (JObj ms) m = setMembers setLabel ms m"
| "setLabels JNull m = Some (\<lambda>_. None)"
| "setLabels _ m = None"

definition setScrapeField :: "string \<times> json \<Rightarrow> scrape \<Rightarrow> scrape option" where
  "setScrapeField m x =
     (if field_is ''labels'' (fst m) then map_option (\<lambda>l. x\<lparr>sc_Labels := l\<rparr>) (setLabels (snd m) (sc_Labels x))
      else if field_is ''health'' (fst m) then map_option (\<lambda>h. x\<lparr>sc_Health := h\<rparr>) (set_string (snd m) (sc_Health x))
      else Some x)"

fun setScrape :: "json \<Rightarrow> scrape \<Rightarrow> scrape option" where
  "setScrape (JObj ms) x = setMembers setScrapeField ms x"
| "setScrape JNull x = Some x"
| "setScrape _ x = None"

definition zeroScrape :: scrape where "zeroScrape = \<lparr>sc_Labels = (\<lambda>_. None), sc_Health = ''''\<rparr>"

fun setSlots :: "json list \<Rightarrow> scrape list \<Rightarrow> scrape list option" where
  "setSlots [] slots = Some slots"
| "setSlots (v # vs) [] = (case setScrape v zeroScrape of None \<Rightarrow> None | Some x \<Rightarrow> map_option ((#) x) (setSlots vs []))"
| "setSlots (v # vs) (y # ys) = (case setScrape v y of None \<Rightarrow> None | Some x \<Rightarrow> map_option ((#) x) (setSlots vs ys))"

fun setTargets :: "json \<Rightarrow> scrape_list \<Rightarrow> scrape_list option" where
  "setTargets (JArr vs) l =
     (if vs = [] then Some \<lparr>sl_slots = [], sl_len = 0\<rparr>
      else map_option (\<lambda>slots. \<lparr>sl_slots = slots, sl_len = length vs\<rparr>) (setSlots vs (sl_slots l)))"
| "setTargets JNull l = Some \<lparr>sl_slots = [], sl_len = 0\<rparr>"
| "setTargets _ l = None"

definition setDataField :: "string \<times> json \<Rightarrow> scrape_list \<Rightarrow> scrape_list option" where
  "setDataField m l = (if field_is ''activeTargets'' (fst m) then setTargets (snd m) l else Some l)"

fun setData :: "json \<Rightarrow> scrape_list \<Rightarrow> scrape_list option" where
  "setData (JObj ms) l = setMembers setDataField ms l"
| "setData JNull l = Some l"
| "setData _ l = None"

definition setPayloadField :: "string \<times> json \<Rightarrow> targets_payload \<Rightarrow> targets_payload option" where
  "setPayloadField m p =
     (if field_is ''status'' (fst m) then map_option (\<lambda>s. p\<lparr>pl_Status := s\<rparr>) (set_string (snd m) (pl_Status p))
      else if field_is ''data'' (fst m) then map_option (\<lambda>l. p\<lparr>pl_Data := l\<rparr>) (setData (snd m) (pl_Data p))
      else Some p)"

definition decodeTargets :: "string \<Rightarrow> targets_payload option" where
  "decodeTargets body =
     (let zero = \<lparr>pl_Status = '''', pl_Data = \<lparr>sl_slots = [], sl_len = 0\<rparr>\<rparr> in
      case unmarshal body of
        Some (JObj ms) \<Rightarrow> setMembers setPayloadField ms zero
      | Some JNull \<Rightarrow> Some zero
      | _ \<Rightarrow> None)"

definition activeTargets :: "targets_payload \<Rightarrow> scrape list" where
  "activeTargets p = take (sl_len (pl_Data p)) (sl_slots (pl_Data p))"

definition ownTargets :: "string \<Rightarrow> scrape list \<Rightarrow> DiscoveredTarget list" where
  "ownTargets oub xs = map (\<lambda>x. \<lparr>dt_Health = sc_Health x, dt_Labels = sc_Labels x\<rparr>) (filter (\<lambda>x. mapGet (sc_Labels x) LabelOubliette = oub) xs)"

definition readTargets :: "int64 \<Rightarrow> target_response \<Rightarrow> coverage_err + targets_payload" where
  "readTargets maxBytes response =
     (if tp_StatusCode response < 200 \<or> tp_StatusCode response \<ge> 300 then Inl (TargetStatus (tp_StatusCode response))
      else let limit = (if sint maxBytes \<le> 0 then 4194304 else maxBytes);
               body = take (nat (sint (limit + 1))) (tp_Body response) in
      if tp_ReadFails response \<or> int (length body) > sint limit then Inl TargetResponseTooLarge
      else (case decodeTargets body of
        None \<Rightarrow> Inl TargetResponseInvalid
      | Some payload \<Rightarrow> if pl_Status payload \<noteq> ''success'' then Inl TargetResponseInvalid else Inr payload))"

definition targetsRequest :: "string \<Rightarrow> target_url \<Rightarrow> target_request" where
  "targetsRequest authorization endpoint =
     \<lparr>tr_URL = endpoint\<lparr>tu_Path := rev (dropWhile (\<lambda>c. c = CHR ''/'') (rev (tu_Path endpoint))) @ ''/api/v1/targets'',
        tu_Query := values_Set (tu_Query endpoint) ''state'' ''active''\<rparr>, tr_Authorization = authorization\<rparr>"

definition ValidateCoverage :: "'w targetlib \<Rightarrow> 'w PrometheusTargetAPI \<Rightarrow> TargetSet \<Rightarrow> 'w \<Rightarrow> coverage_err option \<times> 'w" where
  "ValidateCoverage H p ts w =
     (case hl_Parse H (pt_BaseURL p) of
        None \<Rightarrow> (Some TargetURLInvalid, w)
      | Some endpoint \<Rightarrow>
          if (tu_Scheme endpoint \<noteq> ''http'' \<and> tu_Scheme endpoint \<noteq> ''https'') \<or> tu_Host endpoint = '''' then (Some TargetURLInvalid, w)
          else let request = targetsRequest (pt_Authorization p) endpoint in
          if \<not> hl_NewRequest H (tr_URL request) then (Some TargetRequestInvalid, w)
          else (case (case pt_Client p of None \<Rightarrow> hl_Default H | Some client \<Rightarrow> client) request w of
             (Inl e, w1) \<Rightarrow> (Some (TargetReadFailed e), w1)
           | (Inr response, w1) \<Rightarrow>
               (case readTargets (pt_MaxBytes p) response of
                  Inl e \<Rightarrow> (Some e, w1)
                | Inr payload \<Rightarrow> (ValidateTargetCoverage ts (ownTargets (ts_Oubliette ts) (activeTargets payload)), w1))))"

section \<open>Coverage is exact\<close>

definition completeTarget :: "Target \<Rightarrow> bool" where
  "completeTarget t \<longleftrightarrow> tg_Role t \<noteq> '''' \<and> tg_PodUID t \<noteq> '''' \<and> tg_Endpoint t \<noteq> '''' \<and> tg_Node t \<noteq> ''''"

definition expectedKey :: "Target \<Rightarrow> string" where
  "expectedKey t = targetKey (tg_PodUID t) (tg_Endpoint t)"

definition attributed :: "TargetSet \<Rightarrow> DiscoveredTarget \<Rightarrow> bool" where
  "attributed ts d \<longleftrightarrow> mapGet (dt_Labels d) LabelOubliette = ts_Oubliette ts \<and>
     mapGet (dt_Labels d) LabelProfileGeneration = ts_ProfileGeneration ts \<and> dt_Health d = ''up''"

lemma wantTargets_Inr:
  "distinct (map fst want) \<Longrightarrow> wantTargets ts want = Inr w \<longleftrightarrow>
     (\<forall>t \<in> set ts. completeTarget t) \<and> distinct (map fst want @ map expectedKey ts) \<and> w = want @ map (\<lambda>t. (expectedKey t, t)) ts"
proof (induction ts arbitrary: want)
  case (Cons t ts)
  show ?case
  proof (cases "completeTarget t \<and> expectedKey t \<notin> set (map fst want)")
    case True
    then have "wantTargets (t # ts) want = wantTargets ts (want @ [(expectedKey t, t)])"
      by (auto simp: completeTarget_def expectedKey_def Let_def map_of_eq_None_iff)
    moreover have "distinct (map fst (want @ [(expectedKey t, t)]))" using Cons.prems True by auto
    ultimately show ?thesis using Cons.IH True by auto
  next
    case False
    then show ?thesis by (auto simp: completeTarget_def expectedKey_def Let_def map_of_eq_None_iff)
  qed
qed auto

lemma seeTargets_Inr:
  "seeTargets ts want ds seen = Inr s \<longleftrightarrow>
     (\<forall>d \<in> set ds. attributed ts d \<and> (\<exists>t. map_of want (discoveredKey d) = Some t \<and>
        mapGet (dt_Labels d) LabelRole = tg_Role t \<and> mapGet (dt_Labels d) LabelNode = tg_Node t)) \<and>
     (distinct seen \<longrightarrow> distinct (seen @ map discoveredKey ds)) \<and> set seen \<inter> discoveredKey ` set ds = {} \<and>
     distinct (map discoveredKey ds) \<and> s = seen @ map discoveredKey ds"
proof (induction ds arbitrary: seen)
  case (Cons d ds)
  show ?case
    by (auto simp: Let_def attributed_def Cons.IH split: option.splits)
qed auto

text \<open>The reference: the expected targets are complete, no two name the same endpoint, and the discovered ones are, up to order, exactly
  they, each up and attributed to the Oubliette and the profile generation.\<close>

definition covered :: "TargetSet \<Rightarrow> DiscoveredTarget list \<Rightarrow> bool" where
  "covered ts ds \<longleftrightarrow> ts_Oubliette ts \<noteq> '''' \<and> ts_ProfileGeneration ts \<noteq> '''' \<and> ts_Expected ts \<noteq> [] \<and>
     (\<forall>t \<in> set (ts_Expected ts). completeTarget t) \<and> distinct (map (\<lambda>t. (tg_PodUID t, tg_Endpoint t)) (ts_Expected ts)) \<and>
     (\<forall>d \<in> set ds. attributed ts d) \<and>
     mset (map (\<lambda>d. (mapGet (dt_Labels d) LabelPodUID, mapGet (dt_Labels d) LabelEndpoint, mapGet (dt_Labels d) LabelRole, mapGet (dt_Labels d) LabelNode)) ds) =
     mset (map (\<lambda>t. (tg_PodUID t, tg_Endpoint t, tg_Role t, tg_Node t)) (ts_Expected ts))"

text \<open>Keys tell endpoints apart when no pod UID has a slash in it.\<close>

lemma append_slash_inject: "CHR ''/'' \<notin> set p \<Longrightarrow> CHR ''/'' \<notin> set q \<Longrightarrow> p @ CHR ''/'' # e = q @ CHR ''/'' # f \<Longrightarrow> p = q \<and> e = f"
proof (induction p arbitrary: q)
  case Nil
  then show ?case by (cases q) auto
next
  case (Cons c p)
  then show ?case by (cases q) auto
qed

lemma targetKey_inject:
  assumes p: "CHR ''/'' \<notin> set p" and q: "CHR ''/'' \<notin> set q" and "p \<noteq> ''''" and "e \<noteq> ''''"
  shows "targetKey q f = targetKey p e \<longleftrightarrow> q = p \<and> f = e"
proof (cases "q = '''' \<or> f = ''''")
  case True
  have "CHR ''/'' \<in> set (targetKey p e)" using assms by (simp add: targetKey_def)
  moreover have "CHR ''/'' \<notin> set ''<incomplete>''" by simp
  ultimately have "targetKey q f \<noteq> targetKey p e" using True by (metis targetKey_def)
  with True assms show ?thesis by blast
next
  case False
  with assms append_slash_inject[OF q p, of f e] show ?thesis by (auto simp: targetKey_def)
qed

text \<open>The validator and the reference agree on the keys.\<close>

lemma coverage_keys:
  "ValidateTargetCoverage ts ds = None \<longleftrightarrow> ts_Oubliette ts \<noteq> '''' \<and> ts_ProfileGeneration ts \<noteq> '''' \<and> ts_Expected ts \<noteq> [] \<and>
     (\<forall>t \<in> set (ts_Expected ts). completeTarget t) \<and> distinct (map expectedKey (ts_Expected ts)) \<and> (\<forall>d \<in> set ds. attributed ts d) \<and>
     mset (map (\<lambda>d. (discoveredKey d, mapGet (dt_Labels d) LabelRole, mapGet (dt_Labels d) LabelNode)) ds) =
     mset (map (\<lambda>t. (expectedKey t, tg_Role t, tg_Node t)) (ts_Expected ts))"
  (is "?l \<longleftrightarrow> ?p1 \<and> ?p2 \<and> ?p3 \<and> ?complete \<and> ?distinct \<and> ?attr \<and> mset (map ?dv ds) = mset (map ?tv ?ex)")
proof (cases "?p1 \<and> ?p2 \<and> ?p3 \<and> ?complete \<and> ?distinct")
  case False
  then show ?thesis
    using wantTargets_Inr[of "[]" ?ex] by (auto simp: ValidateTargetCoverage_def split: sum.splits)
next
  case True
  define want where "want = map (\<lambda>t. (expectedKey t, t)) ?ex"
  have keys: "map fst want = map expectedKey ?ex" by (simp add: want_def o_def)
  have w: "wantTargets ?ex [] = Inr want" using True wantTargets_Inr[of "[]" ?ex] by (simp add: want_def)
  have dist: "distinct (map fst want)" using True keys by simp
  have mem: "map_of want k = Some t \<longleftrightarrow> t \<in> set ?ex \<and> k = expectedKey t" for k t
    using map_of_eq_Some_iff[OF dist] by (auto simp: want_def)
  define good where "good d \<longleftrightarrow> (\<exists>t \<in> set ?ex. ?dv d = ?tv t)" for d
  have see: "seeTargets ts want ds [] = Inr s \<longleftrightarrow> (\<forall>d \<in> set ds. attributed ts d \<and> good d) \<and> distinct (map discoveredKey ds) \<and> s = map discoveredKey ds" for s
    unfolding seeTargets_Inr good_def by (auto simp: mem)
  have "?l \<longleftrightarrow> (\<forall>d \<in> set ds. attributed ts d \<and> good d) \<and> distinct (map discoveredKey ds) \<and> length ds = length ?ex"
  proof -
    have "length want = length ?ex" by (simp add: want_def)
    with True w have "?l \<longleftrightarrow> (\<exists>s. seeTargets ts want ds [] = Inr s \<and> length s = length ?ex)"
      by (auto simp: ValidateTargetCoverage_def split: sum.splits)
    then show ?thesis unfolding see by auto
  qed
  also have "\<dots> \<longleftrightarrow> ?attr \<and> mset (map ?dv ds) = mset (map ?tv ?ex)"
  proof (intro iffI conjI; elim conjE)
    assume a: "\<forall>d \<in> set ds. attributed ts d \<and> good d" "distinct (map discoveredKey ds)" "length ds = length ?ex"
    have sub: "set (map ?dv ds) \<subseteq> set (map ?tv ?ex)" using a(1) by (auto simp: good_def)
    have d1: "distinct (map ?dv ds)" using a(2) by (auto simp: distinct_map inj_on_def)
    have d2: "distinct (map ?tv ?ex)" using True by (auto simp: distinct_map inj_on_def)
    have "card (set (map ?dv ds)) = card (set (map ?tv ?ex))" unfolding distinct_card[OF d1] distinct_card[OF d2] by (simp add: a(3))
    then have "set (map ?dv ds) = set (map ?tv ?ex)" by (rule card_subset_eq[OF List.finite_set sub])
    with d1 d2 show "mset (map ?dv ds) = mset (map ?tv ?ex)" using set_eq_iff_mset_eq_distinct by blast
  next
    assume m: "?attr" "mset (map ?dv ds) = mset (map ?tv ?ex)"
    have "mset (map fst (map ?dv ds)) = mset (map fst (map ?tv ?ex))" unfolding mset_map[of fst] m(2) ..
    then have "mset (map discoveredKey ds) = mset (map expectedKey ?ex)" by (simp add: o_def)
    then show "distinct (map discoveredKey ds)" using True mset_eq_imp_distinct_iff by blast
    show "length ds = length ?ex" using mset_eq_length[OF m(2)] by simp
    show "\<forall>d \<in> set ds. attributed ts d \<and> good d"
    proof
      fix d assume d: "d \<in> set ds"
      then have "?dv d \<in> set (map ?tv ?ex)" by (subst mset_eq_setD[OF m(2), symmetric]) simp
      then show "attributed ts d \<and> good d" using m(1) d by (simp add: good_def image_iff)
    qed
  qed auto
  finally show ?thesis using True by blast
qed

lemma mset_map_inject:
  assumes "\<And>x y. x \<in> set xs \<Longrightarrow> y \<in> set ys \<Longrightarrow> f x = f y \<Longrightarrow> x = y"
  shows "mset (map f xs) = mset (map f ys) \<longleftrightarrow> mset xs = mset ys"
  using assms
proof (induction xs arbitrary: ys)
  case (Cons x xs)
  show ?case
  proof
    assume eq: "mset (map f (x # xs)) = mset (map f ys)"
    then have "f x \<in> set (map f ys)" using mset_eq_setD[OF eq] by auto
    then obtain y where y: "y \<in> set ys" "f x = f y" by auto
    with Cons.prems have x: "x \<in> set ys" by (metis list.set_intros(1))
    then have m: "mset ys = add_mset x (mset (remove1 x ys))" by simp
    have "add_mset (f x) (mset (map f xs)) = image_mset f (mset ys)" using eq by simp
    also have "\<dots> = add_mset (f x) (mset (map f (remove1 x ys)))" unfolding m by (simp only: image_mset_add_mset mset_map)
    finally have "mset (map f xs) = mset (map f (remove1 x ys))" by (rule add_mset_add_mset_same_iff[THEN iffD1])
    moreover have "set (remove1 x ys) \<subseteq> set ys" by (rule set_remove1_subset)
    ultimately have "mset xs = mset (remove1 x ys)" using Cons.IH[of "remove1 x ys"] Cons.prems by (meson list.set_intros(2) subsetD)
    with m show "mset (x # xs) = mset ys" by simp
  next
    assume "mset (x # xs) = mset ys"
    then show "mset (map f (x # xs)) = mset (map f ys)" by (simp only: mset_map)
  qed
qed (use mset_map in auto)

lemma distinct_map_same:
  assumes "\<And>x y. x \<in> set xs \<Longrightarrow> y \<in> set xs \<Longrightarrow> g x = g y \<longleftrightarrow> h x = h y"
  shows "distinct (map g xs) = distinct (map h xs)"
  using assms by (auto simp: distinct_map inj_on_def)

definition noSlash :: "string \<Rightarrow> bool" where "noSlash s \<longleftrightarrow> CHR ''/'' \<notin> set s"

text \<open>C40: the validator accepts exactly the covered sets: as long as no pod UID has a slash in it, it returns no error if and only if the discovered targets are,
  up to order, the expected ones, one each, with their pod, endpoint, role and node, all up and attributed to the Oubliette and its profile generation.\<close>

theorem coverage_exact:
  assumes ex: "\<forall>t \<in> set (ts_Expected ts). noSlash (tg_PodUID t)" and ds: "\<forall>d \<in> set ds. noSlash (mapGet (dt_Labels d) LabelPodUID)"
  shows "ValidateTargetCoverage ts ds = None \<longleftrightarrow> covered ts ds"
proof (cases "\<forall>t \<in> set (ts_Expected ts). completeTarget t")
  case False
  then show ?thesis unfolding coverage_keys covered_def by blast
next
  case True
  define f where "f = (\<lambda>(p, e, r :: string, n :: string). (targetKey p e, r, n))"
  let ?dv = "\<lambda>d. (mapGet (dt_Labels d) LabelPodUID, mapGet (dt_Labels d) LabelEndpoint, mapGet (dt_Labels d) LabelRole, mapGet (dt_Labels d) LabelNode)"
  let ?tv = "\<lambda>t. (tg_PodUID t, tg_Endpoint t, tg_Role t, tg_Node t)"
  have inj: "targetKey q e = expectedKey t \<longleftrightarrow> q = tg_PodUID t \<and> e = tg_Endpoint t" if "t \<in> set (ts_Expected ts)" "noSlash q" for q e t
    unfolding expectedKey_def by (rule targetKey_inject) (use ex True that in \<open>auto simp: noSlash_def completeTarget_def\<close>)
  have "mset (map f (map ?dv ds)) = mset (map f (map ?tv (ts_Expected ts))) \<longleftrightarrow> mset (map ?dv ds) = mset (map ?tv (ts_Expected ts))"
  proof (rule mset_map_inject)
    fix x y assume "x \<in> set (map ?dv ds)" "y \<in> set (map ?tv (ts_Expected ts))" "f x = f y"
    then obtain d t where x: "x = ?dv d" "d \<in> set ds" and y: "y = ?tv t" "t \<in> set (ts_Expected ts)" and "f (?dv d) = f (?tv t)" by auto
    then have "targetKey (mapGet (dt_Labels d) LabelPodUID) (mapGet (dt_Labels d) LabelEndpoint) = expectedKey t"
      "mapGet (dt_Labels d) LabelRole = tg_Role t" "mapGet (dt_Labels d) LabelNode = tg_Node t" by (auto simp: f_def expectedKey_def)
    with inj[OF y(2)] ds x(2) show "x = y" by (simp add: x(1) y(1))
  qed
  moreover have "distinct (map expectedKey (ts_Expected ts)) = distinct (map (\<lambda>t. (tg_PodUID t, tg_Endpoint t)) (ts_Expected ts))"
  proof (rule distinct_map_same)
    fix t u assume t: "t \<in> set (ts_Expected ts)" "u \<in> set (ts_Expected ts)"
    then show "expectedKey t = expectedKey u \<longleftrightarrow> (tg_PodUID t, tg_Endpoint t) = (tg_PodUID u, tg_Endpoint u)"
      using inj[OF t(2), of "tg_PodUID t" "tg_Endpoint t"] ex by (simp add: expectedKey_def)
  qed
  ultimately show ?thesis unfolding coverage_keys covered_def by (simp add: f_def discoveredKey_def expectedKey_def comp_def)
qed

text \<open>With a slash in a label, another endpoint passes for an expected one.\<close>

definition slash_set :: TargetSet where
  "slash_set = \<lparr>ts_Oubliette = ''demo'', ts_ProfileGeneration = ''g'', ts_Expected = [\<lparr>tg_Role = ''rank'', tg_PodUID = ''a'', tg_Endpoint = ''b/c'', tg_Node = ''n''\<rparr>]\<rparr>"

definition found :: "string \<Rightarrow> string \<Rightarrow> DiscoveredTarget" where
  "found pod endpoint = \<lparr>dt_Health = ''up'', dt_Labels = [LabelOubliette \<mapsto> ''demo'', LabelProfileGeneration \<mapsto> ''g'', LabelRole \<mapsto> ''rank'',
     LabelNode \<mapsto> ''n'', LabelPodUID \<mapsto> pod, LabelEndpoint \<mapsto> endpoint]\<rparr>"

theorem slash_confuses_targets: "ValidateTargetCoverage slash_set [found ''a/b'' ''c''] = None \<and> \<not> covered slash_set [found ''a/b'' ''c'']"
  by (simp add: ValidateTargetCoverage_def slash_set_def found_def targetKey_def discoveredKey_def mapGet_def target_labels covered_def)

definition demo_set :: TargetSet where
  "demo_set = \<lparr>ts_Oubliette = ''demo'', ts_ProfileGeneration = ''g'', ts_Expected = [\<lparr>tg_Role = ''rank'', tg_PodUID = ''a'', tg_Endpoint = ''x'', tg_Node = ''n''\<rparr>,
     \<lparr>tg_Role = ''rank'', tg_PodUID = ''b'', tg_Endpoint = ''x'', tg_Node = ''n''\<rparr>]\<rparr>"

theorem coverage_exact_witness:
  "covered demo_set [found ''b'' ''x'', found ''a'' ''x''] \<and> \<not> covered demo_set [found ''a'' ''x'']"
proof -
  have "ValidateTargetCoverage demo_set [found ''b'' ''x'', found ''a'' ''x''] = None \<longleftrightarrow> covered demo_set [found ''b'' ''x'', found ''a'' ''x'']"
    "ValidateTargetCoverage demo_set [found ''a'' ''x''] = None \<longleftrightarrow> covered demo_set [found ''a'' ''x'']"
    by (rule coverage_exact; simp add: demo_set_def found_def noSlash_def mapGet_def target_labels)+
  moreover have "ValidateTargetCoverage demo_set [found ''b'' ''x'', found ''a'' ''x''] = None"
    "ValidateTargetCoverage demo_set [found ''a'' ''x''] \<noteq> None"
    by (simp_all add: ValidateTargetCoverage_def demo_set_def found_def targetKey_def discoveredKey_def mapGet_def target_labels)
  ultimately show ?thesis by blast
qed

text \<open>What an accepted answer of Prometheus is: a success within the limit whose active targets of the Oubliette cover the expected ones.\<close>

theorem coverage_read_sound:
  assumes "ValidateCoverage H p ts w = (None, w')"
  shows "\<exists>endpoint response payload limit. hl_Parse H (pt_BaseURL p) = Some endpoint \<and> tu_Scheme endpoint \<in> {''http'', ''https''} \<and> tu_Host endpoint \<noteq> '''' \<and>
    (case pt_Client p of None \<Rightarrow> hl_Default H | Some client \<Rightarrow> client) (targetsRequest (pt_Authorization p) endpoint) w = (Inr response, w') \<and>
    200 \<le> tp_StatusCode response \<and> tp_StatusCode response < 300 \<and> 0 < limit \<and> limit = (if sint (pt_MaxBytes p) \<le> 0 then 4194304 else sint (pt_MaxBytes p)) \<and>
    decodeTargets (take (nat limit) (tp_Body response)) = Some payload \<and> pl_Status payload = ''success'' \<and>
    ValidateTargetCoverage ts (ownTargets (ts_Oubliette ts) (activeTargets payload)) = None"
proof -
  obtain endpoint response payload where e: "hl_Parse H (pt_BaseURL p) = Some endpoint" "tu_Scheme endpoint \<in> {''http'', ''https''}" "tu_Host endpoint \<noteq> ''''"
    "(case pt_Client p of None \<Rightarrow> hl_Default H | Some client \<Rightarrow> client) (targetsRequest (pt_Authorization p) endpoint) w = (Inr response, w')"
    "readTargets (pt_MaxBytes p) response = Inr payload" "ValidateTargetCoverage ts (ownTargets (ts_Oubliette ts) (activeTargets payload)) = None"
    using assms by (cases "hl_Parse H (pt_BaseURL p)") (auto simp: ValidateCoverage_def Let_def split: if_splits prod.splits sum.splits)
  define limit :: int64 where "limit = (if sint (pt_MaxBytes p) \<le> 0 then 4194304 else pt_MaxBytes p)"
  have r: "200 \<le> tp_StatusCode response" "tp_StatusCode response < 300"
    "int (length (take (nat (sint (limit + 1))) (tp_Body response))) \<le> sint limit"
    "decodeTargets (take (nat (sint (limit + 1))) (tp_Body response)) = Some payload" "pl_Status payload = ''success''"
    using e(5) by (auto simp: readTargets_def Let_def limit_def[symmetric] split: if_splits option.splits)
  have pos: "0 < sint limit" by (simp add: limit_def)
  have "take (nat (sint (limit + 1))) (tp_Body response) = take (nat (sint limit)) (tp_Body response)"
  proof (cases "sint limit + 1 < 2 ^ 63")
    case True
    with pos have "sint (limit + 1) = sint limit + 1" using sint_plus64[of limit 1] by simp
    with r(3) pos have "length (tp_Body response) \<le> nat (sint limit)" by (simp add: min_def split: if_splits)
    then show ?thesis using \<open>sint (limit + 1) = sint limit + 1\<close> pos by simp
  next
    case False
    then have "sint limit = 2 ^ 63 - 1" using sint64_upper[of limit] by simp
    then have "sint limit = sint (9223372036854775807 :: int64)" by simp
    then have "limit = 9223372036854775807" by (rule signed_word_eqI)
    then have "sint (limit + 1) = - (2 ^ 63)" by simp
    moreover have "decodeTargets [] = None" by code_simp
    ultimately show ?thesis using r(4) by simp
  qed
  with e r pos show ?thesis by (intro exI[of _ endpoint] exI[of _ response] exI[of _ payload] exI[of _ "sint limit"]) (auto simp: limit_def)
qed

end
