(* ===== verification/Disk.thy ===== *)
theory Disk
  imports Json "HOL-Library.AList"
begin

text \<open>
  Paths and the file system calls of Go's \<open>path\<close>, \<open>path/filepath\<close> and \<open>os\<close> packages that the
  evidence store and the credential sink use. A disk is an association list of cleaned paths, directories
  or files. Any system call may also fail for a reason of the machine (a full disk, a lost
  mount, a name the file system refuses): the field \<open>d_fault\<close> says which calls do, by their number, and a failing write
  may have written some bytes before. Random names come from \<open>d_random\<close>. Links, permissions and
  other processes are left out.
\<close>

section \<open>Paths\<close>

text \<open>\<open>path.Clean\<close>: the components without empty and dot ones, each dot-dot removing the component before
  it, or kept at the front of a relative path.\<close>

fun cleanStep :: "bool \<Rightarrow> string list \<Rightarrow> string \<Rightarrow> string list" where
  "cleanStep rooted acc c =
     (if c = '''' \<or> c = ''.'' then acc
      else if c = ''..'' then
        (case acc of [] \<Rightarrow> (if rooted then [] else [''..'']) | d # ds \<Rightarrow> if d = ''..'' then ''..'' # acc else ds)
      else c # acc)"

definition path_IsAbs :: "string \<Rightarrow> bool" where "path_IsAbs p \<longleftrightarrow> HasPrefix p ''/''"

definition path_Clean :: "string \<Rightarrow> string" where
  "path_Clean p =
     (let rooted = path_IsAbs p;
          cs = rev (foldl (cleanStep rooted) [] (Split p (CHR ''/''))) in
      if rooted then ''/'' @ Join cs ''/'' else if cs = [] then ''.'' else Join cs ''/'')"

text \<open>
  A cleaned path: whether it is absolute, and its components from the last to the first. \<open>filePath\<close>
  reads a string, \<open>joinPath\<close> is \<open>filepath.Join\<close> with one more element and \<open>dirPath\<close> is \<open>filepath.Dir\<close>.
\<close>

type_synonym path = "bool \<times> string list"

definition filePath :: "string \<Rightarrow> path" where
  "filePath p = (path_IsAbs p, foldl (cleanStep (path_IsAbs p)) [] (Split p (CHR ''/'')))"

definition joinPath :: "path \<Rightarrow> string \<Rightarrow> path" where
  "joinPath p name = (fst p, foldl (cleanStep (fst p)) (snd p) (Split name (CHR ''/'')))"

definition dirPath :: "path \<Rightarrow> path" where
  "dirPath p = (fst p, tl (snd p))"

definition below :: "path \<Rightarrow> path \<Rightarrow> bool" where
  "below q x \<longleftrightarrow> fst x = fst q \<and> length (snd q) \<le> length (snd x) \<and> drop (length (snd x) - length (snd q)) (snd x) = snd q"

section \<open>The file system\<close>

datatype entry = Dir | File string

datatype os_err = NotExist | Exist | NotDir | IsDir | NotEmpty | Io

record disk =
  d_list :: "(path \<times> entry) list"
  d_ops :: nat
  d_fault :: "nat \<Rightarrow> nat option"
  d_random :: "nat \<Rightarrow> 32 word"

definition d_entries :: "disk \<Rightarrow> path \<rightharpoonup> entry" where
  "d_entries d = map_of (d_list d)"

definition entryAt :: "disk \<Rightarrow> path \<Rightarrow> entry option" where
  "entryAt d p = (if snd p = [] then Some Dir else d_entries d p)"

definition put :: "path \<Rightarrow> entry \<Rightarrow> disk \<Rightarrow> disk" where
  "put p e d = d\<lparr>d_list := AList.update p e (d_list d)\<rparr>"

text \<open>Looking up a directory, from the outermost component.\<close>

fun walk :: "disk \<Rightarrow> bool \<Rightarrow> string list \<Rightarrow> os_err option" where
  "walk d r [] = None"
| "walk d r (c # cs) =
     (case walk d r cs of
        Some e \<Rightarrow> Some e
      | None \<Rightarrow> (case d_entries d (r, c # cs) of None \<Rightarrow> Some NotExist | Some (File _) \<Rightarrow> Some NotDir | Some Dir \<Rightarrow> None))"

type_synonym 'a call = "disk \<Rightarrow> (os_err + 'a) \<times> disk"

definition tick :: "disk \<Rightarrow> disk" where "tick d = d\<lparr>d_ops := Suc (d_ops d)\<rparr>"

definition sys :: "'a call \<Rightarrow> 'a call" where
  "sys f d = (case d_fault d (d_ops d) of Some _ \<Rightarrow> (Inl Io, tick d) | None \<Rightarrow> f (tick d))"

definition inDir :: "path \<Rightarrow> 'a call \<Rightarrow> 'a call" where
  "inDir p f d = (case walk d (fst p) (tl (snd p)) of Some e \<Rightarrow> (Inl e, d) | None \<Rightarrow> f d)"

definition os_ReadFile :: "path \<Rightarrow> string call" where
  "os_ReadFile p = sys (inDir p (\<lambda>d. (case entryAt d p of None \<Rightarrow> Inl NotExist | Some Dir \<Rightarrow> Inl IsDir | Some (File b) \<Rightarrow> Inr b, d)))"

text \<open>Creating a new entry: \<open>os.Mkdir\<close>, and \<open>os.OpenFile\<close> with \<open>O_CREATE|O_EXCL\<close>.\<close>

definition newEntry :: "entry \<Rightarrow> path \<Rightarrow> unit call" where
  "newEntry e p = sys (inDir p (\<lambda>d. case entryAt d p of Some _ \<Rightarrow> (Inl Exist, d) | None \<Rightarrow> (Inr (), put p e d)))"

abbreviation os_Mkdir :: "path \<Rightarrow> unit call" where "os_Mkdir \<equiv> newEntry Dir"
abbreviation os_OpenNew :: "path \<Rightarrow> unit call" where "os_OpenNew \<equiv> newEntry (File '''')"

fun mkdirAll :: "bool \<Rightarrow> string list \<Rightarrow> unit call" where
  "mkdirAll r [] d = (Inr (), d)"
| "mkdirAll r (c # cs) d =
     (case mkdirAll r cs d of
        (Inl e, d1) \<Rightarrow> (Inl e, d1)
      | (Inr _, d1) \<Rightarrow>
          (case d_entries d1 (r, c # cs) of
             Some Dir \<Rightarrow> (Inr (), d1) | Some (File _) \<Rightarrow> (Inl NotDir, d1) | None \<Rightarrow> os_Mkdir (r, c # cs) d1))"

definition os_MkdirAll :: "path \<Rightarrow> unit call" where
  "os_MkdirAll p = mkdirAll (fst p) (snd p)"

definition append :: "path \<Rightarrow> string \<Rightarrow> disk \<Rightarrow> disk" where
  "append p x d = (case d_entries d p of Some (File b) \<Rightarrow> put p (File (b @ x)) d | _ \<Rightarrow> d)"

definition file_Write :: "path \<Rightarrow> string \<Rightarrow> unit call" where
  "file_Write p x d = (case d_fault d (d_ops d) of
     Some k \<Rightarrow> (Inl Io, append p (take k x) (tick d)) | None \<Rightarrow> (Inr (), append p x (tick d)))"

definition file_Sync :: "unit call" where "file_Sync = sys (\<lambda>d. (Inr (), d))"
definition file_Close :: "unit call" where "file_Close = sys (\<lambda>d. (Inr (), d))"

definition os_Create :: "path \<Rightarrow> unit call" where
  "os_Create p = sys (inDir p (\<lambda>d. if entryAt d p = Some Dir then (Inl IsDir, d) else (Inr (), put p (File '''') d)))"

definition os_WriteFile :: "path \<Rightarrow> string \<Rightarrow> unit call" where
  "os_WriteFile p x d =
     (case os_Create p d of
        (Inl e, d1) \<Rightarrow> (Inl e, d1)
      | (Inr _, d1) \<Rightarrow>
          (case file_Write p x d1 of
             (w, d2) \<Rightarrow> (case file_Close d2 of (c, d3) \<Rightarrow> (case w of Inl e \<Rightarrow> Inl e | Inr _ \<Rightarrow> c, d3))))"

text \<open>\<open>os.MkdirTemp\<close> and \<open>os.CreateTemp\<close>: a random name, tried again while it is taken.\<close>

definition tempTries :: nat where "tempTries = 10000"

fun temp :: "nat \<Rightarrow> entry \<Rightarrow> path \<Rightarrow> string \<Rightarrow> path call" where
  "temp 0 e p pre d = (Inl Exist, d)"
| "temp (Suc n) e p pre d =
     (let q = (fst p, (pre @ nat_digits (unat (d_random d (d_ops d)))) # snd p) in
      case newEntry e q d of
        (Inr _, d1) \<Rightarrow> (Inr q, d1)
      | (Inl er, d1) \<Rightarrow> if er = Exist then temp n e p pre d1 else (Inl er, d1))"

abbreviation os_MkdirTemp :: "path \<Rightarrow> string \<Rightarrow> path call" where "os_MkdirTemp \<equiv> temp tempTries Dir"
abbreviation os_CreateTemp :: "path \<Rightarrow> string \<Rightarrow> path call" where "os_CreateTemp \<equiv> temp tempTries (File '''')"

text \<open>\<open>os.Rename\<close> refuses an existing directory as its target; a file replaces a file, and a directory takes everything below
  it along.\<close>

definition relocate :: "path \<Rightarrow> path \<Rightarrow> path \<Rightarrow> path" where
  "relocate p q x = (fst q, take (length (snd x) - length (snd p)) (snd x) @ snd q)"

definition move :: "path \<Rightarrow> path \<Rightarrow> disk \<Rightarrow> disk" where
  "move p q d = d\<lparr>d_list :=
     map (\<lambda>x. (relocate p q (fst x), snd x)) (filter (\<lambda>x. below p (fst x)) (d_list d)) @
     filter (\<lambda>x. \<not> below p (fst x) \<and> \<not> below q (fst x)) (d_list d)\<rparr>"

definition os_Rename :: "path \<Rightarrow> path \<Rightarrow> unit call" where
  "os_Rename p q = sys (inDir p (inDir q (\<lambda>d.
     case entryAt d p of
       None \<Rightarrow> (Inl NotExist, d)
     | Some src \<Rightarrow>
         if snd p = [] \<or> below p q then (Inl Io, d)
         else (case entryAt d q of
           Some Dir \<Rightarrow> (Inl Exist, d)
         | Some (File _) \<Rightarrow> if src = Dir then (Inl NotDir, d) else (Inr (), move p q d)
         | None \<Rightarrow> (Inr (), move p q d)))))"

definition hasChild :: "disk \<Rightarrow> path \<Rightarrow> bool" where
  "hasChild d p \<longleftrightarrow> list_ex (\<lambda>x. fst x \<noteq> p \<and> below p (fst x)) (d_list d)"

definition drop_below :: "path \<Rightarrow> disk \<Rightarrow> disk" where
  "drop_below p d = d\<lparr>d_list := filter (\<lambda>x. \<not> below p (fst x)) (d_list d)\<rparr>"

definition os_Remove :: "path \<Rightarrow> unit call" where
  "os_Remove p = sys (inDir p (\<lambda>d.
     case entryAt d p of
       None \<Rightarrow> (Inl NotExist, d)
     | Some (File _) \<Rightarrow> (Inr (), drop_below p d)
     | Some Dir \<Rightarrow> if snd p = [] \<or> hasChild d p then (Inl NotEmpty, d) else (Inr (), drop_below p d)))"

text \<open>A \<open>RemoveAll\<close> that fails removes nothing here, where the real one may have removed a part; the code calls it on its own
  temporary directory only.\<close>

definition os_RemoveAll :: "path \<Rightarrow> unit call" where
  "os_RemoveAll p = sys (\<lambda>d. (Inr (), drop_below p d))"

text \<open>A disk beside other state.\<close>

definition onHost :: "('h \<Rightarrow> 'a \<times> 'h) \<Rightarrow> 'h \<times> disk \<Rightarrow> 'a \<times> ('h \<times> disk)" where
  "onHost f s = (case f (fst s) of (x, h) \<Rightarrow> (x, (h, snd s)))"

definition onDisk :: "(disk \<Rightarrow> 'a \<times> disk) \<Rightarrow> 'h \<times> disk \<Rightarrow> 'a \<times> ('h \<times> disk)" where
  "onDisk f s = (case f (snd s) of (x, d) \<Rightarrow> (x, (fst s, d)))"

section \<open>Clean names\<close>

lemma Split_Join:
  assumes "cs \<noteq> []" and "\<forall>c \<in> set cs. sep \<notin> set c"
  shows "Split (Join cs [sep]) sep = cs"
  using assms
proof (induction cs "[sep]" rule: Join.induct)
  case (2 s)
  then show ?case by (simp add: Split_no_sep)
next
  case (3 s t ss)
  then show ?case by (simp add: Split_append_sep)
qed simp

text \<open>The stack of a relative path: components without dots above a number of dot-dots.\<close>

definition clean_stack :: "string list \<Rightarrow> bool" where
  "clean_stack acc \<longleftrightarrow> (\<exists>xs k. acc = xs @ replicate k ''..'' \<and> ''..'' \<notin> set xs)"

lemma cleanStep_stack: "clean_stack acc \<Longrightarrow> clean_stack (cleanStep False acc c)"
proof -
  assume "clean_stack acc"
  then obtain xs k where a: "acc = xs @ replicate k ''..''" "''..'' \<notin> set xs" unfolding clean_stack_def by blast
  consider "c = '''' \<or> c = ''.''" | "c = ''..''" "xs = []" | y ys where "c = ''..''" "xs = y # ys" | "c \<notin> {'''', ''.'', ''..''}"
    by (cases xs) auto
  then show ?thesis
  proof cases
    case 1
    with a show ?thesis unfolding clean_stack_def by auto
  next
    case 2
    with a have "cleanStep False acc c = [] @ replicate (Suc k) ''..''" by (cases k) auto
    then show ?thesis unfolding clean_stack_def by (metis empty_iff list.set(1))
  next
    case 3
    with a have "cleanStep False acc c = ys @ replicate k ''..''" "''..'' \<notin> set ys" by auto
    then show ?thesis unfolding clean_stack_def by blast
  next
    case 4
    with a have "cleanStep False acc c = (c # xs) @ replicate k ''..''" "''..'' \<notin> set (c # xs)" by auto
    then show ?thesis unfolding clean_stack_def by blast
  qed
qed

lemma clean_foldl: "clean_stack acc \<Longrightarrow> clean_stack (foldl (cleanStep False) acc cs)"
  by (induction cs arbitrary: acc) (simp_all add: cleanStep_stack del: cleanStep.simps)

lemma cleanStep_set: "set (cleanStep r acc c) \<subseteq> insert c (insert ''..'' (set acc))"
  by (auto split: list.splits)

lemma clean_foldl_set: "set (foldl (cleanStep r) acc cs) \<subseteq> insert ''..'' (set acc \<union> set cs)"
proof (induction cs arbitrary: acc)
  case (Cons c cs)
  from Cons[of "cleanStep r acc c"] cleanStep_set[of r acc c]
  have "set (foldl (cleanStep r) (cleanStep r acc c) cs) \<subseteq> insert ''..'' (insert c (insert ''..'' (set acc)) \<union> set cs)" by blast
  then show ?case unfolding foldl_Cons list.set(2) by blast
qed auto

lemma Join_head: "cs \<noteq> [] \<Longrightarrow> Join (c # cs) sep = c @ sep @ Join cs sep"
  by (cases cs) auto

lemma clean_foldl_plain:
  "'''' \<notin> set acc \<Longrightarrow> ''.'' \<notin> set acc \<Longrightarrow> '''' \<notin> set (foldl (cleanStep r) acc cs) \<and> ''.'' \<notin> set (foldl (cleanStep r) acc cs)"
proof (induction cs arbitrary: acc)
  case (Cons c cs)
  have "'''' \<notin> set (cleanStep r acc c) \<and> ''.'' \<notin> set (cleanStep r acc c)" using Cons.prems by (auto split: list.splits)
  with Cons.IH[of "cleanStep r acc c"] show ?case by (simp del: cleanStep.simps)
qed simp

lemma clean_split:
  assumes clean: "p = path_Clean p" and rel: "\<not> path_IsAbs p"
  shows "p = ''.'' \<or> Split p (CHR ''/'') = rev (foldl (cleanStep False) [] (Split p (CHR ''/'')))"
proof -
  define cs where "cs = rev (foldl (cleanStep False) [] (Split p (CHR ''/'')))"
  have "path_Clean p = (if cs = [] then ''.'' else Join cs ''/'')" using rel unfolding path_Clean_def Let_def cs_def by simp
  then have p: "p = (if cs = [] then ''.'' else Join cs ''/'')" using clean by simp
  have "CHR ''/'' \<notin> set c" if "c \<in> set cs" for c
    using that clean_foldl_set[of False "[]" "Split p (CHR ''/'')"] Split_parts_no_sep[of _ p "CHR ''/''"] unfolding cs_def by auto
  then have "cs \<noteq> [] \<Longrightarrow> Split p (CHR ''/'') = cs" using Split_Join[of cs "CHR ''/''"] p by simp
  with p show ?thesis by (cases "cs = []") (auto simp: cs_def)
qed

text \<open>A name whose components are all plain; joining it appends them.\<close>

definition plainName :: "string \<Rightarrow> bool" where
  "plainName n \<longleftrightarrow> list_all (\<lambda>c. c \<noteq> '''' \<and> c \<noteq> ''.'' \<and> c \<noteq> ''..'') (Split n (CHR ''/''))"

lemma clean_name_plain:
  assumes clean: "p = path_Clean p" and rel: "\<not> path_IsAbs p" and up: "\<not> HasPrefix p ''../''"
  shows "p = ''.'' \<or> p = ''..'' \<or> plainName p"
proof (cases "p = ''.''")
  case False
  define cs where "cs = Split p (CHR ''/'')"
  have split: "cs = rev (foldl (cleanStep False) [] cs)" using clean_split[OF clean rel] False by (simp add: cs_def)
  have pj: "p = Join cs ''/''" by (simp add: cs_def Join_Split)
  have "clean_stack (foldl (cleanStep False) [] cs)" by (rule clean_foldl) (simp add: clean_stack_def)
  then obtain xs k where x: "rev cs = xs @ replicate k ''..''" "''..'' \<notin> set xs" unfolding clean_stack_def by (metis split rev_rev_ident)
  then have cs: "cs = replicate k ''..'' @ rev xs" by (metis rev_append rev_replicate rev_rev_ident)
  have dots: "'''' \<notin> set cs" "''.'' \<notin> set cs" using clean_foldl_plain[of "[]" False cs] split by (metis empty_iff list.set(1) set_rev)+
  show ?thesis
  proof (cases k)
    case 0
    then have "''..'' \<notin> set cs" using cs x(2) by simp
    then show ?thesis using dots by (auto simp: plainName_def list_all_iff cs_def[symmetric])
  next
    case (Suc k')
    then obtain cs' where c: "cs = ''..'' # cs'" using cs by simp
    show ?thesis
    proof (cases cs')
      case Nil
      then show ?thesis using pj c by simp
    next
      case (Cons d ds)
      then have "p = ''../'' @ Join cs' ''/''" using pj c Join_head[of cs' "''..''" "''/''"] by simp
      then show ?thesis using up HasPrefix_append by metis
    qed
  qed
qed simp

lemma clean_name_confined:
  assumes "p = path_Clean p" and "\<not> path_IsAbs p" and "\<not> HasPrefix p ''../''"
  shows "p = ''..'' \<or> ''..'' \<notin> set (Split p (CHR ''/''))"
  using clean_name_plain[OF assms] by (auto simp: plainName_def list_all_iff Split_no_sep)

lemma cleanStep_plain:
  "list_all (\<lambda>c. c \<noteq> '''' \<and> c \<noteq> ''.'' \<and> c \<noteq> ''..'') cs \<Longrightarrow> foldl (cleanStep r) acc cs = rev cs @ acc"
  by (induction cs arbitrary: acc) auto

lemma joinPath_plain: "plainName n \<Longrightarrow> joinPath p n = (fst p, rev (Split n (CHR ''/'')) @ snd p)"
  by (simp add: joinPath_def plainName_def cleanStep_plain)

lemma joinPath_single: "CHR ''/'' \<notin> set n \<Longrightarrow> n \<notin> {'''', ''.'', ''..''} \<Longrightarrow> joinPath p n = (fst p, n # snd p)"
  by (simp add: joinPath_def Split_no_sep)

lemma Split_inject: "Split m sep = Split n sep \<Longrightarrow> m = n"
  by (metis Join_Split)

lemma joinPath_inject: "plainName m \<Longrightarrow> plainName n \<Longrightarrow> joinPath p m = joinPath p n \<Longrightarrow> m = n"
  by (auto simp: joinPath_plain dest: Split_inject)

section \<open>Subtrees\<close>

lemma below_iff: "below q x \<longleftrightarrow> (\<exists>zs. x = (fst q, zs @ snd q))"
proof
  assume b: "below q x"
  have "snd x = take (length (snd x) - length (snd q)) (snd x) @ drop (length (snd x) - length (snd q)) (snd x)" by simp
  also have "\<dots> = take (length (snd x) - length (snd q)) (snd x) @ snd q" using b by (simp add: below_def)
  finally have "x = (fst q, take (length (snd x) - length (snd q)) (snd x) @ snd q)" using b by (cases x) (simp add: below_def)
  then show "\<exists>zs. x = (fst q, zs @ snd q)" by blast
qed (auto simp: below_def)

lemma below_refl [simp]: "below p p"
  by (simp add: below_def)

lemma below_append [simp]: "below q (fst q, zs @ snd q)"
  by (auto simp: below_iff)

lemma below_Cons [simp]: "below (r, cs) (r, c # cs)"
  by (auto simp: below_iff)

lemma below_trans: "below p q \<Longrightarrow> below q x \<Longrightarrow> below p x"
  by (auto simp: below_iff)

lemma relocate_append [simp]: "relocate p q (fst p, zs @ snd p) = (fst q, zs @ snd q)"
  by (simp add: relocate_def)

text \<open>Two siblings have disjoint subtrees.\<close>

lemma below_siblings: "below (r, c # cs) x \<Longrightarrow> below (r, c' # cs) x \<Longrightarrow> c = c'"
proof -
  assume "below (r, c # cs) x" "below (r, c' # cs) x"
  then obtain zs zs' where "zs @ c # cs = zs' @ c' # cs" by (auto simp: below_iff)
  then have "rev (zs @ c # cs) = rev (zs' @ c' # cs)" by (rule arg_cong)
  then show ?thesis by simp
qed

lemma map_of_keys: "map_of (filter (\<lambda>x. P (fst x)) es) = (\<lambda>k. if P k then map_of es k else None)"
  by (induction es) auto

lemma map_of_moved:
  "map_of (map (\<lambda>x. (relocate p q (fst x), snd x)) (filter (\<lambda>x. below p (fst x)) es)) (fst q, zs @ snd q) = map_of es (fst p, zs @ snd p)"
  by (induction es) (auto simp: below_iff)

lemma map_of_moved_None:
  "\<not> below q x \<Longrightarrow> map_of (map (\<lambda>x. (relocate p q (fst x), snd x)) (filter (\<lambda>x. below p (fst x)) es)) x = None"
  by (induction es) (auto simp: below_iff relocate_def)

lemma entries_tick [simp]: "d_entries (tick d) = d_entries d"
  by (simp add: d_entries_def tick_def)

lemma entries_put [simp]: "d_entries (put p e d) = (d_entries d)(p \<mapsto> e)"
  by (simp add: d_entries_def put_def update_conv')

lemma entries_drop_below [simp]: "d_entries (drop_below p d) x = (if below p x then None else d_entries d x)"
  using map_of_keys[of "\<lambda>k. \<not> below p k" "d_list d"] by (simp add: d_entries_def drop_below_def)

lemma entries_move_target: "d_entries (move p q d) (fst q, zs @ snd q) = d_entries d (fst p, zs @ snd p)"
proof -
  have "map_of (filter (\<lambda>x. \<not> below p (fst x) \<and> \<not> below q (fst x)) (d_list d)) (fst q, zs @ snd q) = None"
    using map_of_keys[of "\<lambda>k. \<not> below p k \<and> \<not> below q k" "d_list d"] by simp
  then show ?thesis
    by (simp add: d_entries_def move_def map_add_def map_of_moved map_of_append split: option.split)
qed

lemma entries_move_other: "\<not> below q x \<Longrightarrow> d_entries (move p q d) x = (if below p x then None else d_entries d x)"
  using map_of_keys[of "\<lambda>k. \<not> below p k \<and> \<not> below q k" "d_list d"]
  by (simp add: d_entries_def move_def map_add_def map_of_moved_None)

lemma walk_cong: "d_entries d = d_entries d' \<Longrightarrow> walk d r cs = walk d' r cs"
  by (induction cs) (auto split: option.splits)

lemma walk_tick [simp]: "walk (tick d) = walk d"
  by (intro ext walk_cong) simp

lemma entryAt_tick [simp]: "entryAt (tick d) = entryAt d"
  by (simp add: entryAt_def fun_eq_iff)

section \<open>What the calls change\<close>

text \<open>\<open>touches S d d'\<close>: outside \<open>S\<close> the entries are the same.\<close>

definition touches :: "path set \<Rightarrow> disk \<Rightarrow> disk \<Rightarrow> bool" where
  "touches S d d' \<longleftrightarrow> (\<forall>x. x \<notin> S \<longrightarrow> d_entries d' x = d_entries d x)"

definition subtree :: "path \<Rightarrow> path set" where "subtree p = {x. below p x}"

definition inside :: "path \<Rightarrow> path set" where "inside p = subtree p - {p}"

lemma in_subtree [simp]: "x \<in> subtree p \<longleftrightarrow> below p x"
  by (simp add: subtree_def)

lemma touches_same: "d_entries d' = d_entries d \<Longrightarrow> touches S d d'"
  by (simp add: touches_def)

lemma touches_trans: "touches S d d' \<Longrightarrow> touches S d' d'' \<Longrightarrow> touches S d d''"
  by (simp add: touches_def)

lemma touches_mono: "touches S d d' \<Longrightarrow> S \<subseteq> T \<Longrightarrow> touches T d d'"
  by (auto simp: touches_def)

lemma touchesD: "touches S d d' \<Longrightarrow> x \<notin> S \<Longrightarrow> d_entries d' x = d_entries d x"
  unfolding touches_def by blast

lemma sys_cases:
  assumes "sys f d = (res, d')"
  obtains "res = Inl Io" "d_entries d' = d_entries d" | "f (tick d) = (res, d')"
  using assms by (auto simp: sys_def split: option.splits)

lemma inDir_cases:
  assumes "inDir p f d = (res, d')"
  obtains e where "res = Inl e" "walk d (fst p) (tl (snd p)) = Some e" "d' = d" | "walk d (fst p) (tl (snd p)) = None" "f d = (res, d')"
  using assms by (auto simp: inDir_def split: option.splits)

lemma newEntry_effect:
  assumes "newEntry e p d = (res, d')"
  shows "(\<forall>er. res = Inl er \<longrightarrow> d_entries d' = d_entries d) \<and>
    (res = Inr () \<longrightarrow> d_entries d p = None \<and> snd p \<noteq> [] \<and> walk d (fst p) (tl (snd p)) = None \<and> d_entries d' = (d_entries d)(p \<mapsto> e))"
  using assms unfolding newEntry_def
  by (elim sys_cases inDir_cases) (auto simp: entryAt_def split: option.splits if_splits)

lemma ReadFile_effect:
  assumes "os_ReadFile p d = (res, d')"
  shows "d_entries d' = d_entries d" and "res = Inr b \<Longrightarrow> d_entries d p = Some (File b)"
  using assms unfolding os_ReadFile_def
  by (elim sys_cases inDir_cases; auto simp: entryAt_def split: option.splits if_splits entry.splits)+

lemma ReadFile_missing:
  assumes "os_ReadFile p d = (Inl NotExist, d')"
  shows "d_entries d p = None \<or> walk d (fst p) (tl (snd p)) = Some NotExist"
  using assms unfolding os_ReadFile_def
  by (elim sys_cases inDir_cases) (auto simp: entryAt_def split: option.splits if_splits entry.splits)

lemma mkdirAll_keeps:
  "mkdirAll r cs d = (res, d') \<Longrightarrow> (\<forall>x e. d_entries d x = Some e \<longrightarrow> d_entries d' x = Some e) \<and> (res = Inr () \<longrightarrow> walk d' r cs = None)"
proof (induction cs arbitrary: res d')
  case (Cons c cs)
  obtain x d1 where m: "mkdirAll r cs d = (x, d1)" by (metis surj_pair)
  note IH = Cons.IH[OF m]
  show ?case
  proof (cases x)
    case (Inl e)
    with Cons.prems m IH show ?thesis by auto
  next
    case (Inr u)
    then have w: "walk d1 r cs = None" using IH by simp
    show ?thesis
    proof (cases "d_entries d1 (r, c # cs)")
      case None
      with Cons.prems m Inr have n: "os_Mkdir (r, c # cs) d1 = (res, d')" by simp
      note eff = newEntry_effect[OF n]
      have "res = Inr () \<Longrightarrow> walk d' r cs = None"
      proof -
        assume "res = Inr ()"
        then have e: "d_entries d' = (d_entries d1)((r, c # cs) \<mapsto> Dir)" using eff by simp
        have "walk d' r ys = walk d1 r ys" if "length ys \<le> length cs" for ys using that
          by (induction ys) (auto simp: e split: option.splits)
        then show ?thesis using w by simp
      qed
      then show ?thesis using eff IH None by (cases res) auto
    next
      case (Some en)
      then show ?thesis using Cons.prems m Inr IH w by (auto split: entry.splits)
    qed
  qed
qed simp

text \<open>Below an existing directory nothing outside it changes.\<close>

lemma mkdirAll_existing: "walk d r ys = None \<Longrightarrow> mkdirAll r ys d = (Inr (), d)"
  by (induction ys) (auto split: option.splits entry.splits)

lemma mkdirAll_touches:
  "walk d r ys = None \<Longrightarrow> mkdirAll r (zs @ ys) d = (res, d') \<Longrightarrow> touches (inside (r, ys)) d d'"
proof (induction zs arbitrary: res d')
  case Nil
  then show ?case by (simp add: mkdirAll_existing touches_same)
next
  case (Cons z zs)
  obtain x d1 where m: "mkdirAll r (zs @ ys) d = (x, d1)" by (metis surj_pair)
  note t = Cons.IH[OF Cons.prems(1) m]
  have s: "(r, z # zs @ ys) \<in> inside (r, ys)"
    by (auto simp: inside_def below_iff intro: exI[of _ "z # zs"] dest: arg_cong[of _ _ length])
  show ?case
  proof (cases "x = Inr () \<and> d_entries d1 (r, z # zs @ ys) = None")
    case True
    with Cons.prems m have "os_Mkdir (r, z # zs @ ys) d1 = (res, d')" by simp
    from newEntry_effect[OF this] s have "touches (inside (r, ys)) d1 d'" by (cases res) (auto simp: touches_def)
    with t show ?thesis by (rule touches_trans)
  next
    case False
    with Cons.prems m t show ?thesis by (auto split: sum.splits option.splits entry.splits)
  qed
qed

lemma append_effect: "d_entries d p = Some (File b) \<Longrightarrow> d_entries (append p x d) = (d_entries d)(p \<mapsto> File (b @ x))"
  by (simp add: append_def)

lemma append_touches: "touches {p} d (append p x d)"
  by (auto simp: append_def touches_def split: option.splits entry.splits)

lemma file_Write_effect:
  assumes "file_Write p x d = (res, d')"
  shows "touches {p} d d'" and "res = Inr () \<Longrightarrow> d_entries d p = Some (File b) \<Longrightarrow> d_entries d' p = Some (File (b @ x))"
    and "\<exists>k. d_entries d p = Some (File b) \<longrightarrow> d_entries d' p = Some (File (b @ take k x))"
proof -
  have t: "touches {p} d (append p y (tick d))" for y
    using append_touches[of p "tick d" y] by (simp add: touches_def)
  show "touches {p} d d'" using assms t by (auto simp: file_Write_def split: option.splits)
  show "res = Inr () \<Longrightarrow> d_entries d p = Some (File b) \<Longrightarrow> d_entries d' p = Some (File (b @ x))"
    using assms by (auto simp: file_Write_def append_effect split: option.splits)
  have "\<exists>k. d_entries d p = Some (File b) \<longrightarrow> d_entries (append p x (tick d)) p = Some (File (b @ take k x))"
    by (rule exI[of _ "length x"]) (simp add: append_effect)
  then show "\<exists>k. d_entries d p = Some (File b) \<longrightarrow> d_entries d' p = Some (File (b @ take k x))"
    using assms by (auto simp: file_Write_def append_effect split: option.splits)
qed

lemma file_Close_effect: "file_Close d = (res, d') \<Longrightarrow> d_entries d' = d_entries d"
  by (auto simp: file_Close_def elim: sys_cases)

lemma WriteFile_effect:
  assumes "os_WriteFile p x d = (res, d')"
  shows "touches {p} d d'" and "res = Inr () \<Longrightarrow> d_entries d' p = Some (File x)"
    and "entryAt d p = Some Dir \<Longrightarrow> d_entries d' = d_entries d \<and> res \<noteq> Inr ()"
proof -
  obtain c d1 where c: "os_Create p d = (c, d1)" by (metis surj_pair)
  have cr: "(\<forall>e. c = Inl e \<longrightarrow> d_entries d1 = d_entries d) \<and> (c = Inr () \<longrightarrow> entryAt d p \<noteq> Some Dir \<and> d_entries d1 = (d_entries d)(p \<mapsto> File ''''))"
    using c unfolding os_Create_def by (elim sys_cases inDir_cases) (auto split: if_splits)
  obtain w d2 where w: "file_Write p x d1 = (w, d2)" by (metis surj_pair)
  obtain v d3 where v: "file_Close d2 = (v, d3)" by (metis surj_pair)
  note we = file_Write_effect[OF w] and ve = file_Close_effect[OF v]
  have t: "touches {p} d d1" using cr by (cases c) (auto simp: touches_def)
  have "touches {p} d d3" using touches_trans[OF t we(1)] ve by (simp add: touches_def)
  then show "touches {p} d d'" using assms c w v t by (auto simp: os_WriteFile_def split: sum.splits)
  show "res = Inr () \<Longrightarrow> d_entries d' p = Some (File x)"
    using assms c w v cr we(2)[of "''''"] ve by (auto simp: os_WriteFile_def split: sum.splits)
  show "entryAt d p = Some Dir \<Longrightarrow> d_entries d' = d_entries d \<and> res \<noteq> Inr ()"
    using assms c cr by (auto simp: os_WriteFile_def split: sum.splits)
qed

lemma temp_effect:
  "temp n e p pre d = (res, d') \<Longrightarrow>
     (\<forall>er. res = Inl er \<longrightarrow> d_entries d' = d_entries d) \<and>
     (\<forall>q. res = Inr q \<longrightarrow> (\<exists>k. q = (fst p, (pre @ nat_digits k) # snd p)) \<and> d_entries d q = None \<and>
        walk d (fst p) (snd p) = None \<and> d_entries d' = (d_entries d)(q \<mapsto> e))"
proof (induction n arbitrary: d)
  case (Suc n)
  let ?q = "(fst p, (pre @ nat_digits (unat (d_random d (d_ops d)))) # snd p)"
  obtain x d1 where m: "newEntry e ?q d = (x, d1)" by (metis surj_pair)
  note eff = newEntry_effect[OF m]
  show ?case
  proof (cases x)
    case (Inl er)
    with eff have "d_entries d1 = d_entries d" by simp
    with walk_cong[OF this] Suc.IH[of d1] Suc.prems m Inl show ?thesis by (auto simp: Let_def split: if_splits)
  next
    case (Inr u)
    with eff Suc.prems m show ?thesis by (auto simp: Let_def)
  qed
qed auto

lemma Rename_effect:
  assumes "os_Rename p q d = (res, d')"
  shows "(\<forall>er. res = Inl er \<longrightarrow> d_entries d' = d_entries d) \<and>
    (res = Inr () \<longrightarrow> \<not> below p q \<and> (d_entries d q \<noteq> None \<longrightarrow> entryAt d p \<noteq> Some Dir) \<and> d_entries d' = d_entries (move p q (tick d)))"
  using assms unfolding os_Rename_def
  by (elim sys_cases inDir_cases) (auto simp: entryAt_def split: option.splits if_splits entry.splits)

lemma RemoveAll_touches: "os_RemoveAll p d = (res, d') \<Longrightarrow> touches (subtree p) d d'"
  unfolding os_RemoveAll_def by (elim sys_cases) (auto simp: touches_def)

lemma touches_inside_walk: "touches (inside (r, ys)) d d' \<Longrightarrow> walk d' r ys = walk d r ys"
proof -
  assume t: "touches (inside (r, ys)) d d'"
  have "walk d' r xs = walk d r xs" if "\<exists>zs. ys = zs @ xs" for xs using that
  proof (induction xs)
    case (Cons x xs)
    from Cons.prems obtain zs where z: "ys = zs @ x # xs" by blast
    then have "walk d' r xs = walk d r xs" using Cons.IH[OF exI[of _ "zs @ [x]"]] by simp
    moreover have "(r, x # xs) \<notin> inside (r, ys)" using z by (auto simp: inside_def below_iff dest: arg_cong[of _ _ length])
    then have "d_entries d' (r, x # xs) = d_entries d (r, x # xs)" by (rule touchesD[OF t])
    ultimately show ?case by (simp split: option.splits)
  qed simp
  then show ?thesis by simp
qed

section \<open>Well-formed trees\<close>

text \<open>Whatever exists lies in a directory.\<close>

definition disk_ok :: "disk \<Rightarrow> bool" where
  "disk_ok d \<longleftrightarrow> (\<forall>r c cs. d_entries d (r, c # cs) \<noteq> None \<longrightarrow> cs = [] \<or> d_entries d (r, cs) = Some Dir)"

lemma disk_ok_cong: "d_entries d' = d_entries d \<Longrightarrow> disk_ok d' = disk_ok d"
  by (simp add: disk_ok_def)

lemma disk_okD: "disk_ok d \<Longrightarrow> d_entries d (r, c # cs) \<noteq> None \<Longrightarrow> cs = [] \<or> d_entries d (r, cs) = Some Dir"
  unfolding disk_ok_def by blast

lemma entries_move_tick: "d_entries (move p q (tick d)) = d_entries (move p q d)"
  by (simp add: move_def d_entries_def tick_def)

lemma walk_Dir: "walk d r cs = None \<Longrightarrow> cs = [] \<or> d_entries d (r, cs) = Some Dir"
  by (cases cs) (auto split: option.splits entry.splits)

lemma disk_ok_below:
  assumes "disk_ok d" and "below p x" and "d_entries d x \<noteq> None" and "x \<noteq> p"
  shows "snd p = [] \<or> d_entries d p = Some Dir"
proof -
  obtain zs where x: "x = (fst p, zs @ snd p)" using assms(2) by (auto simp: below_iff)
  have "d_entries d (fst p, zs @ snd p) \<noteq> None \<Longrightarrow> zs \<noteq> [] \<Longrightarrow> snd p = [] \<or> d_entries d p = Some Dir"
  proof (induction zs)
    case (Cons z zs)
    then have "zs @ snd p = [] \<or> d_entries d (fst p, zs @ snd p) = Some Dir" using disk_okD[OF assms(1), of "fst p" z "zs @ snd p"] by simp
    with Cons.IH show ?case by (cases "zs = []") auto
  qed simp
  moreover have "zs \<noteq> []" using x assms(4) by (cases p) auto
  ultimately show ?thesis using assms(3) x by simp
qed

lemma disk_ok_put:
  assumes "disk_ok d" and "walk d (fst p) (tl (snd p)) = None" and "e = Dir \<or> d_entries d p \<noteq> Some Dir" and "snd p \<noteq> []"
    and "d_entries d' = (d_entries d)(p \<mapsto> e)"
  shows "disk_ok d'"
  unfolding disk_ok_def
proof (intro allI impI)
  fix r c cs assume x: "d_entries d' (r, c # cs) \<noteq> None"
  show "cs = [] \<or> d_entries d' (r, cs) = Some Dir"
  proof (cases "(r, c # cs) = p")
    case True
    then have "p = (r, c # cs)" by simp
    with walk_Dir[OF assms(2)] assms(5) show ?thesis by auto
  next
    case False
    then have "d_entries d (r, c # cs) \<noteq> None" using x assms(5) by auto
    then have "cs = [] \<or> d_entries d (r, cs) = Some Dir" using disk_okD[OF assms(1)] by blast
    then show ?thesis using assms(3,5) by auto
  qed
qed

lemma disk_ok_drop_below: "disk_ok d \<Longrightarrow> disk_ok (drop_below p d)"
proof -
  have b: "below p (r, c # cs)" if "below p (r, cs)" for r c cs
    using below_trans[OF that] by simp
  assume "disk_ok d"
  then show ?thesis using b by (fastforce simp: disk_ok_def)
qed

lemma disk_ok_newEntry: "newEntry e p d = (res, d') \<Longrightarrow> disk_ok d \<Longrightarrow> disk_ok d'"
  using newEntry_effect[of e p d res d'] disk_ok_put[of d p e d'] disk_ok_cong[of d' d] by (cases res) auto

lemma disk_ok_mkdirAll: "mkdirAll r cs d = (res, d') \<Longrightarrow> disk_ok d \<Longrightarrow> disk_ok d'"
proof (induction cs arbitrary: res d')
  case (Cons c cs)
  obtain x d1 where m: "mkdirAll r cs d = (x, d1)" by (metis surj_pair)
  with Cons.IH Cons.prems(2) have "disk_ok d1" by blast
  with Cons.prems(1) m disk_ok_newEntry[of Dir "(r, c # cs)" d1 res d'] show ?case
    by (auto split: sum.splits option.splits entry.splits)
qed simp

lemma disk_ok_append: "disk_ok d \<Longrightarrow> disk_ok (append p x d)"
proof (cases "\<exists>b. d_entries d p = Some (File b)")
  case True
  then obtain b where b: "d_entries d p = Some (File b)" by blast
  assume ok: "disk_ok d"
  show ?thesis
    unfolding disk_ok_def append_effect[OF b]
  proof (intro allI impI)
    fix r c cs assume "((d_entries d)(p \<mapsto> File (b @ x))) (r, c # cs) \<noteq> None"
    then have "d_entries d (r, c # cs) \<noteq> None" using b by (auto split: if_splits)
    from disk_okD[OF ok this] show "cs = [] \<or> ((d_entries d)(p \<mapsto> File (b @ x))) (r, cs) = Some Dir" using b by auto
  qed
next
  case False
  assume "disk_ok d"
  moreover have "append p x d = d" using False by (auto simp: append_def split: option.splits entry.splits)
  ultimately show ?thesis by simp
qed

lemma disk_ok_file_Write: "file_Write p x d = (res, d') \<Longrightarrow> disk_ok d \<Longrightarrow> disk_ok d'"
  using disk_ok_append[of "tick d" p] disk_ok_cong[of "tick d" d] by (auto simp: file_Write_def split: option.splits)

lemma disk_ok_WriteFile:
  assumes "os_WriteFile p x d = (res, d')" and "disk_ok d"
  shows "disk_ok d'"
proof -
  obtain c d1 where c: "os_Create p d = (c, d1)" by (metis surj_pair)
  have "d_entries d1 = d_entries d \<or> (walk d (fst p) (tl (snd p)) = None \<and> entryAt d p \<noteq> Some Dir \<and> d_entries d1 = (d_entries d)(p \<mapsto> File ''''))"
    using c unfolding os_Create_def by (elim sys_cases inDir_cases) (auto split: if_splits)
  then have ok1: "disk_ok d1" using assms(2) disk_ok_put[of d p "File ''''" d1] disk_ok_cong[of d1 d] by (auto simp: entryAt_def split: if_splits)
  obtain w d2 where w: "file_Write p x d1 = (w, d2)" by (metis surj_pair)
  obtain v d3 where v: "file_Close d2 = (v, d3)" by (metis surj_pair)
  have "disk_ok d3" using disk_ok_file_Write[OF w ok1] disk_ok_cong[OF file_Close_effect[OF v]] by simp
  then show ?thesis using assms(1) c w v ok1 by (auto simp: os_WriteFile_def split: sum.splits)
qed

lemma disk_ok_temp: "temp n e p pre d = (res, d') \<Longrightarrow> disk_ok d \<Longrightarrow> disk_ok d'"
proof (induction n arbitrary: d)
  case (Suc n)
  let ?q = "(fst p, (pre @ nat_digits (unat (d_random d (d_ops d)))) # snd p)"
  obtain x d1 where m: "newEntry e ?q d = (x, d1)" by (metis surj_pair)
  have "disk_ok d1" by (rule disk_ok_newEntry[OF m Suc.prems(2)])
  with Suc.IH[of d1] Suc.prems m show ?case by (auto simp: Let_def split: sum.splits if_splits)
qed simp

lemma disk_ok_RemoveAll: "os_RemoveAll p d = (res, d') \<Longrightarrow> disk_ok d \<Longrightarrow> disk_ok d'"
  using disk_ok_drop_below[of "tick d" p] disk_ok_cong[of "tick d" d] disk_ok_cong[of d' d]
  unfolding os_RemoveAll_def by (elim sys_cases) auto

lemma disk_ok_Rename:
  assumes "os_Rename p q d = (res, d')" and "disk_ok d"
  shows "disk_ok d'"
proof (cases "res = Inr ()")
  case False
  with Rename_effect[OF assms(1)] show ?thesis using assms(2) disk_ok_cong[of d' d] by (cases res) auto
next
  case True
  have q: "walk d (fst q) (tl (snd q)) = None \<and> snd q \<noteq> [] \<and> snd p \<noteq> [] \<and> \<not> below p q \<and> d_entries d' = d_entries (move p q d)"
    using assms(1) True unfolding os_Rename_def
    by (elim sys_cases inDir_cases) (auto simp: entryAt_def entries_move_tick split: option.splits if_splits entry.splits)
  show ?thesis
    unfolding disk_ok_def
  proof (intro allI impI)
    fix r c cs assume x: "d_entries d' (r, c # cs) \<noteq> None"
    show "cs = [] \<or> d_entries d' (r, cs) = Some Dir"
    proof (cases "below q (r, c # cs)")
      case False
      then have nb: "\<not> below q (r, cs)" using below_trans[of q "(r, cs)"] by auto
      have "\<not> below p (r, c # cs)" and e: "d_entries d (r, c # cs) \<noteq> None"
        using x q entries_move_other[OF False, of p d] by (auto split: if_splits)
      then have nbp: "\<not> below p (r, cs)" using below_trans[of p "(r, cs)"] by auto
      have "cs = [] \<or> d_entries d (r, cs) = Some Dir" using disk_okD[OF assms(2) e] .
      then show ?thesis using q entries_move_other[OF nb, of p d] nbp by auto
    next
      case True
      then obtain zs where z: "r = fst q" "c # cs = zs @ snd q" by (auto simp: below_iff)
      show ?thesis
      proof (cases zs)
        case Nil
        then have tl: "tl (snd q) = cs" using z(2) by (metis append_Nil list.sel(3))
        have "\<not> below q (r, cs)"
          using z Nil by (auto simp: below_def dest: arg_cong[of _ _ length])
        moreover have "\<not> below p (r, cs)" using q z Nil below_trans[of p "(r, cs)" "(r, c # cs)"] by (cases q) auto
        moreover have "cs = [] \<or> d_entries d (r, cs) = Some Dir" using q walk_Dir[of d "fst q" "tl (snd q)"] z(1) tl by simp
        ultimately show ?thesis using q entries_move_other[of q "(r, cs)" p d] by auto
      next
        case (Cons y ys)
        then have cs: "cs = ys @ snd q" using z by simp
        have "d_entries d (fst p, (y # ys) @ snd p) \<noteq> None" using x q z Cons entries_move_target[of p q d "y # ys"] by auto
        then have "ys @ snd p = [] \<or> d_entries d (fst p, ys @ snd p) = Some Dir" using disk_okD[OF assms(2), of "fst p" y "ys @ snd p"] by simp
        moreover have "d_entries d' (r, cs) = d_entries d (fst p, ys @ snd p)" using q z(1) cs entries_move_target[of p q d ys] by simp
        moreover have "snd p \<noteq> []" using q by simp
        ultimately show ?thesis by auto
      qed
    qed
  qed
qed

lemma Remove_effect:
  assumes "os_Remove p d = (res, d')"
  shows "(\<forall>er. res = Inl er \<longrightarrow> d_entries d' = d_entries d) \<and> (res = Inr () \<longrightarrow> d_entries d' = d_entries (drop_below p d))"
proof -
  have "d_entries (drop_below p (tick d)) = d_entries (drop_below p d)" by (simp add: fun_eq_iff)
  with assms show ?thesis unfolding os_Remove_def
    by (elim sys_cases inDir_cases) (auto split: option.splits if_splits entry.splits)
qed

lemma Remove_touches: "os_Remove p d = (res, d') \<Longrightarrow> touches (subtree p) d d'"
  using Remove_effect[of p d res d'] by (cases res) (auto simp: touches_def)

lemma file_Sync_effect: "file_Sync d = (res, d') \<Longrightarrow> d_entries d' = d_entries d"
  by (auto simp: file_Sync_def elim: sys_cases)

end
