(* ===== verification/Evidence.thy ===== *)
theory Evidence
  imports Sha256 Json Lifecycle Disk "HOL-Library.Multiset"
begin

text \<open>
  Evidence bundles, \<open>internal/evidence/bundle.go\<close>: validation of runs and artifacts, the search
  for secret material, and the manifest with its digests. Regular expressions are data of
  \<open>Regex\<close>; SHA-256 and JSON are those of \<open>Sha256\<close> and \<open>Json\<close>. The YAML decoder is a parameter:
  it returns the documents it read and whether it stopped at an error.
\<close>

section \<open>Patterns\<close>

text \<open>
  Case-insensitive literals: beside both cases of a letter, the flag \<open>(?i)\<close> also matches the two
  runes outside ASCII that fold to an ASCII letter, the long s and the Kelvin sign. Classes of
  bytes agree with the classes of runes of the source here, since each negated class stands at
  the end of its pattern and so only asks for one byte outside it.
\<close>

definition lit :: "char \<Rightarrow> rx" where "lit c = Cls [(c, c)]"

definition bytes_rx :: "nat list \<Rightarrow> rx" where
  "bytes_rx ns = rx_seqs (map (\<lambda>n. lit (char_of n)) ns)"

definition lower :: "char \<Rightarrow> char" where
  "lower c = (if 65 \<le> byte c \<and> byte c \<le> 90 then char_of (byte c + 32) else c)"

definition ci_char :: "char \<Rightarrow> rx" where
  "ci_char c = (let base = Cls [(lower c, lower c), (upper c, upper c)] in
     if lower c = CHR ''s'' then Alt base (bytes_rx [0xC5, 0xBF])
     else if lower c = CHR ''k'' then Alt base (bytes_rx [0xE2, 0x84, 0xAA])
     else base)"

definition ci :: "string \<Rightarrow> rx" where
  "ci s = rx_seqs (map ci_char s)"

definition ci_letter_space :: rx where
  "ci_letter_space = rx_alts [Cls [(CHR ''A'', CHR ''Z''), (CHR ''a'', CHR ''z''), (CHR '' '', CHR '' '')],
     bytes_rx [0xC5, 0xBF], bytes_rx [0xE2, 0x84, 0xAA]]"

definition blank :: rx where "blank = Cls [(CHR '' '', CHR '' ''), (CHR 0x09, CHR 0x09)]"

definition optquote :: rx where "optquote = rx_opt (Cls [(CHR 0x22, CHR 0x22), (CHR 0x27, CHR 0x27)])"

text \<open>Bytes outside \<open>[[:space:]"',}]\<close>, where the space class is tab to carriage return and blank.\<close>

definition value_byte :: rx where
  "value_byte = Cls [(CHR 0x00, CHR 0x08), (CHR 0x0E, CHR 0x1F), (CHR 0x21, CHR 0x21), (CHR 0x23, CHR 0x26),
     (CHR 0x28, CHR 0x2B), (CHR 0x2D, CHR 0x7C), (CHR 0x7E, CHR 0xFF)]"

definition dash :: rx where "dash = rx_opt (Cls [(CHR ''_'', CHR ''_''), (CHR ''-'', CHR ''-'')])"

definition secretPatterns :: "rx list" where
  "secretPatterns =
     [rx_seqs [ci ''-----BEGIN '', Star ci_letter_space, ci ''PRIVATE KEY-----''],
      rx_seqs [optquote, ci ''client-key-data'', optquote, Star blank, lit (CHR '':''), Star blank, optquote, rx_plus value_byte],
      rx_seqs [optquote,
        rx_alts [ci ''token'', ci ''password'', rx_seqs [ci ''client'', dash, ci ''secret''], rx_seqs [ci ''api'', dash, ci ''key''],
          rx_seqs [ci ''access'', dash, ci ''key''], rx_seqs [ci ''secret'', dash, ci ''key'']],
        optquote, Star blank, Cls [(CHR '':'', CHR '':''), (CHR ''='', CHR ''='')], Star blank, optquote, rx_plus value_byte],
      rx_seqs [ci ''authorization'', Star blank, lit (CHR '':''), Star blank, ci ''bearer'', rx_plus blank]]"

definition runIDPattern :: rx where
  "runIDPattern = Seq (Cls [(CHR ''a'', CHR ''z''), (CHR ''A'', CHR ''Z''), (CHR ''0'', CHR ''9'')])
     (rx_upto 127 (Cls [(CHR ''a'', CHR ''z''), (CHR ''A'', CHR ''Z''), (CHR ''0'', CHR ''9''), (CHR ''.'', CHR ''.''),
        (CHR ''_'', CHR ''_''), (CHR ''-'', CHR ''-'')]))"

section \<open>Runs, artifacts and manifests\<close>

definition SchemaVersion :: string where "SchemaVersion = ''oubliette-evidence/v1alpha1''"

definition requiredRunArtifacts :: "string list" where
  "requiredRunArtifacts = [''admission/kueue.json'', ''benchmark/inputs.json'', ''benchmark/results.json'', ''benchmark/stdout.txt'',
     ''collector/identity.json'', ''lineage/objects.json'', ''metrics/queries.json'', ''metrics/samples.json'', ''placement/pods.json'',
     ''profiles/resolved.json'', ''retention/policy.json'', ''source/rendered-manifests.yaml'', ''source/spec.json'',
     ''teardown/inventory.json'', ''transport/proof.json'', ''versions/components.json'']"

definition requiredArtifactFields :: "string \<Rightarrow> string list list" where
  "requiredArtifactFields name = (case map_of
     [(''admission/kueue.json'', [[''admitted'', ''workloads'', ''state'']]),
      (''benchmark/inputs.json'', [[''inputs'', ''parameters'', ''request'']]),
      (''benchmark/results.json'', [[''results'', ''metrics'', ''summary'']]),
      (''collector/identity.json'', [[''collector'', ''identity'']]),
      (''lineage/objects.json'', [[''objects'', ''lineage'']]),
      (''metrics/queries.json'', [[''queries'']]),
      (''metrics/samples.json'', [[''samples'', ''aggregates'']]),
      (''placement/pods.json'', [[''pods'']]),
      (''profiles/resolved.json'', [[''profiles'', ''resolved'']]),
      (''retention/policy.json'', [[''policy'', ''rawEvidenceDays'']]),
      (''source/spec.json'', [[''spec'', ''source'']]),
      (''teardown/inventory.json'', [[''inventory'', ''objects'']]),
      (''transport/proof.json'', [[''configuration'', ''config''], [''runtime'', ''evidence'']]),
      (''versions/components.json'', [[''components'', ''versions'']])] name of None \<Rightarrow> [] | Some g \<Rightarrow> g)"

text \<open>The profile generations are a Go map, \<open>None\<close> when nil, as an association list with distinct
  keys.\<close>

record Run =
  run_RunID :: string
  run_Oubliette :: string
  run_OublietteUID :: string
  run_ProfileGenerations :: "(string \<times> string) list option"
  run_IsolationScope :: string
  run_TrustDomain :: string
  run_WarmupStart :: time
  run_MeasurementStart :: time
  run_MeasurementEnd :: time
  run_ExportedAt :: time
  run_Outcome :: string
  run_InvalidationReason :: string

record InputArtifact =
  ia_Name :: string
  ia_MediaType :: string
  ia_Data :: string

record Artifact =
  af_Name :: string
  af_MediaType :: string
  af_SHA256 :: string
  af_Size :: int

record Manifest =
  mf_SchemaVersion :: string
  mf_BundleDigest :: string
  mf_Run :: Run
  mf_Artifacts :: "Artifact list"

record Bundle =
  bu_Manifest :: Manifest
  bu_ManifestBytes :: string
  bu_Files :: "(string \<times> string) list"

datatype evidence_err =
    IdentityIncomplete
  | TimestampsUnordered
  | ValidWithReason
  | InvalidWithoutReason
  | OutcomeUnknown
  | InvalidArtifactName string
  | SecretMaterial string
  | NotStructured string
  | SecretValues string
  | NulBytes string
  | DuplicateArtifact string
  | MarshalFailed
  | MissingArtifacts "string list"
  | RequiredEmpty string
  | RequiredMediaType string
  | RequiredInvalid string
  | NoRenderedObject string
  | FieldsMissing string

section \<open>YAML nodes\<close>

text \<open>
  A node of the decoder. Of the node an alias refers to the code reads its kind, tag, value and
  the number of its children, so an alias carries those (\<open>Target\<close>); the referenced node may
  enclose the alias.
\<close>

datatype ykind = DocumentNode | SequenceNode | MappingNode | ScalarNode | AliasNode | OtherNode

datatype target = Target ykind string string nat

datatype node = Node (n_Kind: ykind) (n_Tag: string) (n_Value: string) (n_Content: "node list") (n_Alias: "target option")

type_synonym yaml = "string \<Rightarrow> node list \<times> bool"

text \<open>The documents of the input, or an error when the decoder stopped before its end; a document
  without content is skipped.\<close>

definition decodeDocuments :: "yaml \<Rightarrow> string \<Rightarrow> node list option" where
  "decodeDocuments Y data = (case Y data of (docs, failed) \<Rightarrow>
     if failed then None else Some (concat (map (\<lambda>d. take 1 (n_Content d)) docs)))"

fun meaningfulTarget :: "target \<Rightarrow> bool" where
  "meaningfulTarget (Target k tag v n) =
     (if k = MappingNode \<or> k = SequenceNode then n > 0
      else if k = ScalarNode then tag \<noteq> ''!!null'' \<and> TrimSpace v \<noteq> '''' else False)"

definition meaningfulNode :: "node option \<Rightarrow> bool" where
  "meaningfulNode x = (case x of None \<Rightarrow> False | Some n \<Rightarrow>
     (case n_Kind n of
        MappingNode \<Rightarrow> n_Content n \<noteq> [] | SequenceNode \<Rightarrow> n_Content n \<noteq> []
      | ScalarNode \<Rightarrow> n_Tag n \<noteq> ''!!null'' \<and> TrimSpace (n_Value n) \<noteq> ''''
      | AliasNode \<Rightarrow> (case n_Alias n of None \<Rightarrow> False | Some t \<Rightarrow> meaningfulTarget t)
      | _ \<Rightarrow> False))"

fun memberValue :: "node list \<Rightarrow> string \<Rightarrow> node option" where
  "memberValue (k # v # rest) key = (if n_Value k = key then Some v else memberValue rest key)"
| "memberValue _ key = None"

definition mappingValue :: "node \<Rightarrow> string \<Rightarrow> node option" where
  "mappingValue n key = (if n_Kind n \<noteq> MappingNode then None else memberValue (n_Content n) key)"

text \<open>\<open>strings.EqualFold\<close> against a name of ASCII letters.\<close>

definition EqualFold :: "string \<Rightarrow> string \<Rightarrow> bool" where
  "EqualFold s t \<longleftrightarrow> foldName s = foldName t"

definition secretHere :: "node \<Rightarrow> bool" where
  "secretHere n \<longleftrightarrow> n_Kind n = MappingNode \<and>
     (case mappingValue n ''kind'' of None \<Rightarrow> False
      | Some k \<Rightarrow> n_Kind k = ScalarNode \<and> EqualFold (n_Value k) ''Secret'' \<and>
          list_ex (\<lambda>f. meaningfulNode (mappingValue n f)) [''data'', ''stringData''])"

fun secretObjectHasValues :: "node \<Rightarrow> bool" where
  "secretObjectHasValues (Node k tag v content al) =
     (secretHere (Node k tag v content al) \<or> list_ex secretObjectHasValues content)"

section \<open>Validation\<close>

definition isStructuredMediaType :: "string \<Rightarrow> bool" where
  "isStructuredMediaType t \<longleftrightarrow> t = ''application/json'' \<or> t = ''application/yaml'' \<or> t = ''text/yaml'' \<or>
     HasSuffix t ''+json'' \<or> HasSuffix t ''+yaml''"

definition validateRun :: "Run \<Rightarrow> evidence_err option" where
  "validateRun run =
     (if \<not> rx_matches runIDPattern (run_RunID run) \<or> run_Oubliette run = '''' \<or> run_OublietteUID run = '''' \<or>
         run_IsolationScope run = '''' \<or> run_TrustDomain run = '''' then Some IdentityIncomplete
      else if IsZero (run_WarmupStart run) \<or> IsZero (run_MeasurementStart run) \<or> IsZero (run_MeasurementEnd run) \<or>
         IsZero (run_ExportedAt run) \<or> run_MeasurementStart run < run_WarmupStart run \<or>
         run_MeasurementEnd run < run_MeasurementStart run \<or> run_ExportedAt run < run_MeasurementEnd run
        then Some TimestampsUnordered
      else if run_Outcome run = ''valid'' then
        (if run_InvalidationReason run \<noteq> '''' then Some ValidWithReason else None)
      else if run_Outcome run = ''invalid'' then
        (if TrimSpace (run_InvalidationReason run) = '''' then Some InvalidWithoutReason else None)
      else Some OutcomeUnknown)"

text \<open>Instants carry no zone, so converting to UTC is the identity.\<close>

definition normalizeRun :: "Run \<Rightarrow> Run" where
  "normalizeRun run = (case run_ProfileGenerations run of None \<Rightarrow> run\<lparr>run_ProfileGenerations := Some []\<rparr> | Some _ \<Rightarrow> run)"

definition validateArtifact :: "yaml \<Rightarrow> InputArtifact \<Rightarrow> evidence_err option" where
  "validateArtifact Y input =
     (let name = ia_Name input; data = ia_Data input in
      if name = '''' \<or> name \<noteq> path_Clean name \<or> path_IsAbs name \<or> HasPrefix name ''../'' \<or> ia_MediaType input = ''''
      then Some (InvalidArtifactName name)
      else if list_ex (\<lambda>p. rx_search p data) secretPatterns then Some (SecretMaterial name)
      else
        (let rest = (if CHR 0x00 \<in> set data \<and> HasPrefix (ia_MediaType input) ''text/'' then Some (NulBytes name) else None) in
         if isStructuredMediaType (ia_MediaType input) then
           (case decodeDocuments Y data of
              None \<Rightarrow> Some (NotStructured name)
            | Some docs \<Rightarrow> if list_ex secretObjectHasValues docs then Some (SecretValues name) else rest)
         else rest))"

definition groupPresent :: "node \<Rightarrow> string list \<Rightarrow> bool" where
  "groupPresent d alternatives = list_ex (\<lambda>f. meaningfulNode (mappingValue d f)) alternatives"

definition validateRequiredArtifact :: "yaml \<Rightarrow> InputArtifact \<Rightarrow> evidence_err option" where
  "validateRequiredArtifact Y input =
     (let name = ia_Name input in
      if name = ''benchmark/stdout.txt'' then
        (if TrimSpace (ia_Data input) = '''' then Some (RequiredEmpty name) else None)
      else if \<not> isStructuredMediaType (ia_MediaType input) then Some (RequiredMediaType name)
      else (case decodeDocuments Y (ia_Data input) of
        None \<Rightarrow> Some (RequiredInvalid name)
      | Some docs \<Rightarrow>
          if name = ''source/rendered-manifests.yaml'' then
            (if list_ex (\<lambda>d. meaningfulNode (mappingValue d ''kind'') \<and> meaningfulNode (mappingValue d ''metadata'')) docs
             then None else Some (NoRenderedObject name))
          else
            (let groups = requiredArtifactFields name in
             if list_ex (\<lambda>d. n_Kind d = MappingNode \<and> groups \<noteq> [] \<and> list_all (groupPresent d) groups) docs
             then None else Some (FieldsMissing name))))"

section \<open>The manifest as JSON\<close>

text \<open>\<open>time.Time\<close> is encoded in RFC 3339 with the nanoseconds that are not zero; years outside
  0..9999 are an error.\<close>

fun dropZeros :: "string \<Rightarrow> string" where
  "dropZeros s = rev (dropWhile (\<lambda>c. c = CHR ''0'') (rev s))"

definition FormatNano :: "time \<Rightarrow> string" where
  "FormatNano t =
     (let base = FormatRFC3339 t; ns = t mod 1000000000 in
      if ns = 0 then base else TrimSuffix base ''Z'' @ ''.'' @ dropZeros (digits 9 ns) @ ''Z'')"

definition timeJson :: "time \<Rightarrow> json option" where
  "timeJson t = (let (y, _, _) = civil (t div 1000000000 div 86400) in if y < 0 \<or> 9999 < y then None else Some (JStr (FormatNano t)))"

definition runJson :: "Run \<Rightarrow> json option" where
  "runJson run =
     (case (timeJson (run_WarmupStart run), timeJson (run_MeasurementStart run), timeJson (run_MeasurementEnd run),
            timeJson (run_ExportedAt run)) of
        (Some w, Some ms, Some me, Some ex) \<Rightarrow> Some (JObj
          ([(''runId'', JStr (run_RunID run)), (''oubliette'', JStr (run_Oubliette run)),
            (''oublietteUid'', JStr (run_OublietteUID run)),
            (''profileGenerations'', case run_ProfileGenerations run of None \<Rightarrow> JNull
               | Some m \<Rightarrow> JObj (map (\<lambda>x. (fst x, JStr (snd x))) (sort_key fst m))),
            (''isolationScope'', JStr (run_IsolationScope run)), (''trustDomain'', JStr (run_TrustDomain run)),
            (''warmupStart'', w), (''measurementStart'', ms), (''measurementEnd'', me), (''exportedAt'', ex),
            (''outcome'', JStr (run_Outcome run))] @
           (if run_InvalidationReason run = '''' then [] else [(''invalidationReason'', JStr (run_InvalidationReason run))])))
      | _ \<Rightarrow> None)"

definition artifactJson :: "Artifact \<Rightarrow> json" where
  "artifactJson a = JObj [(''name'', JStr (af_Name a)), (''mediaType'', JStr (af_MediaType a)), (''sha256'', JStr (af_SHA256 a)),
     (''size'', JNum (int_digits (af_Size a)))]"

definition manifestJson :: "Manifest \<Rightarrow> json option" where
  "manifestJson m = (case runJson (mf_Run m) of None \<Rightarrow> None | Some r \<Rightarrow> Some (JObj
     [(''schemaVersion'', JStr (mf_SchemaVersion m)), (''bundleDigest'', JStr (mf_BundleDigest m)), (''run'', r),
      (''artifacts'', JArr (map artifactJson (mf_Artifacts m)))]))"

text \<open>\<open>json.MarshalIndent\<close> with two blanks a level.\<close>

definition newline :: "nat \<Rightarrow> string" where
  "newline d = CHR 0x0A # replicate (2 * d) (CHR '' '')"

fun indent :: "nat \<Rightarrow> json \<Rightarrow> string"
  and indent_elems :: "nat \<Rightarrow> json list \<Rightarrow> string"
  and indent_members :: "nat \<Rightarrow> (string \<times> json) list \<Rightarrow> string" where
  "indent d (JArr vs) = (if vs = [] then ''[]'' else ''['' @ indent_elems (Suc d) vs @ newline d @ '']'')"
| "indent d (JObj ms) = (if ms = [] then ''{}'' else ''{'' @ indent_members (Suc d) ms @ newline d @ ''}'')"
| "indent d JNull = encode JNull"
| "indent d (JBool b) = encode (JBool b)"
| "indent d (JNum l) = encode (JNum l)"
| "indent d (JStr s) = encode (JStr s)"
| "indent_elems d [] = []"
| "indent_elems d (v # vs) = newline d @ indent d v @ (if vs = [] then [] else '','' @ indent_elems d vs)"
| "indent_members d [] = []"
| "indent_members d ((k, v) # ms) = newline d @ encode_string k @ '': '' @ indent d v @ (if ms = [] then [] else '','' @ indent_members d ms)"

section \<open>Building bundles\<close>

definition artifactOf :: "InputArtifact \<Rightarrow> Artifact" where
  "artifactOf i = \<lparr>af_Name = ia_Name i, af_MediaType = ia_MediaType i, af_SHA256 = hex_encode (sha256 (ia_Data i)),
     af_Size = int (length (ia_Data i))\<rparr>"

text \<open>The loop over the ordered inputs: the artifacts and files in their order. The names seen so far
  are those of the files.\<close>

fun addArtifacts :: "yaml \<Rightarrow> string list \<Rightarrow> InputArtifact list \<Rightarrow> evidence_err + Artifact list \<times> (string \<times> string) list" where
  "addArtifacts Y seen [] = Inr ([], [])"
| "addArtifacts Y seen (i # is) =
     (case validateArtifact Y i of
        Some e \<Rightarrow> Inl e
      | None \<Rightarrow>
          if ia_Name i \<in> set seen then Inl (DuplicateArtifact (ia_Name i))
          else (case addArtifacts Y (ia_Name i # seen) is of
            Inl e \<Rightarrow> Inl e
          | Inr (as, fs) \<Rightarrow> Inr (artifactOf i # as, (ia_Name i, ia_Data i) # fs)))"

definition Build :: "yaml \<Rightarrow> Run \<Rightarrow> InputArtifact list \<Rightarrow> evidence_err + Bundle" where
  "Build Y run inputs =
     (case validateRun run of
        Some e \<Rightarrow> Inl e
      | None \<Rightarrow>
          (case addArtifacts Y [] (sort_key ia_Name inputs) of
             Inl e \<Rightarrow> Inl e
           | Inr (as, fs) \<Rightarrow>
               (let m = \<lparr>mf_SchemaVersion = SchemaVersion, mf_BundleDigest = '''', mf_Run = normalizeRun run, mf_Artifacts = as\<rparr> in
                case manifestJson m of
                  None \<Rightarrow> Inl MarshalFailed
                | Some draft \<Rightarrow>
                    (let m' = m\<lparr>mf_BundleDigest := ''sha256:'' @ hex_encode (sha256 (encode draft))\<rparr> in
                     case manifestJson m' of
                       None \<Rightarrow> Inl MarshalFailed
                     | Some sealed \<Rightarrow> Inr \<lparr>bu_Manifest = m', bu_ManifestBytes = indent 0 sealed @ [CHR 0x0A], bu_Files = fs\<rparr>))))"

fun firstError :: "('a \<Rightarrow> 'e option) \<Rightarrow> 'a list \<Rightarrow> 'e option" where
  "firstError f [] = None"
| "firstError f (x # xs) = (case f x of Some e \<Rightarrow> Some e | None \<Rightarrow> firstError f xs)"

definition BuildRunBundle :: "yaml \<Rightarrow> Run \<Rightarrow> InputArtifact list \<Rightarrow> evidence_err + Bundle" where
  "BuildRunBundle Y run inputs =
     (let names = map ia_Name inputs; missing = filter (\<lambda>r. r \<notin> set names) requiredRunArtifacts in
      if missing \<noteq> [] then Inl (MissingArtifacts missing)
      else (case firstError (\<lambda>i. if ia_Name i \<in> set requiredRunArtifacts then validateRequiredArtifact Y i else None) inputs of
        Some e \<Rightarrow> Inl e
      | None \<Rightarrow> Build Y run inputs))"

section \<open>What an accepted bundle contains\<close>

lemma addArtifacts_Inr:
  "addArtifacts Y seen is = Inr (as, fs) \<longleftrightarrow> (\<forall>i \<in> set is. validateArtifact Y i = None) \<and> distinct (map ia_Name is) \<and>
     set seen \<inter> ia_Name ` set is = {} \<and> as = map artifactOf is \<and> fs = map (\<lambda>i. (ia_Name i, ia_Data i)) is"
proof (induction "is" arbitrary: seen as fs)
  case (Cons i "is")
  show ?case
  proof (cases "validateArtifact Y i = None \<and> ia_Name i \<notin> set seen")
    case True
    then have "addArtifacts Y seen (i # is) = Inr (as, fs) \<longleftrightarrow> (\<exists>as' fs'. addArtifacts Y (ia_Name i # seen) is = Inr (as', fs') \<and>
        as = artifactOf i # as' \<and> fs = (ia_Name i, ia_Data i) # fs')"
      by (auto split: sum.splits prod.splits)
    also have "\<dots> \<longleftrightarrow> (\<forall>j \<in> set is. validateArtifact Y j = None) \<and> distinct (map ia_Name is) \<and>
        set (ia_Name i # seen) \<inter> ia_Name ` set is = {} \<and> as = artifactOf i # map artifactOf is \<and>
        fs = (ia_Name i, ia_Data i) # map (\<lambda>i. (ia_Name i, ia_Data i)) is"
      unfolding Cons.IH by blast
    finally show ?thesis using True by auto
  next
    case False
    then show ?thesis by (auto split: option.splits)
  qed
qed auto

lemma sort_key_unique:
  assumes "mset xs = mset ys" and "distinct (map f xs)"
  shows "sort_key f xs = sort_key f ys"
proof (rule sort_key_inj_key_eq)
  show "mset xs = mset (sort_key f ys)" using assms(1) by simp
  show "inj_on f (set xs)" using assms(2) by (simp add: distinct_map)
  show "sorted (map f (sort_key f ys))" by simp
qed

lemma Build_Inr:
  "Build Y run inputs = Inr b \<longleftrightarrow> validateRun run = None \<and> (\<forall>i \<in> set inputs. validateArtifact Y i = None) \<and>
     distinct (map ia_Name inputs) \<and>
     (\<exists>draft sealed. let m = \<lparr>mf_SchemaVersion = SchemaVersion, mf_BundleDigest = '''', mf_Run = normalizeRun run,
          mf_Artifacts = map artifactOf (sort_key ia_Name inputs)\<rparr>;
        m' = m\<lparr>mf_BundleDigest := ''sha256:'' @ hex_encode (sha256 (encode draft))\<rparr> in
        manifestJson m = Some draft \<and> manifestJson m' = Some sealed \<and>
        b = \<lparr>bu_Manifest = m', bu_ManifestBytes = indent 0 sealed @ [CHR 0x0A],
             bu_Files = map (\<lambda>i. (ia_Name i, ia_Data i)) (sort_key ia_Name inputs)\<rparr>)"
proof -
  have d: "distinct (map ia_Name (sort_key ia_Name inputs)) = distinct (map ia_Name inputs)"
    by (simp add: distinct_map)
  note a = addArtifacts_Inr[of Y "[]" "sort_key ia_Name inputs", unfolded d set_sort]
  show ?thesis
  proof (cases "addArtifacts Y [] (sort_key ia_Name inputs)")
    case (Inl e)
    with a show ?thesis by (auto simp: Build_def split: option.splits)
  next
    case (Inr p)
    then obtain as fs where p: "addArtifacts Y [] (sort_key ia_Name inputs) = Inr (as, fs)" by (cases p) auto
    with a[of as fs] have q: "\<forall>i \<in> set inputs. validateArtifact Y i = None" "distinct (map ia_Name inputs)"
      "as = map artifactOf (sort_key ia_Name inputs)" "fs = map (\<lambda>i. (ia_Name i, ia_Data i)) (sort_key ia_Name inputs)" by auto
    show ?thesis using p q(1,2) unfolding Build_def q(3,4) by (auto simp: Let_def split: option.splits)
  qed
qed

text \<open>C32: the manifest of a bundle lists exactly the inputs, ordered by name, each with the SHA-256 and the size of
  its bytes; the files are those bytes under distinct names, and the bundle digest is the SHA-256 of the
  JSON of the manifest with an empty digest.\<close>

theorem bundle_manifest_exact:
  assumes "Build Y run inputs = Inr b"
  shows "distinct (map ia_Name inputs) \<and>
    mf_Artifacts (bu_Manifest b) = map (\<lambda>i. \<lparr>af_Name = ia_Name i, af_MediaType = ia_MediaType i, af_SHA256 = hex_encode (sha256 (ia_Data i)),
      af_Size = int (length (ia_Data i))\<rparr>) (sort_key ia_Name inputs) \<and>
    sorted (map af_Name (mf_Artifacts (bu_Manifest b))) \<and> mf_Run (bu_Manifest b) = normalizeRun run \<and>
    (\<forall>i \<in> set inputs. map_of (bu_Files b) (ia_Name i) = Some (ia_Data i)) \<and> dom (map_of (bu_Files b)) = ia_Name ` set inputs \<and>
    (\<exists>draft. manifestJson ((bu_Manifest b)\<lparr>mf_BundleDigest := ''''\<rparr>) = Some draft \<and>
       mf_BundleDigest (bu_Manifest b) = ''sha256:'' @ hex_encode (sha256 (encode draft)))"
proof -
  have name: "map af_Name (map artifactOf xs) = map ia_Name xs" for xs by (simp add: artifactOf_def)
  from assms[unfolded Build_Inr Let_def] have d: "distinct (map ia_Name inputs)"
    and as: "mf_Artifacts (bu_Manifest b) = map artifactOf (sort_key ia_Name inputs)" and r: "mf_Run (bu_Manifest b) = normalizeRun run"
    and fs: "bu_Files b = map (\<lambda>i. (ia_Name i, ia_Data i)) (sort_key ia_Name inputs)"
    and dg: "\<exists>draft. manifestJson ((bu_Manifest b)\<lparr>mf_BundleDigest := ''''\<rparr>) = Some draft \<and>
       mf_BundleDigest (bu_Manifest b) = ''sha256:'' @ hex_encode (sha256 (encode draft))" by auto
  have "distinct (map fst (bu_Files b))" using d by (simp add: fs distinct_map comp_def inj_on_def)
  moreover have "i \<in> set inputs \<Longrightarrow> (ia_Name i, ia_Data i) \<in> set (bu_Files b)" for i by (auto simp: fs)
  ultimately have "\<forall>i \<in> set inputs. map_of (bu_Files b) (ia_Name i) = Some (ia_Data i)" by simp
  moreover have "dom (map_of (bu_Files b)) = ia_Name ` set inputs" by (simp add: fs dom_map_of_conv_image_fst image_image)
  moreover have "sorted (map af_Name (mf_Artifacts (bu_Manifest b)))" unfolding as name by simp
  ultimately show ?thesis using d as[unfolded artifactOf_def[abs_def]] r dg by blast
qed

text \<open>C33: the order in which artifacts are handed in does not matter: any permutation gives the same bundle, with the same
  bytes and digest.\<close>

theorem bundle_order_independent:
  assumes "Build Y run inputs = Inr b" and "mset inputs' = mset inputs"
  shows "Build Y run inputs' = Inr b"
proof -
  have s: "set inputs' = set inputs" using assms(2) by (metis set_mset_mset)
  have d: "distinct (map ia_Name inputs)" using assms(1) by (simp add: Build_Inr)
  have "mset (map ia_Name inputs') = mset (map ia_Name inputs)" using assms(2) by simp
  then have d': "distinct (map ia_Name inputs')" using d by (metis mset_eq_imp_distinct_iff)
  have "sort_key ia_Name inputs' = sort_key ia_Name inputs" by (rule sort_key_unique[OF assms(2) d'])
  then show ?thesis using assms(1) d' unfolding Build_Inr s by simp
qed

section \<open>A reading of documents and of secrets\<close>

text \<open>What the claims below mean, apart from the code's own recognisers. A mapping node lists its keys and values in turn, and the first value of a
  key counts. A value has content when it is a collection with elements, a scalar that is neither null nor blank, or an alias of one of these.
  \<open>occurs\<close> is occurrence at any depth.\<close>

fun members :: "node list \<Rightarrow> (string \<times> node) list" where
  "members (k # v # rest) = (n_Value k, v) # members rest"
| "members _ = []"

definition content :: "ykind \<Rightarrow> string \<Rightarrow> string \<Rightarrow> nat \<Rightarrow> bool" where
  "content k tag v n \<longleftrightarrow> (k = MappingNode \<or> k = SequenceNode) \<and> 0 < n \<or> k = ScalarNode \<and> tag \<noteq> ''!!null'' \<and> TrimSpace v \<noteq> ''''"

definition hasContent :: "node \<Rightarrow> bool" where
  "hasContent v \<longleftrightarrow> content (n_Kind v) (n_Tag v) (n_Value v) (length (n_Content v)) \<or>
     n_Kind v = AliasNode \<and> (\<exists>k tag x n. n_Alias v = Some (Target k tag x n) \<and> content k tag x n)"

definition hasField :: "node \<Rightarrow> string \<Rightarrow> bool" where
  "hasField m f \<longleftrightarrow> n_Kind m = MappingNode \<and> (\<exists>v. map_of (members (n_Content m)) f = Some v \<and> hasContent v)"


lemma memberValue_members: "memberValue xs key = map_of (members xs) key"
  by (induction xs key rule: memberValue.induct) simp_all

lemma meaningful_content: "meaningfulNode (Some v) \<longleftrightarrow> hasContent v"
proof -
  have t: "meaningfulTarget (Target k tag x n) \<longleftrightarrow> content k tag x n" for k tag x n by (auto simp: content_def)
  show ?thesis
    by (cases "n_Kind v"; cases "n_Alias v") (auto simp: meaningfulNode_def hasContent_def content_def, (metis t target.exhaust content_def)+)
qed

lemma meaningful_field: "meaningfulNode (mappingValue m f) \<longleftrightarrow> hasField m f"
proof (cases "mappingValue m f")
  case None
  then show ?thesis by (auto simp: mappingValue_def hasField_def memberValue_members meaningfulNode_def split: if_splits)
next
  case (Some v)
  then show ?thesis using meaningful_content[of v] by (auto simp: mappingValue_def hasField_def memberValue_members split: if_splits)
qed
















section \<open>Names and secrets\<close>


lemma firstError_None: "firstError f xs = None \<longleftrightarrow> (\<forall>x \<in> set xs. f x = None)"
  by (induction xs) (auto split: option.splits)

text \<open>A required artifact that passes has its fields with content in one document.\<close>

lemma required_fields:
  assumes "validateRequiredArtifact Y i = None" and "ia_Name i \<noteq> ''benchmark/stdout.txt''"
    and "groups = (if ia_Name i = ''source/rendered-manifests.yaml'' then [[''kind''], [''metadata'']] else requiredArtifactFields (ia_Name i))"
  shows "\<exists>docs d. decodeDocuments Y (ia_Data i) = Some docs \<and> d \<in> set docs \<and> (\<forall>g \<in> set groups. \<exists>f \<in> set g. hasField d f)"
  using assms
  by (auto simp: validateRequiredArtifact_def Let_def groupPresent_def meaningful_field list_ex_iff list_all_iff split: if_splits option.splits)

text \<open>C34: a run bundle is complete. Every artifact of the portable provenance set is an input recorded in the manifest with the SHA-256 and the
  size of its bytes; the output of the benchmark is not blank; each of the others decodes, and one of its documents is a mapping in which, for every
  group of alternative fields listed below for its name, one of the alternatives has content.\<close>

theorem run_bundle_complete:
  assumes "BuildRunBundle Y run inputs = Inr b"
  shows "(\<forall>(name, groups) \<in> set
      [(''admission/kueue.json'', [[''admitted'', ''workloads'', ''state'']]), (''benchmark/inputs.json'', [[''inputs'', ''parameters'', ''request'']]),
       (''benchmark/results.json'', [[''results'', ''metrics'', ''summary'']]), (''collector/identity.json'', [[''collector'', ''identity'']]),
       (''lineage/objects.json'', [[''objects'', ''lineage'']]), (''metrics/queries.json'', [[''queries'']]),
       (''metrics/samples.json'', [[''samples'', ''aggregates'']]), (''placement/pods.json'', [[''pods'']]),
       (''profiles/resolved.json'', [[''profiles'', ''resolved'']]), (''retention/policy.json'', [[''policy'', ''rawEvidenceDays'']]),
       (''source/rendered-manifests.yaml'', [[''kind''], [''metadata'']]), (''source/spec.json'', [[''spec'', ''source'']]),
       (''teardown/inventory.json'', [[''inventory'', ''objects'']]),
       (''transport/proof.json'', [[''configuration'', ''config''], [''runtime'', ''evidence'']]),
       (''versions/components.json'', [[''components'', ''versions'']])].
      \<exists>i \<in> set inputs. \<lparr>af_Name = name, af_MediaType = ia_MediaType i, af_SHA256 = hex_encode (sha256 (ia_Data i)), af_Size = int (length (ia_Data i))\<rparr>
          \<in> set (mf_Artifacts (bu_Manifest b)) \<and>
        (\<exists>docs d. decodeDocuments Y (ia_Data i) = Some docs \<and> d \<in> set docs \<and> (\<forall>g \<in> set groups. \<exists>f \<in> set g. hasField d f))) \<and>
    (\<exists>i \<in> set inputs. \<lparr>af_Name = ''benchmark/stdout.txt'', af_MediaType = ia_MediaType i, af_SHA256 = hex_encode (sha256 (ia_Data i)),
        af_Size = int (length (ia_Data i))\<rparr> \<in> set (mf_Artifacts (bu_Manifest b)) \<and> TrimSpace (ia_Data i) \<noteq> '''')"
proof -
  from assms have missing: "filter (\<lambda>r. r \<notin> set (map ia_Name inputs)) requiredRunArtifacts = []"
    and none: "firstError (\<lambda>i. if ia_Name i \<in> set requiredRunArtifacts then validateRequiredArtifact Y i else None) inputs = None"
    and build: "Build Y run inputs = Inr b"
    unfolding BuildRunBundle_def Let_def by (auto split: if_splits option.splits)
  have arts: "set (mf_Artifacts (bu_Manifest b)) = artifactOf ` set inputs" using build by (auto simp: Build_Inr Let_def)
  have found: "\<exists>i \<in> set inputs. ia_Name i = r \<and> validateRequiredArtifact Y i = None \<and> \<lparr>af_Name = r, af_MediaType = ia_MediaType i,
      af_SHA256 = hex_encode (sha256 (ia_Data i)), af_Size = int (length (ia_Data i))\<rparr> \<in> set (mf_Artifacts (bu_Manifest b))"
    if r: "r \<in> set requiredRunArtifacts" for r
  proof -
    from missing r obtain i where i: "i \<in> set inputs" "ia_Name i = r" unfolding filter_empty_conv by auto
    with none r have "validateRequiredArtifact Y i = None" by (auto simp: firstError_None split: if_splits)
    moreover have "artifactOf i \<in> set (mf_Artifacts (bu_Manifest b))" using arts i(1) by blast
    ultimately show ?thesis using i by (auto simp: artifactOf_def)
  qed
  have structured: "\<exists>i \<in> set inputs. \<lparr>af_Name = r, af_MediaType = ia_MediaType i, af_SHA256 = hex_encode (sha256 (ia_Data i)),
        af_Size = int (length (ia_Data i))\<rparr> \<in> set (mf_Artifacts (bu_Manifest b)) \<and>
      (\<exists>docs d. decodeDocuments Y (ia_Data i) = Some docs \<and> d \<in> set docs \<and> (\<forall>g \<in> set groups. \<exists>f \<in> set g. hasField d f))"
    if "r \<in> set requiredRunArtifacts" "r \<noteq> ''benchmark/stdout.txt''"
      "groups = (if r = ''source/rendered-manifests.yaml'' then [[''kind''], [''metadata'']] else requiredArtifactFields r)" for r groups
    using found[OF that(1)] required_fields[of Y _ groups] that(2,3) by blast
  have stdout: "\<exists>i \<in> set inputs. \<lparr>af_Name = ''benchmark/stdout.txt'', af_MediaType = ia_MediaType i, af_SHA256 = hex_encode (sha256 (ia_Data i)),
      af_Size = int (length (ia_Data i))\<rparr> \<in> set (mf_Artifacts (bu_Manifest b)) \<and> TrimSpace (ia_Data i) \<noteq> ''''"
    using found[of "''benchmark/stdout.txt''"] by (auto simp: requiredRunArtifacts_def validateRequiredArtifact_def split: if_splits)
  have tabled: "(\<forall>(name, groups) \<in> set table. name \<in> set requiredRunArtifacts \<and> name \<noteq> ''benchmark/stdout.txt'' \<and>
      groups = (if name = ''source/rendered-manifests.yaml'' then [[''kind''], [''metadata'']] else requiredArtifactFields name)) \<Longrightarrow>
    \<forall>(name, groups) \<in> set table. \<exists>i \<in> set inputs. \<lparr>af_Name = name, af_MediaType = ia_MediaType i, af_SHA256 = hex_encode (sha256 (ia_Data i)),
        af_Size = int (length (ia_Data i))\<rparr> \<in> set (mf_Artifacts (bu_Manifest b)) \<and>
      (\<exists>docs d. decodeDocuments Y (ia_Data i) = Some docs \<and> d \<in> set docs \<and> (\<forall>g \<in> set groups. \<exists>f \<in> set g. hasField d f))" for table
    using structured by fast
  show ?thesis by (rule conjI[OF tabled stdout]) code_simp
qed

section \<open>Two inputs the checks let through\<close>

text \<open>A string shorter than every word of a pattern has no match.\<close>

primrec min_len :: "rx \<Rightarrow> nat" where
  "min_len Zero = 0"
| "min_len Eps = 0"
| "min_len (Cls rs) = 1"
| "min_len (Alt r s) = min (min_len r) (min_len s)"
| "min_len (Seq r s) = min_len r + min_len s"
| "min_len (Star r) = 0"

lemma min_len_le: "w \<in> rx_lang r \<Longrightarrow> min_len r \<le> length w"
  by (induction r arbitrary: w) (fastforce intro: add_mono)+

lemma rx_search_short: "length s < min_len r \<Longrightarrow> \<not> rx_search r s"
  using min_len_le by (fastforce simp: rx_search_iff)

lemma min_len_seqs: "min_len (rx_seqs rs) = sum_list (map min_len rs)"
  by (induction rs rule: rx_seqs.induct) simp_all

lemma min_len_ci: "min_len (ci s) = length s"
proof -
  have "min_len (ci_char c) = 1" for c by (simp add: ci_char_def bytes_rx_def lit_def Let_def)
  then show ?thesis by (simp add: ci_def min_len_seqs comp_def sum_list_triv)
qed

lemma secretPatterns_min: "list_all (\<lambda>p. 2 < min_len p) secretPatterns"
  by (simp add: secretPatterns_def min_len_seqs min_len_ci optquote_def dash_def rx_opt_def rx_plus_def lit_def blank_def value_byte_def)

lemma short_clean: "length s \<le> 2 \<Longrightarrow> \<not> list_ex (\<lambda>p. rx_search p s) secretPatterns"
  using secretPatterns_min rx_search_short by (fastforce simp: list_ex_iff list_all_iff)

text \<open>
  A manifest whose \<open>kind\<close> is an alias of an anchored \<open>Secret\<close> carries values and is not recognised:
  only a scalar \<open>kind\<close> is.
\<close>

definition scalar :: "string \<Rightarrow> node" where
  "scalar v = Node ScalarNode ''!!str'' v [] None"

definition alias_secret :: node where
  "alias_secret = Node MappingNode ''!!map'' ''''
     [scalar ''x'', scalar ''Secret'', scalar ''kind'', Node AliasNode '''' ''k'' [] (Some (Target ScalarNode ''!!str'' ''Secret'' 0)),
      scalar ''data'', Node MappingNode ''!!map'' '''' [scalar ''key'', scalar ''c2VjcmV0''] None] None"

theorem alias_secret_accepted: "\<not> secretObjectHasValues alias_secret"
  by (simp add: alias_secret_def scalar_def secretHere_def mappingValue_def)

text \<open>An artifact may be called \<open>manifest.json\<close>, the name the store keeps the manifest under.\<close>

theorem manifest_name_accepted:
  "validateArtifact Y \<lparr>ia_Name = ''manifest.json'', ia_MediaType = ''text/plain'', ia_Data = ''x''\<rparr> = None"
proof -
  have "''manifest.json'' = path_Clean ''manifest.json''" "\<not> path_IsAbs ''manifest.json''" "\<not> HasPrefix ''manifest.json'' ''../''"
    "\<not> isStructuredMediaType ''text/plain''" by code_simp+
  then show ?thesis using short_clean[of "''x''"] by (simp add: validateArtifact_def)
qed

section \<open>Witnesses\<close>

definition demo_run :: Run where
  "demo_run = \<lparr>run_RunID = ''r1'', run_Oubliette = ''a'', run_OublietteUID = ''uid-a'', run_ProfileGenerations = None,
     run_IsolationScope = ''pod'', run_TrustDomain = ''td'', run_WarmupStart = 0, run_MeasurementStart = 1000000000,
     run_MeasurementEnd = 2000000000, run_ExportedAt = 3000000000, run_Outcome = ''valid'', run_InvalidationReason = ''''\<rparr>"

definition demo_input :: "string \<Rightarrow> InputArtifact" where
  "demo_input n = \<lparr>ia_Name = n, ia_MediaType = ''text/plain'', ia_Data = ''ok''\<rparr>"

lemma demo_run_valid: "validateRun demo_run = None"
proof -
  have "rx_matches runIDPattern ''r1''" by code_simp
  then show ?thesis by (simp add: validateRun_def demo_run_def IsZero_def zeroTime_def)
qed

lemma demo_clean: "\<not> list_ex (\<lambda>p. rx_search p ''ok'') secretPatterns" by (rule short_clean) simp

lemma demo_input_valid: "n \<in> {''b.txt'', ''a.txt''} \<Longrightarrow> validateArtifact Y (demo_input n) = None"
proof -
  assume n: "n \<in> {''b.txt'', ''a.txt''}"
  have "''b.txt'' = path_Clean ''b.txt''" "''a.txt'' = path_Clean ''a.txt''" "\<not> path_IsAbs ''a.txt''" "\<not> path_IsAbs ''b.txt''"
    "\<not> HasPrefix ''a.txt'' ''../''" "\<not> HasPrefix ''b.txt'' ''../''" "\<not> isStructuredMediaType ''text/plain''" by code_simp+
  with n demo_clean show ?thesis by (auto simp: validateArtifact_def demo_input_def)
qed

lemma runJson_demo: "\<exists>r. runJson (normalizeRun demo_run) = Some r"
proof -
  have "timeJson 0 \<noteq> None" "timeJson 1000000000 \<noteq> None" "timeJson 2000000000 \<noteq> None" "timeJson 3000000000 \<noteq> None"
    by code_simp+
  then show ?thesis by (auto simp: runJson_def normalizeRun_def demo_run_def)
qed

lemma Build_ok:
  assumes "validateRun run = None" and "\<forall>i \<in> set inputs. validateArtifact Y i = None" and "distinct (map ia_Name inputs)"
    and "runJson (normalizeRun run) = Some r"
  shows "\<exists>b. Build Y run inputs = Inr b"
proof -
  have "distinct (map ia_Name (sort_key ia_Name inputs))" using assms(3) by (simp add: distinct_map)
  then have "addArtifacts Y [] (sort_key ia_Name inputs) =
      Inr (map artifactOf (sort_key ia_Name inputs), map (\<lambda>i. (ia_Name i, ia_Data i)) (sort_key ia_Name inputs))"
    using assms(2) by (simp add: addArtifacts_Inr)
  then show ?thesis using assms(1,4) by (simp add: Build_def manifestJson_def Let_def)
qed

text \<open>A decoder that finds no document.\<close>

definition plain_yaml :: yaml where "plain_yaml s = ([], False)"

lemma demo_build: "\<exists>b. Build Y demo_run [demo_input ''b.txt'', demo_input ''a.txt''] = Inr b"
proof -
  have "distinct (map ia_Name [demo_input ''b.txt'', demo_input ''a.txt''])" by (simp add: demo_input_def)
  moreover have "\<forall>i \<in> set [demo_input ''b.txt'', demo_input ''a.txt'']. validateArtifact Y i = None" using demo_input_valid by simp
  ultimately show ?thesis using Build_ok[OF demo_run_valid] runJson_demo by blast
qed

theorem bundle_manifest_exact_witness:
  "\<exists>b. Build plain_yaml demo_run [demo_input ''b.txt'', demo_input ''a.txt''] = Inr b \<and>
     map_of (bu_Files b) ''a.txt'' = Some ''ok'' \<and> length (mf_Artifacts (bu_Manifest b)) = 2"
proof -
  obtain b where b: "Build plain_yaml demo_run [demo_input ''b.txt'', demo_input ''a.txt''] = Inr b" using demo_build by blast
  from bundle_manifest_exact[OF b] b show ?thesis by (auto simp: demo_input_def)
qed

theorem bundle_order_independent_witness:
  "\<exists>b. Build plain_yaml demo_run [demo_input ''b.txt'', demo_input ''a.txt''] = Inr b \<and>
     Build plain_yaml demo_run [demo_input ''a.txt'', demo_input ''b.txt''] = Inr b"
proof -
  obtain b where b: "Build plain_yaml demo_run [demo_input ''b.txt'', demo_input ''a.txt''] = Inr b" using demo_build by blast
  have "mset [demo_input ''a.txt'', demo_input ''b.txt''] = mset [demo_input ''b.txt'', demo_input ''a.txt'']" by simp
  from bundle_order_independent[OF b this] b show ?thesis by blast
qed


text \<open>A complete run, with one document that carries all the fields for every structured artifact.\<close>

definition field_names :: "string list" where
  "field_names = [''state'', ''request'', ''summary'', ''identity'', ''lineage'', ''queries'', ''aggregates'', ''pods'', ''resolved'', ''policy'', ''source'',
      ''objects'', ''config'', ''evidence'', ''versions'', ''kind'', ''metadata'']"

definition all_fields :: node where
  "all_fields = Node MappingNode ''!!map'' '''' (concat (map (\<lambda>f. [scalar f, scalar ''v'']) field_names)) None"

lemma memberValue_fields: "f \<in> set fs \<Longrightarrow> memberValue (concat (map (\<lambda>f. [scalar f, x]) fs)) f = Some x"
  by (induction fs) (auto simp: scalar_def)

definition demo_yaml :: yaml where
  "demo_yaml s = ([Node DocumentNode '''' '''' [all_fields] None], False)"

definition demo_required :: "InputArtifact list" where
  "demo_required = map (\<lambda>n. \<lparr>ia_Name = n, ia_MediaType = if n = ''benchmark/stdout.txt'' then ''text/plain'' else ''application/json'', ia_Data = ''ok''\<rparr>)
     requiredRunArtifacts"

lemma demo_required_valid: "\<forall>i \<in> set demo_required. validateArtifact demo_yaml i = None"
proof -
  have n: "\<forall>n \<in> set requiredRunArtifacts. n \<noteq> '''' \<and> n = path_Clean n \<and> \<not> path_IsAbs n \<and> \<not> HasPrefix n ''../''" by code_simp
  have d: "decodeDocuments demo_yaml s = Some [all_fields]" for s by (simp add: decodeDocuments_def demo_yaml_def)
  have s: "\<not> secretObjectHasValues all_fields" by code_simp
  show ?thesis using n demo_clean d s
    by (auto simp: demo_required_def validateArtifact_def isStructuredMediaType_def Let_def HasPrefix_def)
qed

lemma demo_field: "f \<in> set field_names \<Longrightarrow> meaningfulNode (mappingValue all_fields f)"
proof -
  assume f: "f \<in> set field_names"
  have "TrimSpace ''v'' \<noteq> ''''" by code_simp
  then have "meaningfulNode (Some (scalar ''v''))" by (simp add: meaningfulNode_def scalar_def)
  moreover have "mappingValue all_fields f = Some (scalar ''v'')" using memberValue_fields[OF f]
    by (simp add: mappingValue_def all_fields_def)
  ultimately show ?thesis by simp
qed


lemma demo_groups:
  assumes "n \<in> set requiredRunArtifacts" and "n \<noteq> ''benchmark/stdout.txt''" and "n \<noteq> ''source/rendered-manifests.yaml''"
  shows "requiredArtifactFields n \<noteq> [] \<and> list_all (groupPresent all_fields) (requiredArtifactFields n)"
  using assms unfolding requiredRunArtifacts_def list.set
  by (elim insertE emptyE) (simp_all add: requiredArtifactFields_def groupPresent_def demo_field field_names_def)

lemma demo_required_fields: "firstError (\<lambda>i. if ia_Name i \<in> set requiredRunArtifacts then validateRequiredArtifact demo_yaml i else None)
    demo_required = None"
proof -
  have ok: "TrimSpace ''ok'' \<noteq> ''''" by code_simp
  have d: "decodeDocuments demo_yaml s = Some [all_fields]" for s by (simp add: decodeDocuments_def demo_yaml_def)
  have k: "n_Kind all_fields = MappingNode" by (simp add: all_fields_def)
  have kinds: "''kind'' \<in> set field_names" "''metadata'' \<in> set field_names" by (simp_all add: field_names_def)
  have "validateRequiredArtifact demo_yaml i = None" if "i \<in> set demo_required" for i
  proof -
    from that obtain n where n: "n \<in> set requiredRunArtifacts" "i = \<lparr>ia_Name = n,
        ia_MediaType = if n = ''benchmark/stdout.txt'' then ''text/plain'' else ''application/json'', ia_Data = ''ok''\<rparr>"
      unfolding demo_required_def by auto
    show ?thesis using ok demo_groups[OF n(1)] demo_field[of "''kind''"] demo_field[of "''metadata''"] kinds
      by (auto simp: validateRequiredArtifact_def n(2) d k isStructuredMediaType_def Let_def)
  qed
  then show ?thesis by (simp add: firstError_None)
qed

lemma demo_run_bundle: "\<exists>b. BuildRunBundle demo_yaml demo_run demo_required = Inr b"
proof -
  have "distinct requiredRunArtifacts" by code_simp
  then have "distinct (map ia_Name demo_required)" by (simp add: demo_required_def comp_def)
  then have "\<exists>b. Build demo_yaml demo_run demo_required = Inr b"
    using Build_ok[OF demo_run_valid demo_required_valid] runJson_demo by blast
  moreover have "filter (\<lambda>r. r \<notin> set (map ia_Name demo_required)) requiredRunArtifacts = []"
    by (simp add: demo_required_def comp_def)
  ultimately show ?thesis using demo_required_fields unfolding BuildRunBundle_def Let_def by simp
qed

theorem run_bundle_complete_witness:
  "\<exists>b. BuildRunBundle demo_yaml demo_run demo_required = Inr b \<and>
     (\<exists>i \<in> set demo_required. \<lparr>af_Name = ''benchmark/stdout.txt'', af_MediaType = ia_MediaType i, af_SHA256 = hex_encode (sha256 (ia_Data i)),
        af_Size = int (length (ia_Data i))\<rparr> \<in> set (mf_Artifacts (bu_Manifest b)) \<and> TrimSpace (ia_Data i) \<noteq> '''')"
proof -
  obtain b where b: "BuildRunBundle demo_yaml demo_run demo_required = Inr b" using demo_run_bundle by blast
  from run_bundle_complete[OF b, THEN conjunct2] b show ?thesis by blast
qed

end
