(* ===== verification/EvidenceStore.thy ===== *)
theory EvidenceStore
  imports Evidence Controller
begin

text \<open>
  The evidence store and the exporter, \<open>internal/evidence/store.go\<close> and \<open>exporter.go\<close>. The store works on
  the disk of theory \<open>Disk\<close>, whose calls may fail at any point. Ranging over a Go map visits its
  keys in any order, so \<open>Put\<close> takes the order as an argument; a context is the predicate that tells
  at which system call it is cancelled. The exporter reads ConfigMaps through a client parameter;
  the JSON decoder for pending runs, with its RFC 3339 times, is a parameter of which nothing is assumed.
\<close>

section \<open>The directory store\<close>

record DirectoryStore =
  ds_Root :: string

datatype store_err =
    Cancelled
  | StoreInvalid
  | DigestInvalid
  | RunIDInvalid
  | RunIDTaken string
  | DigestTaken
  | StoreIo os_err
  | PublishFailed os_err

type_synonym ctx = "nat \<Rightarrow> bool"

definition reserveRunID :: "path \<Rightarrow> string \<Rightarrow> string \<Rightarrow> disk \<Rightarrow> store_err option \<times> disk" where
  "reserveRunID root runID digest d =
     (if \<not> rx_matches runIDPattern runID then (Some RunIDInvalid, d)
      else let directory = joinPath root ''.run-ids'' in
      case os_MkdirAll directory d of
        (Inl e, d1) \<Rightarrow> (Some (StoreIo e), d1)
      | (Inr _, d1) \<Rightarrow>
          (let index = joinPath directory runID in
           case os_OpenNew index d1 of
             (Inr _, d2) \<Rightarrow>
               (case file_Write index (digest @ [CHR 0x0A]) d2 of
                  (Inl e, d3) \<Rightarrow> (Some (StoreIo e), snd (file_Close d3))
                | (Inr _, d3) \<Rightarrow>
                    (case file_Close d3 of (Inl e, d4) \<Rightarrow> (Some (StoreIo e), d4) | (Inr _, d4) \<Rightarrow> (None, d4)))
           | (Inl e, d2) \<Rightarrow>
               if e \<noteq> Exist then (Some (StoreIo e), d2)
               else (case os_ReadFile index d2 of
                   (Inl e', d3) \<Rightarrow> (Some (StoreIo e'), d3)
                 | (Inr existing, d3) \<Rightarrow> (if TrimSpace existing \<noteq> digest then Some (RunIDTaken runID) else None, d3))))"

fun writeFiles :: "ctx \<Rightarrow> path \<Rightarrow> (string \<times> string) list \<Rightarrow> disk \<Rightarrow> store_err option \<times> disk" where
  "writeFiles ctx temporary [] d = (None, d)"
| "writeFiles ctx temporary ((name, data) # files) d =
     (if ctx (d_ops d) then (Some Cancelled, d)
      else let destination = joinPath temporary name in
      case os_MkdirAll (dirPath destination) d of
        (Inl e, d1) \<Rightarrow> (Some (StoreIo e), d1)
      | (Inr _, d1) \<Rightarrow>
          (case os_WriteFile destination data d1 of
             (Inl e, d2) \<Rightarrow> (Some (StoreIo e), d2)
           | (Inr _, d2) \<Rightarrow> writeFiles ctx temporary files d2))"

text \<open>Filling the temporary directory and publishing it under its digest.\<close>

definition stage :: "ctx \<Rightarrow> path \<Rightarrow> path \<Rightarrow> (string \<times> string) list \<Rightarrow> string \<Rightarrow> disk \<Rightarrow> (store_err + path) \<times> disk" where
  "stage ctx target temporary files manifest d =
     (case os_WriteFile (joinPath temporary ''manifest.json'') manifest d of
        (Inl e, d1) \<Rightarrow> (Inl (StoreIo e), d1)
      | (Inr _, d1) \<Rightarrow>
          (case writeFiles ctx temporary files d1 of
             (Some e, d2) \<Rightarrow> (Inl e, d2)
           | (None, d2) \<Rightarrow>
               (case os_Rename temporary target d2 of
                  (Inr _, d3) \<Rightarrow> (Inr target, d3)
                | (Inl e, d3) \<Rightarrow>
                    (case os_ReadFile (joinPath target ''manifest.json'') d3 of
                       (Inl _, d4) \<Rightarrow> (Inl (PublishFailed e), d4)
                     | (Inr existing, d4) \<Rightarrow> (if existing = manifest then Inr target else Inl (PublishFailed e), d4)))))"

definition digestHex :: "Bundle \<Rightarrow> string" where
  "digestHex b = TrimPrefix (mf_BundleDigest (bu_Manifest b)) ''sha256:''"

text \<open>The steps from the temporary directory to its removal.\<close>

definition publish ::
  "((string \<times> string) list \<Rightarrow> (string \<times> string) list) \<Rightarrow> ctx \<Rightarrow> path \<Rightarrow> path \<Rightarrow> Bundle \<Rightarrow> disk \<Rightarrow> (store_err + path) \<times> disk" where
  "publish order ctx root target b d =
     (case os_MkdirTemp root ''.bundle-'' d of
        (Inl e', d4) \<Rightarrow> (Inl (StoreIo e'), d4)
      | (Inr temporary, d4) \<Rightarrow>
          (case stage ctx target temporary (order (bu_Files b)) (bu_ManifestBytes b) d4 of
             (res, d5) \<Rightarrow> (res, snd (os_RemoveAll temporary d5))))"

definition Put :: "((string \<times> string) list \<Rightarrow> (string \<times> string) list) \<Rightarrow> ctx \<Rightarrow> DirectoryStore \<Rightarrow> Bundle \<Rightarrow> disk \<Rightarrow> (store_err + path) \<times> disk" where
  "Put order ctx s b d =
     (if ctx (d_ops d) then (Inl Cancelled, d)
      else if ds_Root s = '''' \<or> \<not> HasPrefix (mf_BundleDigest (bu_Manifest b)) ''sha256:'' then (Inl StoreInvalid, d)
      else if length (digestHex b) \<noteq> 64 then (Inl DigestInvalid, d)
      else let root = filePath (ds_Root s); target = joinPath root (digestHex b) in
      case os_MkdirAll root d of
        (Inl e, d1) \<Rightarrow> (Inl (StoreIo e), d1)
      | (Inr _, d1) \<Rightarrow>
          (case reserveRunID root (run_RunID (mf_Run (bu_Manifest b))) (digestHex b) d1 of
             (Some e, d2) \<Rightarrow> (Inl e, d2)
           | (None, d2) \<Rightarrow>
               (case os_ReadFile (joinPath target ''manifest.json'') d2 of
                  (Inr existing, d3) \<Rightarrow> (if existing = bu_ManifestBytes b then Inr target else Inl DigestTaken, d3)
                | (Inl e, d3) \<Rightarrow>
                    if e \<noteq> NotExist then (Inl (StoreIo e), d3)
                    else publish order ctx root target b d3)))"

section \<open>Bundles the store can hold\<close>

text \<open>
  What \<open>Build\<close> guarantees of its bundles and the store relies on: a hexadecimal digest, and distinct
  names that stay inside the directory they are joined to (the names dot and dot-dot are accepted by \<open>Build\<close> and refused
  by the disk).
\<close>

definition is_hex :: "char \<Rightarrow> bool" where
  "is_hex c \<longleftrightarrow> CHR ''0'' \<le> c \<and> c \<le> CHR ''9'' \<or> CHR ''a'' \<le> c \<and> c \<le> CHR ''f''"

definition storable :: "Bundle \<Rightarrow> bool" where
  "storable b \<longleftrightarrow> list_all is_hex (digestHex b) \<and> distinct (map fst (bu_Files b)) \<and>
     list_all (\<lambda>f. fst f = ''.'' \<or> fst f = ''..'' \<or> plainName (fst f)) (bu_Files b)"

lemma is_hex_digit: "n < 16 \<Longrightarrow> is_hex (hex_digit n)"
proof -
  have "list_all (\<lambda>n. is_hex (hex_digit n)) [0..<16]" by code_simp
  then show "n < 16 \<Longrightarrow> is_hex (hex_digit n)" by (simp add: list_all_iff)
qed

lemma hex_encode_is_hex: "list_all is_hex (hex_encode s)"
proof -
  have "of_char c div 16 < (16 :: nat)" "of_char c mod 16 < (16 :: nat)" for c
    using byte_lt[of c] less_mult_imp_div_less[of "byte c" 16 16] by simp_all
  then show ?thesis by (simp add: hex_encode_def list_all_iff is_hex_digit)
qed

lemma Build_storable:
  assumes "Build Y run inputs = Inr b"
  shows "storable b" and "length (digestHex b) = 64"
proof -
  from assms[unfolded Build_Inr Let_def] obtain draft where d: "mf_BundleDigest (bu_Manifest b) = ''sha256:'' @ hex_encode (sha256 draft)"
    and f: "bu_Files b = map (\<lambda>i. (ia_Name i, ia_Data i)) (sort_key ia_Name inputs)"
    and v: "\<forall>i \<in> set inputs. validateArtifact Y i = None" and n: "distinct (map ia_Name inputs)" by auto
  have h: "digestHex b = hex_encode (sha256 draft)" unfolding digestHex_def d by (rule TrimPrefix_append)
  have "ia_Name i = ''.'' \<or> ia_Name i = ''..'' \<or> plainName (ia_Name i)" if "i \<in> set inputs" for i
    using v that by (intro clean_name_plain) (auto simp: validateArtifact_def Let_def split: if_splits)
  moreover have "list_all is_hex (digestHex b)" by (simp add: h hex_encode_is_hex)
  ultimately show "storable b" using n by (auto simp: storable_def f list_all_iff distinct_map comp_def inj_on_def)
  show "length (digestHex b) = 64" by (simp add: h)
qed

lemma strip_front_stuck: "find (\<lambda>r. HasPrefix s r) rs = None \<Longrightarrow> strip_front rs n s = s"
  by (cases n) simp_all

lemma hex_not_space:
  assumes "is_hex c"
  shows "find (\<lambda>r. HasPrefix (c # s) r) space_runes = None" and "find (\<lambda>r. HasPrefix (c # s) r) (map rev space_runes) = None"
proof -
  have l: "list_all (\<lambda>r. r \<noteq> [] \<and> \<not> is_hex (hd r) \<and> \<not> is_hex (last r)) space_runes" by code_simp
  have h: "HasPrefix (c # s) r \<Longrightarrow> r \<noteq> [] \<Longrightarrow> hd r = c" for r by (cases r) (auto simp: HasPrefix_def)
  show "find (\<lambda>r. HasPrefix (c # s) r) space_runes = None" using l h assms by (force simp: find_None_iff list_all_iff)
  show "find (\<lambda>r. HasPrefix (c # s) r) (map rev space_runes) = None"
    using l h[of "rev r" for r] assms by (force simp: find_None_iff list_all_iff hd_rev)
qed

lemma TrimSpace_line:
  assumes "list_all is_hex h" and "h \<noteq> []"
  shows "TrimSpace (h @ [CHR 0x0A]) = h"
proof -
  obtain c t where c: "h = c # t" "is_hex c" using assms by (cases h) auto
  have "is_hex (last h)" using assms by (simp add: list_all_iff)
  then obtain e u where e: "rev h = e # u" "is_hex e" using assms(2) by (metis hd_rev list.collapse rev_is_Nil_conv)
  have l: "strip_front space_runes n (h @ [CHR 0x0A]) = h @ [CHR 0x0A]" for n
    using hex_not_space(1)[OF c(2), of "t @ [CHR 0x0A]"] by (simp add: strip_front_stuck c(1))
  have "find (\<lambda>r. HasPrefix (CHR 0x0A # rev h) r) (map rev space_runes) = Some [CHR 0x0A]"
  proof -
    have "map rev space_runes = [CHR 0x09] # [CHR 0x0A] # drop 2 (map rev space_runes)" by code_simp
    then show ?thesis by (elim ssubst) (simp add: HasPrefix_def)
  qed
  then have "strip_front (map rev space_runes) (Suc n) (CHR 0x0A # rev h) = rev h" for n
    using hex_not_space(2)[OF e(2), of u] by (simp add: strip_front_stuck e(1))
  then show ?thesis unfolding TrimSpace_def Let_def l by (simp del: strip_front.simps)
qed

section \<open>Reserving run IDs\<close>

definition keeps :: "disk \<Rightarrow> disk \<Rightarrow> bool" where
  "keeps d d' \<longleftrightarrow> (\<forall>x e. d_entries d x = Some e \<longrightarrow> d_entries d' x = Some e)"

lemma keepsD: "keeps d d' \<Longrightarrow> d_entries d x = Some e \<Longrightarrow> d_entries d' x = Some e"
  unfolding keeps_def by blast

lemma keeps_same: "d_entries d' = d_entries d \<Longrightarrow> keeps d d'"
  by (simp add: keeps_def)

lemma keeps_trans: "keeps d d' \<Longrightarrow> keeps d' d'' \<Longrightarrow> keeps d d''"
  by (simp add: keeps_def)

lemma keeps_new: "d_entries d p = None \<Longrightarrow> touches {p} d d' \<Longrightarrow> keeps d d'"
  unfolding keeps_def touches_def by (metis option.distinct(1) singletonD)

lemma MkdirAll_keeps: "os_MkdirAll p d = (res, d') \<Longrightarrow> keeps d d'"
  using mkdirAll_keeps by (auto simp: os_MkdirAll_def keeps_def)

definition indexPath :: "path \<Rightarrow> string \<Rightarrow> path" where
  "indexPath root runID = (fst root, runID # ''.run-ids'' # snd root)"

lemma runID_component: "rx_matches runIDPattern runID \<Longrightarrow> joinPath (joinPath root ''.run-ids'') runID = indexPath root runID"
proof -
  assume "rx_matches runIDPattern runID"
  then obtain c v where r: "runID = c # v" "cls_mem [(CHR ''a'', CHR ''z''), (CHR ''A'', CHR ''Z''), (CHR ''0'', CHR ''9'')] c"
    "\<forall>x \<in> set v. cls_mem [(CHR ''a'', CHR ''z''), (CHR ''A'', CHR ''Z''), (CHR ''0'', CHR ''9''), (CHR ''.'', CHR ''.''),
        (CHR ''_'', CHR ''_''), (CHR ''-'', CHR ''-'')] x"
    unfolding rx_matches_iff runIDPattern_def by (auto simp: lang_upto_Cls)
  have "\<not> cls_mem [(CHR ''a'', CHR ''z''), (CHR ''A'', CHR ''Z''), (CHR ''0'', CHR ''9'')] (CHR ''/'')"
    "\<not> cls_mem [(CHR ''a'', CHR ''z''), (CHR ''A'', CHR ''Z''), (CHR ''0'', CHR ''9'')] (CHR ''.'')"
    "\<not> cls_mem [(CHR ''a'', CHR ''z''), (CHR ''A'', CHR ''Z''), (CHR ''0'', CHR ''9''), (CHR ''.'', CHR ''.''),
        (CHR ''_'', CHR ''_''), (CHR ''-'', CHR ''-'')] (CHR ''/'')" by code_simp+
  with r have "CHR ''/'' \<notin> set runID" "runID \<notin> {'''', ''.'', ''..''}" by auto
  then show ?thesis by (simp add: joinPath_single indexPath_def)
qed

lemma MkdirAll_touches_below:
  "walk d (fst p) (snd p) = None \<Longrightarrow> below p q \<Longrightarrow> os_MkdirAll q d = (res, d') \<Longrightarrow> touches (inside p) d d'"
  using mkdirAll_touches[of d "fst p" "snd p"] by (auto simp: os_MkdirAll_def below_iff)

lemma reserveRunID_effect:
  assumes "reserveRunID root runID digest d = (res, d')" and "walk d (fst root) (snd root) = None"
  shows "keeps d d'" and "touches (subtree (joinPath root ''.run-ids'')) d d'"
    and "list_all is_hex digest \<Longrightarrow> digest \<noteq> [] \<Longrightarrow> res = None \<Longrightarrow>
      \<exists>b. d_entries d' (indexPath root runID) = Some (File b) \<and> TrimSpace b = digest"
    and "disk_ok d \<Longrightarrow> disk_ok d'"
proof -
  have dir: "joinPath root ''.run-ids'' = (fst root, ''.run-ids'' # snd root)" by (rule joinPath_single) simp_all
  let ?dir = "joinPath root ''.run-ids''" and ?i = "indexPath root runID"
  have "keeps d d' \<and> touches (subtree ?dir) d d' \<and> (disk_ok d \<longrightarrow> disk_ok d') \<and>
    (list_all is_hex digest \<longrightarrow> digest \<noteq> [] \<longrightarrow> res = None \<longrightarrow> (\<exists>b. d_entries d' ?i = Some (File b) \<and> TrimSpace b = digest))"
  proof (cases "rx_matches runIDPattern runID")
    case False
    with assms(1) show ?thesis by (auto simp: reserveRunID_def keeps_same touches_same)
  next
    case True
    note idx = runID_component[OF True, of root]
    have ib: "below ?dir ?i" unfolding dir indexPath_def by simp
    obtain m d1 where m: "os_MkdirAll ?dir d = (m, d1)" by (metis surj_pair)
    have k1: "keeps d d1" by (rule MkdirAll_keeps[OF m])
    have "touches {?dir} d d1"
    proof -
      have "mkdirAll (fst root) (snd root) d = (Inr (), d)" by (rule mkdirAll_existing[OF assms(2)])
      then have "d1 = d \<or> os_Mkdir ?dir d = (m, d1)" using m unfolding os_MkdirAll_def dir by (auto split: option.splits entry.splits)
      then show ?thesis using newEntry_effect[of Dir ?dir d m d1] by (cases m) (auto simp: touches_def)
    qed
    then have t1: "touches (subtree ?dir) d d1" by (rule touches_mono) simp
    have o1: "disk_ok d \<Longrightarrow> disk_ok d1" using disk_ok_mkdirAll m by (auto simp: os_MkdirAll_def)
    obtain n d2 where n: "os_OpenNew ?i d1 = (n, d2)" by (metis surj_pair)
    note ne = newEntry_effect[OF n]
    obtain w d3 where w: "file_Write ?i (digest @ [CHR 0x0A]) d2 = (w, d3)" by (metis surj_pair)
    note we = file_Write_effect[OF w]
    obtain c d4 where c: "file_Close d3 = (c, d4)" by (metis surj_pair)
    note ce = file_Close_effect[OF c]
    obtain v d5 where v: "os_ReadFile ?i d2 = (v, d5)" by (metis surj_pair)
    note ve = ReadFile_effect[OF v]
    have o2: "disk_ok d \<Longrightarrow> disk_ok d2" using o1 disk_ok_newEntry[OF n] by blast
    have o4: "disk_ok d \<Longrightarrow> disk_ok d4" using disk_ok_file_Write[OF w] o2 disk_ok_cong[OF ce] by simp
    have new: "n = Inr () \<Longrightarrow> keeps d d4 \<and> touches (subtree ?dir) d d4 \<and> (w = Inr () \<longrightarrow> d_entries d4 ?i = Some (File (digest @ [CHR 0x0A])))"
    proof -
      assume "n = Inr ()"
      then have e: "d_entries d1 ?i = None" "d_entries d2 = (d_entries d1)(?i \<mapsto> File '''')" using ne by auto
      have "touches {?i} d1 d4" using we(1) e(2) ce by (auto simp: touches_def)
      then have "keeps d1 d4" "touches (subtree ?dir) d1 d4" using keeps_new[OF e(1)] touches_mono[of "{?i}" d1 d4] ib by auto
      then show ?thesis using k1 t1 we(2)[of "''''"] e ce by (auto intro: keeps_trans touches_trans)
    qed
    have old: "n = Inl er \<Longrightarrow> d_entries d2 = d_entries d1" for er using ne by simp
    show ?thesis
    proof (cases m)
      case (Inl e)
      with assms(1) m True k1 t1 o1 show ?thesis by (auto simp: reserveRunID_def Let_def)
    next
      case (Inr u)
      show ?thesis
      proof (cases n)
        case (Inr u')
        with assms(1) m True \<open>m = Inr u\<close> n w c new o4 TrimSpace_line[of digest] show ?thesis
          by (cases w; cases c) (auto simp: reserveRunID_def Let_def idx)
      next
        case (Inl er)
        have k: "keeps d d2" "touches (subtree ?dir) d d2" using k1 t1 old[OF Inl] by (auto simp: keeps_def touches_def)
        have "keeps d d5" "touches (subtree ?dir) d d5" "disk_ok d \<Longrightarrow> disk_ok d5"
          using k ve(1) o2 disk_ok_cong[OF ve(1)] by (auto simp: keeps_def touches_def)
        with assms(1) m True \<open>m = Inr u\<close> n v Inl k o2 ve show ?thesis
          by (auto simp: reserveRunID_def Let_def idx split: if_splits sum.splits)
      qed
    qed
  qed
  then show "keeps d d'" "touches (subtree ?dir) d d'" "disk_ok d \<Longrightarrow> disk_ok d'"
    "list_all is_hex digest \<Longrightarrow> digest \<noteq> [] \<Longrightarrow> res = None \<Longrightarrow> \<exists>b. d_entries d' ?i = Some (File b) \<and> TrimSpace b = digest"
    by blast+
qed

section \<open>Filling the temporary directory\<close>

text \<open>A temporary directory \<open>t\<close> of the store: it exists, and its last component is not dot-dot.\<close>

definition staging :: "path \<Rightarrow> disk \<Rightarrow> bool" where
  "staging t d \<longleftrightarrow> walk d (fst t) (snd t) = None \<and> snd t \<noteq> [] \<and> hd (snd t) \<noteq> ''..''"

lemma staging_touches: "staging t d \<Longrightarrow> touches (inside t) d d' \<Longrightarrow> staging t d'"
  using touches_inside_walk[of "fst t" "snd t" d d'] by (simp add: staging_def)

lemma joinPath_inside: "plainName n \<Longrightarrow> joinPath t n \<in> inside t"
proof -
  assume "plainName n"
  then have "joinPath t n = (fst t, rev (Split n (CHR ''/'')) @ snd t)" by (rule joinPath_plain)
  then show ?thesis by (auto simp: inside_def below_iff intro: exI[of _ "rev (Split n (CHR ''/''))"] dest: arg_cong[of _ _ "length \<circ> snd"])
qed

lemma MkdirAll_dir:
  assumes "staging t d" and "n = ''.'' \<or> n = ''..'' \<or> plainName n" and "os_MkdirAll (dirPath (joinPath t n)) d = (res, d')"
  shows "touches (inside t) d d'"
proof -
  obtain c cs where t: "snd t = c # cs" "c \<noteq> ''..''" using assms(1) by (cases "snd t") (auto simp: staging_def)
  have w: "walk d (fst t) (c # cs) = None" using assms(1) t by (simp add: staging_def)
  have up: "walk d (fst t) ys = None \<Longrightarrow> walk d (fst t) (tl ys) = None" for ys by (cases ys) (auto split: option.splits)
  from assms(2) consider "n = ''.''" | "n = ''..''" | "plainName n" by blast
  then show ?thesis
  proof cases
    case 1
    then have "dirPath (joinPath t n) = (fst t, cs)" by (simp add: joinPath_def dirPath_def t Split_no_sep)
    moreover have "walk d (fst t) cs = None" using up[OF w] by simp
    ultimately show ?thesis using assms(3) mkdirAll_existing by (simp add: os_MkdirAll_def touches_same)
  next
    case 2
    then have "dirPath (joinPath t n) = (fst t, tl cs)" using t by (simp add: joinPath_def dirPath_def Split_no_sep)
    moreover have "walk d (fst t) (tl cs) = None" using up[of cs] up[OF w] by simp
    ultimately show ?thesis using assms(3) mkdirAll_existing by (simp add: os_MkdirAll_def touches_same)
  next
    case 3
    have "rev (Split n (CHR ''/'')) \<noteq> []" by simp
    then have "dirPath (joinPath t n) = (fst t, tl (rev (Split n (CHR ''/''))) @ snd t)"
      by (simp add: joinPath_plain[OF 3] dirPath_def)
    then show ?thesis using assms(1,3) mkdirAll_touches[of d "fst t" "snd t"] by (simp add: os_MkdirAll_def staging_def)
  qed
qed

lemma entryAt_staging:
  assumes "staging t d" and "n = ''.'' \<or> n = ''..''"
  shows "entryAt d (joinPath t n) = Some Dir"
proof -
  obtain c cs where t: "snd t = c # cs" "c \<noteq> ''..''" using assms(1) by (cases "snd t") (auto simp: staging_def)
  have w: "walk d (fst t) (c # cs) = None" using assms(1) t by (simp add: staging_def)
  then have "walk d (fst t) cs = None" by (auto split: option.splits)
  then show ?thesis using walk_Dir[OF w] walk_Dir[of d "fst t" cs] assms(2) t
    by (auto simp: joinPath_def entryAt_def Split_no_sep)
qed

lemma writeFiles_effect:
  assumes "staging t d" and "writeFiles ctx t fs d = (res, d')"
    and "list_all (\<lambda>f. fst f = ''.'' \<or> fst f = ''..'' \<or> plainName (fst f)) fs"
  shows "touches (inside t) d d'" and "disk_ok d \<Longrightarrow> disk_ok d'"
    and "plainName m \<Longrightarrow> m \<notin> fst ` set fs \<Longrightarrow> d_entries d (joinPath t m) = Some (File b) \<Longrightarrow> d_entries d' (joinPath t m) = Some (File b)"
    and "distinct (map fst fs) \<Longrightarrow> res = None \<Longrightarrow> \<forall>(n, x) \<in> set fs. plainName n \<and> d_entries d' (joinPath t n) = Some (File x)"
proof -
  have "touches (inside t) d d' \<and> (disk_ok d \<longrightarrow> disk_ok d') \<and>
    (\<forall>m b. plainName m \<longrightarrow> m \<notin> fst ` set fs \<longrightarrow> d_entries d (joinPath t m) = Some (File b) \<longrightarrow> d_entries d' (joinPath t m) = Some (File b)) \<and>
    (distinct (map fst fs) \<longrightarrow> res = None \<longrightarrow> (\<forall>(n, x) \<in> set fs. plainName n \<and> d_entries d' (joinPath t n) = Some (File x)))"
    using assms
  proof (induction fs arbitrary: d)
    case Nil
    then show ?case by (auto simp: touches_same)
  next
    case (Cons f fs)
    obtain n x where f: "f = (n, x)" by (cases f)
    from Cons.prems(3) f have n: "n = ''.'' \<or> n = ''..'' \<or> plainName n" by simp
    let ?p = "joinPath t n"
    obtain m d1 where m: "os_MkdirAll (dirPath ?p) d = (m, d1)" by (metis surj_pair)
    obtain w d2 where w: "os_WriteFile ?p x d1 = (w, d2)" by (metis surj_pair)
    note we = WriteFile_effect[OF w]
    have t1: "touches (inside t) d d1" by (rule MkdirAll_dir[OF Cons.prems(1) n m])
    have s1: "staging t d1" by (rule staging_touches[OF Cons.prems(1) t1])
    have t12: "touches (inside t) d1 d2"
      using n we(1,3) entryAt_staging[OF s1, of n] joinPath_inside[of n t] touches_same[of d2 d1]
      by (auto intro: touches_mono)
    have t2: "touches (inside t) d d2" using t1 t12 by (rule touches_trans)
    have s2: "staging t d2" by (rule staging_touches[OF Cons.prems(1) t2])
    have o1: "disk_ok d \<Longrightarrow> disk_ok d1" using disk_ok_mkdirAll m by (auto simp: os_MkdirAll_def)
    have o2: "disk_ok d \<Longrightarrow> disk_ok d2" using o1 disk_ok_WriteFile[OF w] by blast
    have k1: "keeps d d1" by (rule MkdirAll_keeps[OF m])
    have plain: "w = Inr () \<Longrightarrow> plainName n" using n we(3) entryAt_staging[OF s1, of n] by auto
    have other: "plainName k \<Longrightarrow> k \<noteq> n \<Longrightarrow> d_entries d (joinPath t k) = Some (File b) \<Longrightarrow> d_entries d2 (joinPath t k) = Some (File b)" for k b
    proof -
      assume k: "plainName k" "k \<noteq> n" "d_entries d (joinPath t k) = Some (File b)"
      then have k': "d_entries d1 (joinPath t k) = Some (File b)" using keepsD[OF k1] by blast
      show ?thesis
      proof (cases "plainName n")
        case True
        then have "joinPath t k \<notin> {?p}" using k joinPath_inject[of k n t] by auto
        then show ?thesis using touchesD[OF we(1)] k' by simp
      next
        case False
        then show ?thesis using n we(3) entryAt_staging[OF s1, of n] k' by auto
      qed
    qed
    show ?case
    proof (cases "\<not> ctx (d_ops d) \<and> m = Inr () \<and> w = Inr ()")
      case True
      then have rest: "writeFiles ctx t fs d2 = (res, d')" using Cons.prems(2) f m w by simp
      from Cons.prems(3) f have "list_all (\<lambda>f. fst f = ''.'' \<or> fst f = ''..'' \<or> plainName (fst f)) fs" by simp
      note IH = Cons.IH[OF s2 rest this]
      have "touches (inside t) d d'" using t2 IH by (blast intro: touches_trans)
      moreover have "disk_ok d \<longrightarrow> disk_ok d'" using IH o2 by blast
      moreover have "plainName k \<Longrightarrow> k \<notin> fst ` set (f # fs) \<Longrightarrow> d_entries d (joinPath t k) = Some (File b) \<Longrightarrow> d_entries d' (joinPath t k) = Some (File b)" for k b
        using IH other[of k b] f by simp
      moreover have "distinct (map fst (f # fs)) \<Longrightarrow> res = None \<Longrightarrow> \<forall>(n, x) \<in> set (f # fs). plainName n \<and> d_entries d' (joinPath t n) = Some (File x)"
        using IH plain True we(2) f by auto
      ultimately show ?thesis by blast
    next
      case False
      then have "res \<noteq> None \<and> (d' = d \<or> d' = d1 \<or> d' = d2)" using Cons.prems(2) f m w
        by (auto simp: Let_def split: if_splits sum.splits)
      moreover have "plainName k \<Longrightarrow> d_entries d (joinPath t k) = Some (File b) \<Longrightarrow> d_entries d1 (joinPath t k) = Some (File b)" for k b
        using keepsD[OF k1] by blast
      ultimately show ?thesis using t1 t2 o1 o2 other f touches_same[of d d] by auto
    qed
  qed
  then show "touches (inside t) d d'" "disk_ok d \<Longrightarrow> disk_ok d'"
    "plainName m \<Longrightarrow> m \<notin> fst ` set fs \<Longrightarrow> d_entries d (joinPath t m) = Some (File b) \<Longrightarrow> d_entries d' (joinPath t m) = Some (File b)"
    "distinct (map fst fs) \<Longrightarrow> res = None \<Longrightarrow> \<forall>(n, x) \<in> set fs. plainName n \<and> d_entries d' (joinPath t n) = Some (File x)"
    by blast+
qed

section \<open>Publishing\<close>

definition manifestPath :: "path \<Rightarrow> path" where "manifestPath target = joinPath target ''manifest.json''"

text \<open>The whole bundle is stored under \<open>target\<close>.\<close>

definition published :: "path \<Rightarrow> string \<Rightarrow> (string \<times> string) list \<Rightarrow> disk \<Rightarrow> bool" where
  "published target manifest files d \<longleftrightarrow> d_entries d (manifestPath target) = Some (File manifest) \<and>
     (\<forall>(n, x) \<in> set files. d_entries d (joinPath target n) = Some (File x))"

definition unchangedAt :: "path \<Rightarrow> disk \<Rightarrow> disk \<Rightarrow> bool" where
  "unchangedAt p d d' \<longleftrightarrow> (\<forall>x. below p x \<longrightarrow> d_entries d' x = d_entries d x)"

lemma unchangedAtD: "unchangedAt p d d' \<Longrightarrow> below p x \<Longrightarrow> d_entries d' x = d_entries d x"
  unfolding unchangedAt_def by blast

lemma unchangedAt_touches: "touches S d d' \<Longrightarrow> subtree p \<inter> S = {} \<Longrightarrow> unchangedAt p d d'"
  unfolding unchangedAt_def touches_def subtree_def by blast

lemma unchangedAt_trans: "unchangedAt p d d' \<Longrightarrow> unchangedAt p d' d'' \<Longrightarrow> unchangedAt p d d''"
  unfolding unchangedAt_def by simp

lemma unchangedAt_same: "d_entries d' = d_entries d \<Longrightarrow> unchangedAt p d d'"
  by (simp add: unchangedAt_def)

lemma plain_manifest: "plainName ''manifest.json''"
  by code_simp

lemma below_joinPath: "plainName n \<Longrightarrow> below t (joinPath t n)"
  using joinPath_inside[of n t] by (simp add: inside_def)

lemma published_unchanged:
  assumes "published target manifest files d" and "unchangedAt target d d'" and "list_all (\<lambda>f. plainName (fst f)) files"
  shows "published target manifest files d'"
  using assms(1,3) unchangedAtD[OF assms(2) below_joinPath[OF plain_manifest]] unchangedAtD[OF assms(2) below_joinPath]
  by (fastforce simp: published_def manifestPath_def list_all_iff)

lemma siblings_disjoint: "c \<noteq> c' \<Longrightarrow> subtree (r, c # cs) \<inter> subtree (r, c' # cs) = {}"
  using below_siblings by (auto 0 3)

lemma Rename_published:
  assumes "os_Rename t target d = (Inr (), d')" and "published t manifest files d" and "list_all (\<lambda>f. plainName (fst f)) files"
  shows "published target manifest files d'"
proof -
  have "d_entries d' = d_entries (move t target (tick d))" using Rename_effect[OF assms(1)] by simp
  then have "plainName n \<Longrightarrow> d_entries d' (joinPath target n) = d_entries d (joinPath t n)" for n
    using entries_move_target[of t target "tick d" "rev (Split n (CHR ''/''))"] by (simp add: joinPath_plain)
  then show ?thesis using assms(2,3) plain_manifest by (fastforce simp: published_def manifestPath_def list_all_iff)
qed

lemma stage_effect:
  assumes st: "staging t d" and t: "t = (r, c # cs)" "target = (r, c' # cs)" "c \<noteq> c'"
    and names: "list_all (\<lambda>f. fst f = ''.'' \<or> fst f = ''..'' \<or> plainName (fst f)) fs" and dist: "distinct (map fst fs)"
    and call: "stage ctx target t fs manifest d = (res, d')"
  shows "touches (subtree t \<union> subtree target) d d'" and "disk_ok d \<Longrightarrow> disk_ok d'"
    and "unchangedAt target d d' \<or> (d_entries d target = None \<and> list_all (\<lambda>f. plainName (fst f)) fs \<and> (''manifest.json'' \<notin> fst ` set fs \<longrightarrow> published target manifest fs d'))"
    and "res = Inr l \<Longrightarrow> l = target \<and> (''manifest.json'' \<notin> fst ` set fs \<longrightarrow> d_entries d' (manifestPath target) = Some (File manifest))"
proof -
  let ?S = "subtree t \<union> subtree target" and ?own = "''manifest.json'' \<notin> fst ` set fs"
  have disj: "subtree target \<inter> subtree t = {}" unfolding t using siblings_disjoint t(3) by (metis Int_commute)
  obtain w d1 where w: "os_WriteFile (manifestPath t) manifest d = (w, d1)" by (metis surj_pair)
  note we = WriteFile_effect[OF w]
  have mi: "manifestPath t \<in> inside t" unfolding manifestPath_def by (rule joinPath_inside[OF plain_manifest])
  have t1: "touches (inside t) d d1" using we(1) by (rule touches_mono) (use mi in simp)
  have s1: "staging t d1" by (rule staging_touches[OF st t1])
  obtain x d2 where x: "writeFiles ctx t fs d1 = (x, d2)" by (metis surj_pair)
  note xe = writeFiles_effect[OF s1 x names]
  have t2: "touches (inside t) d d2" using t1 xe(1) by (rule touches_trans)
  have S: "touches (inside t) e e' \<Longrightarrow> touches ?S e e' \<and> unchangedAt target e e'" for e e'
    using touches_mono[of "inside t" e e' ?S] unchangedAt_touches[of "inside t" e e' target] disj by (auto simp: inside_def)
  have o2: "disk_ok d \<Longrightarrow> disk_ok d2" using disk_ok_WriteFile[OF w] xe(2) by blast
  obtain n d3 where n: "os_Rename t target d2 = (n, d3)" by (metis surj_pair)
  note ne = Rename_effect[OF n]
  obtain v d4 where v: "os_ReadFile (manifestPath target) d3 = (v, d4)" by (metis surj_pair)
  note ve = ReadFile_effect[OF v]
  consider (early) "w \<noteq> Inr () \<or> x \<noteq> None" "(d' = d1 \<and> w \<noteq> Inr ()) \<or> d' = d2" "\<exists>e. res = Inl e"
    | (lost) e where "w = Inr ()" "x = None" "n = Inl e" "d' = d4" "\<And>l. res = Inr l \<Longrightarrow> l = target \<and> v = Inr manifest"
    | (won) "w = Inr ()" "x = None" "n = Inr ()" "d' = d3" "res = Inr target"
    using call w x n v unfolding stage_def manifestPath_def by (auto split: sum.splits option.splits if_splits)
  then have "touches ?S d d' \<and> (disk_ok d \<longrightarrow> disk_ok d') \<and>
      (unchangedAt target d d' \<or> (d_entries d target = None \<and> list_all (\<lambda>f. plainName (fst f)) fs \<and> (?own \<longrightarrow> published target manifest fs d'))) \<and>
      (\<forall>l. res = Inr l \<longrightarrow> l = target \<and> (?own \<longrightarrow> d_entries d' (manifestPath target) = Some (File manifest)))"
  proof cases
    case early
    then show ?thesis using S[OF t1] S[OF t2] o2 disk_ok_WriteFile[OF w] by auto
  next
    case lost
    then have e: "d_entries d' = d_entries d2" using ne ve(1) by simp
    have "touches ?S d d'" "unchangedAt target d d'" using S[OF t2] e by (auto simp: touches_def unchangedAt_def)
    moreover have "disk_ok d \<Longrightarrow> disk_ok d'" using o2 disk_ok_cong[OF e] by simp
    moreover have "l = target \<and> (?own \<longrightarrow> d_entries d' (manifestPath target) = Some (File manifest))" if "res = Inr l" for l
      using lost(5)[OF that] ve lost(4) by simp
    ultimately show ?thesis by blast
  next
    case won
    have tf: "entryAt d2 t = Some Dir"
      using staging_touches[OF st t2] walk_Dir[of d2 "fst t" "snd t"] by (auto simp: staging_def entryAt_def)
    have d3: "d_entries d3 = d_entries (move t target (tick d2))" and free: "d_entries d2 target = None"
      using ne won tf by auto
    have "d_entries d target = None" using free S[OF t2] unchangedAtD[of target d d2 target] by simp
    moreover have plain: "list_all (\<lambda>f. plainName (fst f)) fs"
      using xe(4)[OF dist] won by (auto simp: list_all_iff)
    moreover have "?own \<Longrightarrow> published t manifest fs d2"
      using xe(3)[OF plain_manifest] we(2) xe(4)[OF dist] won by (auto simp: published_def manifestPath_def)
    ultimately have "?own \<Longrightarrow> published target manifest fs d3" using Rename_published n won(3) by blast
    moreover have "touches ?S d2 d3" using entries_move_other[of target _ t "tick d2"] by (auto simp: touches_def d3)
    then have "touches ?S d d3" using S[OF t2] touches_trans by blast
    moreover have "disk_ok d \<Longrightarrow> disk_ok d3" using o2 disk_ok_Rename[OF n] by blast
    ultimately show ?thesis using won plain \<open>d_entries d target = None\<close> by (auto simp: published_def)
  qed
  then show "touches ?S d d'" "disk_ok d \<Longrightarrow> disk_ok d'"
    "unchangedAt target d d' \<or> (d_entries d target = None \<and> list_all (\<lambda>f. plainName (fst f)) fs \<and> (?own \<longrightarrow> published target manifest fs d'))"
    "res = Inr l \<Longrightarrow> l = target \<and> (?own \<longrightarrow> d_entries d' (manifestPath target) = Some (File manifest))" by blast+
qed

definition targetPath :: "DirectoryStore \<Rightarrow> Bundle \<Rightarrow> path" where
  "targetPath s b = joinPath (filePath (ds_Root s)) (digestHex b)"

lemma digest_component:
  assumes "storable b" and "length (digestHex b) = 64"
  shows "joinPath root (digestHex b) = (fst root, digestHex b # snd root)" and "digestHex b \<noteq> ''.run-ids''"
    and "digestHex b \<noteq> ''.bundle-'' @ k"
proof -
  have h: "c \<in> set (digestHex b) \<Longrightarrow> is_hex c" for c using assms(1) by (simp add: storable_def list_all_iff)
  have n: "\<not> is_hex (CHR ''/'')" "\<not> is_hex (CHR ''.'')" by code_simp+
  have "CHR ''/'' \<notin> set (digestHex b)" using h n by blast
  moreover have "digestHex b \<notin> {'''', ''.'', ''..''}" using assms(2) by auto
  ultimately show "joinPath root (digestHex b) = (fst root, digestHex b # snd root)" by (rule joinPath_single)
  have "CHR ''.'' \<notin> set (digestHex b)" using h n by blast
  then show "digestHex b \<noteq> ''.run-ids''" "digestHex b \<noteq> ''.bundle-'' @ k" by auto
qed

text \<open>The part of \<open>Put\<close> before the temporary directory: it adds directories and the index.\<close>

lemma MkdirAll_root:
  assumes "os_MkdirAll root d = (res, d')"
  shows "keeps d d'" and "touches {x. below x root} d d'" and "res = Inr () \<Longrightarrow> walk d' (fst root) (snd root) = None"
    and "disk_ok d \<Longrightarrow> disk_ok d'"
proof -
  show "keeps d d'" by (rule MkdirAll_keeps[OF assms])
  show "res = Inr () \<Longrightarrow> walk d' (fst root) (snd root) = None" using mkdirAll_keeps assms by (auto simp: os_MkdirAll_def)
  show "disk_ok d \<Longrightarrow> disk_ok d'" using disk_ok_mkdirAll assms by (auto simp: os_MkdirAll_def)
  have "mkdirAll r cs d = (m, e) \<Longrightarrow> touches {x. below x (r, cs)} d e" for r cs m e
  proof (induction cs arbitrary: m e)
    case (Cons c cs)
    obtain x d1 where x: "mkdirAll r cs d = (x, d1)" by (metis surj_pair)
    have up: "{x. below x (r, cs)} \<subseteq> {x. below x (r, c # cs)}" using below_trans below_Cons by blast
    have t: "touches {x. below x (r, c # cs)} d d1" using Cons.IH[OF x] up by (rule touches_mono)
    have "os_Mkdir (r, c # cs) d1 = (m, e) \<Longrightarrow> touches {x. below x (r, c # cs)} d1 e"
      using newEntry_effect[of Dir "(r, c # cs)" d1 m e] by (cases m) (auto simp: touches_def)
    then show ?case using Cons.prems x t by (auto split: sum.splits option.splits entry.splits intro: touches_trans)
  qed (simp add: touches_same)
  then show "touches {x. below x root} d d'" using assms by (metis os_MkdirAll_def prod.collapse)
qed

lemma MkdirTemp_effect:
  assumes "os_MkdirTemp root ''.bundle-'' d = (res, d')"
  shows "res = Inl e \<Longrightarrow> d_entries d' = d_entries d"
    and "res = Inr t \<Longrightarrow> \<exists>k. t = (fst root, (''.bundle-'' @ k) # snd root) \<and> d_entries d t = None \<and> staging t d' \<and> d_entries d' = (d_entries d)(t \<mapsto> Dir)"
proof -
  note eff = temp_effect[OF assms]
  show "res = Inl e \<Longrightarrow> d_entries d' = d_entries d" using eff by blast
  assume "res = Inr t"
  then obtain k where t: "t = (fst root, (''.bundle-'' @ k) # snd root)" "d_entries d t = None"
    "walk d (fst root) (snd root) = None" "d_entries d' = (d_entries d)(t \<mapsto> Dir)" using eff by blast
  have "t \<in> inside root" unfolding t(1) by (auto simp: inside_def below_def dest: arg_cong[of _ _ "length \<circ> snd"])
  then have "touches (inside root) d d'" using t(4) by (auto simp: touches_def)
  then have "walk d' (fst root) (snd root) = None" using touches_inside_walk[of "fst root" "snd root" d d'] t(3) by simp
  then have "staging t d'" using t by (simp add: staging_def)
  with t show "\<exists>k. t = (fst root, (''.bundle-'' @ k) # snd root) \<and> d_entries d t = None \<and> staging t d' \<and> d_entries d' = (d_entries d)(t \<mapsto> Dir)"
    by blast
qed

lemma fresh_subtree: "disk_ok d \<Longrightarrow> d_entries d p = None \<Longrightarrow> snd p \<noteq> [] \<Longrightarrow> below p x \<Longrightarrow> d_entries d x = None"
  using disk_ok_below[of d p x] by (cases "x = p"; cases "d_entries d x") auto

lemma keeps_touches:
  assumes "touches S d d'" and "\<And>x. x \<in> S \<Longrightarrow> d_entries d x = None"
  shows "keeps d d'"
  unfolding keeps_def using touchesD[OF assms(1)] assms(2) by (metis option.distinct(1))

lemma publish_effect:
  assumes ok: "disk_ok d" and b: "storable b" "length (digestHex b) = 64" and ord: "mset (order (bu_Files b)) = mset (bu_Files b)"
    and call: "publish order ctx root (joinPath root (digestHex b)) b d = (res, d')"
  shows "disk_ok d'" and "keeps d d'"
    and "unchangedAt (joinPath root (digestHex b)) d d' \<or> (''manifest.json'' \<notin> fst ` set (bu_Files b) \<longrightarrow> published (joinPath root (digestHex b)) (bu_ManifestBytes b) (bu_Files b) d')"
    and "res = Inr l \<Longrightarrow> l = joinPath root (digestHex b) \<and> (''manifest.json'' \<notin> fst ` set (bu_Files b) \<longrightarrow> d_entries d' (manifestPath l) = Some (File (bu_ManifestBytes b)))"
proof -
  let ?T = "joinPath root (digestHex b)" and ?fs = "order (bu_Files b)" and ?own = "''manifest.json'' \<notin> fst ` set (bu_Files b)"
  have set: "set ?fs = set (bu_Files b)" using ord by (metis set_mset_mset)
  have dist: "distinct (map fst ?fs)" using b(1) ord unfolding storable_def by (metis mset_eq_imp_distinct_iff mset_map)
  have names: "list_all (\<lambda>f. fst f = ''.'' \<or> fst f = ''..'' \<or> plainName (fst f)) ?fs" using b(1) set by (simp add: storable_def list_all_iff)
  obtain m d4 where m: "os_MkdirTemp root ''.bundle-'' d = (m, d4)" by (metis surj_pair)
  have "disk_ok d' \<and> keeps d d' \<and> (unchangedAt ?T d d' \<or> (?own \<longrightarrow> published ?T (bu_ManifestBytes b) (bu_Files b) d')) \<and>
    (\<forall>l. res = Inr l \<longrightarrow> l = ?T \<and> (?own \<longrightarrow> d_entries d' (manifestPath l) = Some (File (bu_ManifestBytes b))))"
  proof (cases m)
    case (Inl e)
    with MkdirTemp_effect(1)[OF m Inl] call m ok disk_ok_cong[of d4 d] show ?thesis
      by (auto simp: publish_def keeps_same unchangedAt_same)
  next
    case (Inr t)
    from MkdirTemp_effect(2)[OF m Inr] obtain k where t: "t = (fst root, (''.bundle-'' @ k) # snd root)"
      "d_entries d t = None" "staging t d4" "d_entries d4 = (d_entries d)(t \<mapsto> Dir)" by blast
    have T: "?T = (fst root, digestHex b # snd root)" by (rule digest_component(1)[OF b])
    have ne: "''.bundle-'' @ k \<noteq> digestHex b" using digest_component(3)[OF b] by metis
    obtain x d5 where x: "stage ctx ?T t ?fs (bu_ManifestBytes b) d4 = (x, d5)" by (metis surj_pair)
    note se = stage_effect[OF t(3,1) T ne names dist x, unfolded set]
    obtain y d6 where y: "os_RemoveAll t d5 = (y, d6)" by (metis surj_pair)
    have d': "d' = d6" "res = x" using call m Inr x y by (simp_all add: publish_def)
    have ok4: "disk_ok d4" by (rule disk_ok_temp[OF m ok])
    have disj: "subtree ?T \<inter> subtree t = {}" unfolding T t(1) using siblings_disjoint ne by metis
    have u56: "unchangedAt ?T d5 d6" using unchangedAt_touches[OF RemoveAll_touches[OF y] disj] .
    have u4: "unchangedAt ?T d d4" using disj t(4) by (auto simp: unchangedAt_def)
    have fresh: "below t z \<Longrightarrow> d_entries d z = None" for z using fresh_subtree[OF ok t(2)] t(1) by simp
    have t46: "touches (subtree t \<union> subtree ?T) d4 d6"
      using se(1) touches_mono[OF RemoveAll_touches[OF y]] by (blast intro: touches_trans)
    have tf: "touches (subtree t \<union> subtree ?T) d d6" using t46 t(4) by (auto simp: touches_def)
    show ?thesis
    proof (cases "unchangedAt ?T d4 d5")
      case True
      have u: "unchangedAt ?T d d6" using u4 True u56 unchangedAt_trans by blast
      have "touches (subtree t) d d6" using tf unchangedAtD[OF u] by (auto simp: touches_def)
      then have "keeps d d6" by (rule keeps_touches) (simp add: fresh)
      moreover have "l = ?T \<and> (?own \<longrightarrow> d_entries d6 (manifestPath l) = Some (File (bu_ManifestBytes b)))" if "x = Inr l" for l
        using se(4)[OF that] unchangedAtD[OF u56 below_joinPath[OF plain_manifest]] by (auto simp: manifestPath_def)
      ultimately show ?thesis using u disk_ok_RemoveAll[OF y se(2)[OF ok4]] d' by blast
    next
      case False
      then have free: "d_entries d4 ?T = None" and p: "?own \<Longrightarrow> published ?T (bu_ManifestBytes b) ?fs d5"
        and plain: "list_all (\<lambda>f. plainName (fst f)) ?fs" using se(3) by auto
      have "d_entries d ?T = None" using free unchangedAtD[OF u4 below_refl] by simp
      then have freshT: "below ?T z \<Longrightarrow> d_entries d z = None" for z using fresh_subtree[OF ok, of ?T z] T by simp
      have "keeps d d6" by (rule keeps_touches[OF tf]) (auto simp: fresh freshT)
      then show ?thesis using published_unchanged[OF p u56 plain[folded set]] p d' set disk_ok_RemoveAll[OF y se(2)[OF ok4]] se(4)
          unchangedAtD[OF u56 below_joinPath[OF plain_manifest]] by (auto simp: published_def manifestPath_def)
    qed
  qed
  then show "disk_ok d'" "keeps d d'" "unchangedAt ?T d d' \<or> (?own \<longrightarrow> published ?T (bu_ManifestBytes b) (bu_Files b) d')"
    "res = Inr l \<Longrightarrow> l = ?T \<and> (?own \<longrightarrow> d_entries d' (manifestPath l) = Some (File (bu_ManifestBytes b)))" by blast+
qed

section \<open>Storing a bundle\<close>

text \<open>What the caller hands over: a bundle as \<open>Build\<close> makes it, and an order in which its files are visited.\<close>

definition acceptable :: "((string \<times> string) list \<Rightarrow> (string \<times> string) list) \<Rightarrow> Bundle \<Rightarrow> bool" where
  "acceptable order b \<longleftrightarrow> storable b \<and> mset (order (bu_Files b)) = mset (bu_Files b)"

text \<open>No artifact takes the name of the manifest.\<close>

definition ownManifest :: "Bundle \<Rightarrow> bool" where
  "ownManifest b \<longleftrightarrow> ''manifest.json'' \<notin> fst ` set (bu_Files b)"

lemma Put_effect:
  assumes ok: "disk_ok d" and b: "acceptable order b" and call: "Put order ctx s b d = (res, d')"
  shows "disk_ok d'" and "keeps d d'"
    and "unchangedAt (targetPath s b) d d' \<or> (ownManifest b \<longrightarrow> published (targetPath s b) (bu_ManifestBytes b) (bu_Files b) d')"
    and "res = Inr l \<Longrightarrow> l = targetPath s b \<and> (ownManifest b \<longrightarrow> d_entries d' (manifestPath l) = Some (File (bu_ManifestBytes b))) \<and>
      HasPrefix (mf_BundleDigest (bu_Manifest b)) ''sha256:'' \<and>
      (\<exists>i. d_entries d' (indexPath (filePath (ds_Root s)) (run_RunID (mf_Run (bu_Manifest b)))) = Some (File i) \<and> TrimSpace i = digestHex b)"
proof -
  let ?root = "filePath (ds_Root s)" and ?T = "targetPath s b" and ?id = "run_RunID (mf_Run (bu_Manifest b))"
  let ?good = "\<lambda>res d'. disk_ok d' \<and> keeps d d' \<and> (unchangedAt ?T d d' \<or> (ownManifest b \<longrightarrow> published ?T (bu_ManifestBytes b) (bu_Files b) d')) \<and>
    (\<forall>l. res = Inr l \<longrightarrow> l = ?T \<and> (ownManifest b \<longrightarrow> d_entries d' (manifestPath l) = Some (File (bu_ManifestBytes b))) \<and>
      HasPrefix (mf_BundleDigest (bu_Manifest b)) ''sha256:'' \<and>
      (\<exists>i. d_entries d' (indexPath ?root ?id) = Some (File i) \<and> TrimSpace i = digestHex b))"
  have refused: "disk_ok e \<Longrightarrow> keeps d e \<Longrightarrow> unchangedAt ?T d e \<Longrightarrow> ?good (Inl er) e" for e er by simp
  have "?good res d'"
  proof (cases "ctx (d_ops d) \<or> ds_Root s = '''' \<or> \<not> HasPrefix (mf_BundleDigest (bu_Manifest b)) ''sha256:'' \<or> length (digestHex b) \<noteq> 64")
    case True
    then have "d' = d \<and> (\<exists>er. res = Inl er)" using call by (auto simp: Put_def split: if_splits)
    then show ?thesis using ok keeps_same[of d d] unchangedAt_same[of d d ?T] by auto
  next
    case False
    then have pre: "\<not> ctx (d_ops d)" "ds_Root s \<noteq> ''''" "HasPrefix (mf_BundleDigest (bu_Manifest b)) ''sha256:''" "length (digestHex b) = 64" by auto
    have sb: "storable b" using b by (simp add: acceptable_def)
    note T = digest_component[OF sb pre(4)]
    have T1: "?T = (fst ?root, digestHex b # snd ?root)" unfolding targetPath_def by (rule T(1))
    obtain m d1 where m: "os_MkdirAll ?root d = (m, d1)" by (metis surj_pair)
    note me = MkdirAll_root[OF m]
    have "subtree ?T \<inter> {x. below x ?root} = {}"
      unfolding T1 by (auto simp: below_def dest: arg_cong[of _ _ length])
    then have u1: "unchangedAt ?T d d1" by (rule unchangedAt_touches[OF me(2)])
    show ?thesis
    proof (cases m)
      case (Inl e)
      with call pre m have "res = Inl (StoreIo e)" "d' = d1" by (auto simp: Put_def Let_def)
      then show ?thesis using refused[OF me(4)[OF ok] me(1) u1] by simp
    next
      case (Inr u)
      then have w: "walk d1 (fst ?root) (snd ?root) = None" using me(3) by simp
      obtain x d2 where x: "reserveRunID ?root ?id (digestHex b) d1 = (x, d2)" by (metis surj_pair)
      note xe = reserveRunID_effect[OF x w]
      have "joinPath ?root ''.run-ids'' = (fst ?root, ''.run-ids'' # snd ?root)" by (rule joinPath_single) simp_all
      then have "subtree ?T \<inter> subtree (joinPath ?root ''.run-ids'') = {}" using siblings_disjoint[of "digestHex b" "''.run-ids''"] T(2) T1 by simp
      then have u2: "unchangedAt ?T d d2" using unchangedAt_touches[OF xe(2)] u1 unchangedAt_trans by blast
      have k2: "keeps d d2" using me(1) xe(1) by (rule keeps_trans)
      have o2: "disk_ok d2" using xe(4) me(4)[OF ok] by blast
      show ?thesis
      proof (cases x)
        case (Some e)
        with call pre m Inr x have "res = Inl e" "d' = d2" by (auto simp: Put_def Let_def)
        then show ?thesis using refused[OF o2 k2 u2] by simp
      next
        case None
        obtain i where i: "d_entries d2 (indexPath ?root ?id) = Some (File i)" "TrimSpace i = digestHex b"
          using xe(3)[OF _ _ None] sb pre(4) unfolding storable_def by fastforce
        obtain v d3 where v: "os_ReadFile (manifestPath ?T) d2 = (v, d3)" by (metis surj_pair)
        note ve = ReadFile_effect[OF v]
        have o3: "disk_ok d3" and k3: "keeps d d3" and u3: "unchangedAt ?T d d3"
          using o2 k2 u2 ve(1) disk_ok_cong[OF ve(1)] by (auto simp: keeps_def unchangedAt_def)
        have step: "Put order ctx s b d = (case v of Inr existing \<Rightarrow> (if existing = bu_ManifestBytes b then Inr ?T else Inl DigestTaken, d3)
            | Inl e \<Rightarrow> if e \<noteq> NotExist then (Inl (StoreIo e), d3) else publish order ctx ?root ?T b d3)"
          using pre m Inr x None v by (cases v) (simp_all add: Put_def Let_def targetPath_def manifestPath_def)
        show ?thesis
        proof (cases "v = Inl NotExist")
          case True
          then have p: "publish order ctx ?root (joinPath ?root (digestHex b)) b d3 = (res, d')" using step call by (simp add: targetPath_def)
          note pe = publish_effect[OF o3 sb pre(4) _ p, folded targetPath_def ownManifest_def]
          have ord: "mset (order (bu_Files b)) = mset (bu_Files b)" using b by (simp add: acceptable_def)
          have "d_entries d' (indexPath ?root ?id) = Some (File i)" using keepsD[OF pe(2)[OF ord]] i(1) ve(1) by simp
          then show ?thesis using pe[OF ord] k3 u3 i(2) pre(3) keeps_trans unchangedAt_trans by blast
        next
          case False
          then have "d' = d3" using step call by (auto split: sum.splits if_splits)
          moreover have "l = ?T \<and> v = Inr (bu_ManifestBytes b)" if "res = Inr l" for l
            using False step call that by (auto split: sum.splits if_splits)
          ultimately show ?thesis using o3 k3 u3 i ve pre(3) by auto
        qed
      qed
    qed
  qed
  then show "disk_ok d'" "keeps d d'" "unchangedAt ?T d d' \<or> (ownManifest b \<longrightarrow> published ?T (bu_ManifestBytes b) (bu_Files b) d')"
    "res = Inr l \<Longrightarrow> l = ?T \<and> (ownManifest b \<longrightarrow> d_entries d' (manifestPath l) = Some (File (bu_ManifestBytes b))) \<and>
      HasPrefix (mf_BundleDigest (bu_Manifest b)) ''sha256:'' \<and>
      (\<exists>i. d_entries d' (indexPath ?root ?id) = Some (File i) \<and> TrimSpace i = digestHex b)" by blast+
qed

text \<open>C12: publishing a bundle, none of whose artifacts is called \<open>manifest.json\<close>, is atomic. Whatever call fails and whenever the context is cancelled, the directory of the bundle's digest is
  afterwards either as it was or holds the manifest and every file of the bundle; when \<open>Put\<close> reports success
  it returns that directory, and the manifest is in it.\<close>

theorem put_atomic:
  assumes "disk_ok d" and "acceptable order b" and "ownManifest b" and "Put order ctx s b d = (res, d')"
  shows "(unchangedAt (targetPath s b) d d' \<or> published (targetPath s b) (bu_ManifestBytes b) (bu_Files b) d') \<and>
    (\<forall>l. res = Inr l \<longrightarrow> l = targetPath s b \<and> d_entries d' (manifestPath l) = Some (File (bu_ManifestBytes b)))"
  using Put_effect(3,4)[OF assms(1,2,4)] assms(3) by blast

text \<open>Any sequence of stores of bundles, with any outcomes.\<close>

fun puts :: "DirectoryStore \<Rightarrow> (((string \<times> string) list \<Rightarrow> (string \<times> string) list) \<times> ctx \<times> Bundle) list \<Rightarrow> disk \<Rightarrow> disk" where
  "puts s [] d = d"
| "puts s ((order, ctx, b) # rest) d = puts s rest (snd (Put order ctx s b d))"

lemma puts_effect:
  "disk_ok d \<Longrightarrow> list_all (\<lambda>(order, ctx, b). acceptable order b) ps \<Longrightarrow> disk_ok (puts s ps d) \<and> keeps d (puts s ps d)"
proof (induction ps arbitrary: d)
  case (Cons p ps)
  obtain order ctx b where p: "p = (order, ctx, b)" by (cases p)
  obtain res d1 where c: "Put order ctx s b d = (res, d1)" by (metis surj_pair)
  have a: "acceptable order b" using Cons.prems(2) p by simp
  note e = Put_effect(1,2)[OF Cons.prems(1) a c]
  with Cons.IH[OF e(1)] Cons.prems(2) p c show ?case by (auto intro: keeps_trans)
qed (simp add: keeps_same)

text \<open>C14: the store only grows. Storing bundles, in any sequence and with any failures, keeps the tree of the disk well formed
  and neither changes nor removes anything that was on it, so a bundle once stored stays as it was.\<close>

theorem store_append_only:
  assumes "disk_ok d" and "list_all (\<lambda>(order, ctx, b). acceptable order b) ps"
  shows "disk_ok (puts s ps d) \<and> (\<forall>x e. d_entries d x = Some e \<longrightarrow> d_entries (puts s ps d) x = Some e)"
  using puts_effect[OF assms] by (simp add: keeps_def)

text \<open>C13: a run ID identifies one bundle for good. When two stores with the same run ID both succeed, with any stores in between,
  the bundles have the same digest.\<close>

theorem run_id_unique:
  assumes ok: "disk_ok d" and acc: "acceptable order1 b1" "acceptable order2 b2" "list_all (\<lambda>(order, ctx, b). acceptable order b) ps"
    and first: "Put order1 ctx1 s b1 d = (Inr l1, d1)" and second: "Put order2 ctx2 s b2 (puts s ps d1) = (Inr l2, d2)"
    and same: "run_RunID (mf_Run (bu_Manifest b1)) = run_RunID (mf_Run (bu_Manifest b2))"
  shows "mf_BundleDigest (bu_Manifest b1) = mf_BundleDigest (bu_Manifest b2)"
proof -
  note e1 = Put_effect[OF ok acc(1) first]
  note mid = puts_effect[OF e1(1) acc(3), of s]
  note e2 = Put_effect[OF mid[THEN conjunct1] acc(2) second]
  let ?i = "indexPath (filePath (ds_Root s)) (run_RunID (mf_Run (bu_Manifest b2)))"
  from e1(4)[OF refl] same obtain i where i: "d_entries d1 ?i = Some (File i)" "TrimSpace i = digestHex b1"
    and h1: "HasPrefix (mf_BundleDigest (bu_Manifest b1)) ''sha256:''" by auto
  have "d_entries d2 ?i = Some (File i)" using keepsD[OF e2(2) keepsD[OF mid[THEN conjunct2] i(1)]] .
  with e2(4)[OF refl] i(2) have "digestHex b1 = digestHex b2" and h2: "HasPrefix (mf_BundleDigest (bu_Manifest b2)) ''sha256:''" by auto
  then show ?thesis using HasPrefixD[OF h1] HasPrefixD[OF h2] by (metis TrimPrefix_append digestHex_def)
qed

section \<open>A store at work\<close>

definition demo_store :: DirectoryStore where "demo_store = \<lparr>ds_Root = ''/e''\<rparr>"

definition demo_digest :: string where "demo_digest = replicate 64 (CHR ''0'')"

definition demo_bundle :: "(string \<times> string) list \<Rightarrow> Bundle" where
  "demo_bundle files = \<lparr>bu_Manifest = \<lparr>mf_SchemaVersion = SchemaVersion, mf_BundleDigest = ''sha256:'' @ demo_digest,
       mf_Run = demo_run, mf_Artifacts = []\<rparr>,
     bu_ManifestBytes = ''m'', bu_Files = files\<rparr>"

definition demo_disk :: "(nat \<Rightarrow> nat option) \<Rightarrow> disk" where
  "demo_disk fault = \<lparr>d_list = [((True, [''x'']), File ''kept'')], d_ops = 0, d_fault = fault, d_random = (\<lambda>_. 7)\<rparr>"

abbreviation demo_put :: "Bundle \<Rightarrow> disk \<Rightarrow> (store_err + path) \<times> disk" where
  "demo_put \<equiv> Put id (\<lambda>_. False) demo_store"

text \<open>An artifact called \<open>manifest.json\<close> replaces the manifest; storing the same bundle again is then refused.\<close>

theorem manifest_artifact_breaks_store:
  "fst (demo_put (demo_bundle [(''manifest.json'', ''other'')]) (demo_disk (\<lambda>_. None))) = Inr (targetPath demo_store (demo_bundle []))"
  "fst (demo_put (demo_bundle [(''manifest.json'', ''other'')]) (snd (demo_put (demo_bundle [(''manifest.json'', ''other'')]) (demo_disk (\<lambda>_. None)))))
     = Inl DigestTaken"
  by code_simp+

text \<open>A write of the index that fails half way leaves a run ID that no later store can use, even of the same bundle on a healthy
  disk.\<close>

theorem failed_write_burns_run_id:
  "fst (demo_put (demo_bundle []) (demo_disk (\<lambda>n. if n = 3 then Some 10 else None))) = Inl (StoreIo Io)"
  "fst (demo_put (demo_bundle []) ((snd (demo_put (demo_bundle []) (demo_disk (\<lambda>n. if n = 3 then Some 10 else None))))\<lparr>d_fault := \<lambda>_. None\<rparr>))
     = Inl (RunIDTaken ''r1'')"
  by code_simp+

lemma demo_disk_ok: "disk_ok (demo_disk fault)"
  by (auto simp: disk_ok_def demo_disk_def d_entries_def)

lemma demo_acceptable: "acceptable id (demo_bundle [])" "acceptable id (demo_bundle [(''a.txt'', ''ok'')])"
proof -
  have "storable (demo_bundle [])" "storable (demo_bundle [(''a.txt'', ''ok'')])" by code_simp+
  then show "acceptable id (demo_bundle [])" "acceptable id (demo_bundle [(''a.txt'', ''ok'')])"
    by (simp_all add: acceptable_def demo_bundle_def)
qed

lemma demo_put_ok: "\<exists>d'. demo_put (demo_bundle [(''a.txt'', ''ok'')]) (demo_disk (\<lambda>_. None)) = (Inr (targetPath demo_store (demo_bundle [])), d')"
proof -
  have "fst (demo_put (demo_bundle [(''a.txt'', ''ok'')]) (demo_disk (\<lambda>_. None))) = Inr (targetPath demo_store (demo_bundle []))" by code_simp
  then show ?thesis by (metis prod.collapse)
qed

theorem put_atomic_witness:
  "\<exists>l d'. demo_put (demo_bundle [(''a.txt'', ''ok'')]) (demo_disk (\<lambda>_. None)) = (Inr l, d') \<and>
     d_entries d' (manifestPath (targetPath demo_store (demo_bundle [(''a.txt'', ''ok'')]))) = Some (File ''m'')"
proof -
  obtain d' where c: "demo_put (demo_bundle [(''a.txt'', ''ok'')]) (demo_disk (\<lambda>_. None)) = (Inr (targetPath demo_store (demo_bundle [])), d')"
    using demo_put_ok by blast
  have "ownManifest (demo_bundle [(''a.txt'', ''ok'')])" by (simp add: ownManifest_def demo_bundle_def)
  from put_atomic[OF demo_disk_ok demo_acceptable(2) this c] c show ?thesis by (auto simp: demo_bundle_def)
qed

theorem store_append_only_witness:
  "d_entries (puts demo_store [(id, \<lambda>_. False, demo_bundle [(''a.txt'', ''ok'')]), (id, \<lambda>_. True, demo_bundle [])] (demo_disk (\<lambda>n. if n = 9 then Some 0 else None)))
     (True, [''x'']) = Some (File ''kept'')"
proof -
  let ?ps = "[(id, \<lambda>_. False, demo_bundle [(''a.txt'', ''ok'')]), (id, \<lambda>_. True, demo_bundle [])] ::
    (((string \<times> string) list \<Rightarrow> (string \<times> string) list) \<times> ctx \<times> Bundle) list"
  have a: "list_all (\<lambda>(order, ctx, b). acceptable order b) ?ps" using demo_acceptable by simp
  have "d_entries (demo_disk f) (True, [''x'']) = Some (File ''kept'')" for f by (simp add: demo_disk_def d_entries_def)
  then show ?thesis using store_append_only[OF demo_disk_ok a, of demo_store] by blast
qed

theorem run_id_unique_witness:
  "\<exists>d1 d2 l2. demo_put (demo_bundle [(''a.txt'', ''ok'')]) (demo_disk (\<lambda>_. None)) = (Inr (targetPath demo_store (demo_bundle [])), d1) \<and>
     demo_put (demo_bundle []) (puts demo_store [] d1) = (Inr l2, d2) \<and>
     mf_BundleDigest (bu_Manifest (demo_bundle [(''a.txt'', ''ok'')])) = mf_BundleDigest (bu_Manifest (demo_bundle []))"
proof -
  obtain d1 where c: "demo_put (demo_bundle [(''a.txt'', ''ok'')]) (demo_disk (\<lambda>_. None)) = (Inr (targetPath demo_store (demo_bundle [])), d1)"
    using demo_put_ok by blast
  have "fst (demo_put (demo_bundle []) (snd (demo_put (demo_bundle [(''a.txt'', ''ok'')]) (demo_disk (\<lambda>_. None))))) =
      Inr (targetPath demo_store (demo_bundle []))" by code_simp
  then obtain d2 where e: "demo_put (demo_bundle []) (puts demo_store [] d1) = (Inr (targetPath demo_store (demo_bundle [])), d2)"
    using c by (metis prod.collapse puts.simps(1) snd_conv)
  have r: "run_RunID (mf_Run (bu_Manifest (demo_bundle [(''a.txt'', ''ok'')]))) = run_RunID (mf_Run (bu_Manifest (demo_bundle [])))"
    by (simp add: demo_bundle_def)
  have "list_all (\<lambda>(order, ctx, b). acceptable order b) []" by simp
  from run_id_unique[OF demo_disk_ok demo_acceptable(2,1) this c e r] c e show ?thesis by blast
qed

section \<open>The exporter\<close>

definition PendingRunLabel :: string where "PendingRunLabel = ''evidence.oubliette.tlrmchlsmth.github.io/pending-run''"

record PendingRun =
  pr_Run :: Run
  pr_Artifacts :: "InputArtifact list"

record ConfigMap =
  cm_Name :: string
  cm_Immutable :: "bool option"
  cm_Data :: smap
  cm_BinaryData :: smap

text \<open>Listing the ConfigMaps of a namespace that carry a label with a value.\<close>

type_synonym 's cm_client = "string \<Rightarrow> string \<Rightarrow> string \<Rightarrow> 's \<Rightarrow> (api_err + ConfigMap list) \<times> 's"

type_synonym 's bundle_store = "Bundle \<Rightarrow> 's \<Rightarrow> (store_err + path) \<times> 's"

record 's ConfigMapExporter =
  ex_Client :: "'s cm_client option"
  ex_Store :: "'s bundle_store option"

datatype export_err =
    ExporterUnconfigured
  | ListPendingFailed api_err
  | NotImmutable string
  | InvalidPending string
  | ForeignPending string
  | BuildPendingFailed string evidence_err
  | StorePendingFailed string store_err

definition encodedRun :: "ConfigMap \<Rightarrow> string" where
  "encodedRun source = (case cm_BinaryData source ''bundle.json'' of Some x \<Rightarrow> x | None \<Rightarrow> mapGet (cm_Data source) ''bundle.json'')"

definition pendingOf :: "(string \<Rightarrow> PendingRun option) \<Rightarrow> Oubliette \<Rightarrow> ConfigMap \<Rightarrow> export_err + PendingRun" where
  "pendingOf unmarshal_pending obj source =
     (if cm_Immutable source \<noteq> Some True then Inl (NotImmutable (cm_Name source))
      else if encodedRun source = '''' then Inl (InvalidPending (cm_Name source))
      else (case unmarshal_pending (encodedRun source) of
        None \<Rightarrow> Inl (InvalidPending (cm_Name source))
      | Some pending \<Rightarrow>
          if run_Oubliette (pr_Run pending) \<noteq> o_Name obj \<or> run_OublietteUID (pr_Run pending) \<noteq> o_UID obj
          then Inl (ForeignPending (cm_Name source)) else Inr pending))"

fun exportSources ::
  "yaml \<Rightarrow> (string \<Rightarrow> PendingRun option) \<Rightarrow> 's bundle_store \<Rightarrow> Oubliette \<Rightarrow> ConfigMap list \<Rightarrow> 's \<Rightarrow> export_err option \<times> 's" where
  "exportSources Y U store obj [] s = (None, s)"
| "exportSources Y U store obj (source # sources) s =
     (case pendingOf U obj source of
        Inl e \<Rightarrow> (Some e, s)
      | Inr pending \<Rightarrow>
          (case BuildRunBundle Y (pr_Run pending) (pr_Artifacts pending) of
             Inl e \<Rightarrow> (Some (BuildPendingFailed (cm_Name source) e), s)
           | Inr bundle \<Rightarrow>
               (case store bundle s of
                  (Inl e, s1) \<Rightarrow> (Some (StorePendingFailed (cm_Name source) e), s1)
                | (Inr _, s1) \<Rightarrow> exportSources Y U store obj sources s1)))"

definition ExportBeforeTeardown ::
  "yaml \<Rightarrow> (string \<Rightarrow> PendingRun option) \<Rightarrow> 's ConfigMapExporter \<Rightarrow> Oubliette \<Rightarrow> string \<Rightarrow> 's \<Rightarrow> export_err option \<times> 's" where
  "ExportBeforeTeardown Y U e obj namespace s =
     (case (ex_Client e, ex_Store e) of
        (Some client, Some store) \<Rightarrow>
          if namespace = '''' then (Some ExporterUnconfigured, s)
          else (case client namespace PendingRunLabel ''true'' s of
            (Inl err, s1) \<Rightarrow> (Some (ListPendingFailed err), s1)
          | (Inr sources, s1) \<Rightarrow> exportSources Y U store obj sources s1)
      | _ \<Rightarrow> (Some ExporterUnconfigured, s))"

section \<open>Exporting to the directory store\<close>

text \<open>The exporter of the controller: host state and disk side by side.\<close>

definition directoryExporter ::
  "((string \<times> string) list \<Rightarrow> (string \<times> string) list) \<Rightarrow> ctx \<Rightarrow> DirectoryStore \<Rightarrow> 'h cm_client \<Rightarrow> ('h \<times> disk) ConfigMapExporter" where
  "directoryExporter order ctx st client =
     \<lparr>ex_Client = Some (\<lambda>ns k v. onHost (client ns k v)), ex_Store = Some (\<lambda>b. onDisk (Put order ctx st b))\<rparr>"

lemma BuildRunBundle_storable: "BuildRunBundle Y run inputs = Inr b \<Longrightarrow> storable b"
  by (auto simp: BuildRunBundle_def Let_def Build_storable split: if_splits option.splits)

text \<open>The bundle of a source is stored: its manifest is on the disk, and its run ID is reserved for its digest.\<close>

definition storedRun :: "yaml \<Rightarrow> (string \<Rightarrow> PendingRun option) \<Rightarrow> DirectoryStore \<Rightarrow> Oubliette \<Rightarrow> disk \<Rightarrow> ConfigMap \<Rightarrow> bool" where
  "storedRun Y U st obj d source \<longleftrightarrow> (\<exists>pending b i. pendingOf U obj source = Inr pending \<and>
     BuildRunBundle Y (pr_Run pending) (pr_Artifacts pending) = Inr b \<and>
     (ownManifest b \<longrightarrow> d_entries d (manifestPath (targetPath st b)) = Some (File (bu_ManifestBytes b))) \<and>
     d_entries d (indexPath (filePath (ds_Root st)) (run_RunID (mf_Run (bu_Manifest b)))) = Some (File i) \<and> TrimSpace i = digestHex b)"

lemma storedRun_keeps: "storedRun Y U st obj d source \<Longrightarrow> keeps d d' \<Longrightarrow> storedRun Y U st obj d' source"
  unfolding storedRun_def using keepsD by blast

lemma exportSources_stored:
  assumes "exportSources Y U (\<lambda>b. onDisk (Put order ctx st b)) obj sources s = (res, s')" and "disk_ok (snd s)"
    and "\<And>fs. mset (order fs) = mset fs"
  shows "fst s' = fst s \<and> disk_ok (snd s') \<and> keeps (snd s) (snd s') \<and> (res = None \<longrightarrow> list_all (storedRun Y U st obj (snd s')) sources)"
  using assms(1,2)
proof (induction sources arbitrary: s)
  case (Cons source sources)
  show ?case
  proof (cases "\<exists>pending b. pendingOf U obj source = Inr pending \<and> BuildRunBundle Y (pr_Run pending) (pr_Artifacts pending) = Inr b")
    case False
    then have "res \<noteq> None" "s' = s" using Cons.prems(1) by (auto split: sum.splits)
    then show ?thesis using Cons.prems(2) keeps_same by blast
  next
    case True
    then obtain pending b where p: "pendingOf U obj source = Inr pending" "BuildRunBundle Y (pr_Run pending) (pr_Artifacts pending) = Inr b"
      by blast
    obtain x d1 where c: "Put order ctx st b (snd s) = (x, d1)" by (metis surj_pair)
    have on: "onDisk (Put order ctx st b) s = (x, fst s, d1)" by (simp add: onDisk_def c)
    have "acceptable order b" using BuildRunBundle_storable[OF p(2)] assms(3) by (simp add: acceptable_def)
    note e = Put_effect[OF Cons.prems(2) this c]
    show ?thesis
    proof (cases x)
      case (Inl er)
      with Cons.prems(1) p on e show ?thesis by auto
    next
      case (Inr l)
      then have rest: "exportSources Y U (\<lambda>b. onDisk (Put order ctx st b)) obj sources (fst s, d1) = (res, s')"
        using Cons.prems(1) p on by simp
      note IH = Cons.IH[OF rest, simplified, OF e(1)]
      have "storedRun Y U st obj d1 source" using e(4)[OF Inr] p unfolding storedRun_def by blast
      then show ?thesis using IH e(2) storedRun_keeps keeps_trans by auto
    qed
  qed
qed (simp add: keeps_same)

lemma exportSources_host:
  "exportSources Y U (\<lambda>b. onDisk (Put order ctx st b)) obj sources s = (res, s') \<Longrightarrow> fst s' = fst s"
  by (induction sources arbitrary: s) (auto simp: onDisk_def split: sum.splits prod.splits)

text \<open>What a successful export leaves, when \<open>order\<close> visits every file of a bundle: the disk only grew, and every run pending in the
  namespace is stored.\<close>

definition exportedRuns ::
  "((string \<times> string) list \<Rightarrow> (string \<times> string) list) \<Rightarrow> yaml \<Rightarrow> (string \<Rightarrow> PendingRun option) \<Rightarrow> DirectoryStore \<Rightarrow> 'h cm_client \<Rightarrow>
   Oubliette \<Rightarrow> string \<Rightarrow> 'h \<times> disk \<Rightarrow> 'h \<times> disk \<Rightarrow> bool" where
  "exportedRuns order Y U st client obj namespace s s' \<longleftrightarrow>
     (\<exists>sources. client namespace PendingRunLabel ''true'' (fst s) = (Inr sources, fst s') \<and>
       ((\<forall>fs. mset (order fs) = mset fs) \<longrightarrow> disk_ok (snd s) \<longrightarrow>
        disk_ok (snd s') \<and> keeps (snd s) (snd s') \<and> list_all (storedRun Y U st obj (snd s')) sources))"

lemma ExportBeforeTeardown_stored:
  assumes "ExportBeforeTeardown Y U (directoryExporter order ctx st client) obj namespace s = (None, s')"
  shows "exportedRuns order Y U st client obj namespace s s'"
proof -
  from assms(1) obtain sources h where l: "client namespace PendingRunLabel ''true'' (fst s) = (Inr sources, h)"
    and e: "exportSources Y U (\<lambda>b. onDisk (Put order ctx st b)) obj sources (h, snd s) = (None, s')"
    by (auto simp: ExportBeforeTeardown_def directoryExporter_def onHost_def split: if_splits prod.splits sum.splits)
  have "fst s' = h" using exportSources_host[OF e] by simp
  then show ?thesis using l exportSources_stored[OF e] by (auto simp: exportedRuns_def)
qed

interpretation teardown: teardown_host "helmManager m" "release_gone m" "handoff_observed m"
  "ExportBeforeTeardown Y U (directoryExporter order ctx st client)" "exportedRuns order Y U st client"
  by unfold_locales (rule ExportBeforeTeardown_stored)

text \<open>C7: evidence leaves before anything is deleted. With the Helm manager and the directory store of the controller's main, a teardown
  whose export fails ends there, with the export's error and the state the exporter left; one that completes has
  exported every run pending in the namespace, then uninstalled the release, and found the namespace gone before it recorded the end.\<close>

theorem evidence_before_teardown:
  assumes V: "r_VCluster r = helmManager m"
    and E: "r_EvidenceExporter r = Some (ExportBeforeTeardown Y U (directoryExporter order ctx st client))"
  shows "(\<forall>obj1 s1 e s2. markExpiring r obj expired s = (Inr obj1, s1) \<and>
      ExportBeforeTeardown Y U (directoryExporter order ctx st client) obj1 namespace s1 = (Some e, s2) \<longrightarrow>
      finalize r obj namespace expired now s = ((noResult, Some (ExportBeforeTeardownFailed e)), s2)) \<and>
    (\<forall>res s'. finalize r obj namespace expired now s = ((res, None), s') \<and> res \<noteq> after (2 * Second) \<longrightarrow>
      (\<exists>obj1 s1 s2 s3 s4 e. markExpiring r obj expired s = (Inr obj1, s1) \<and> exportedRuns order Y U st client obj1 namespace s1 s2 \<and>
        release_gone m (o_Name obj1) namespace s2 s3 \<and> getNamespace (r_Cluster r) namespace s3 = (Inl e, s4) \<and> IsNotFound e \<and>
        (if expired then finishExpired r obj1 now s4 else finishDeleted r obj1 s4) = ((res, None), s')))"
  by (intro conjI allI impI; elim conjE)
    (rule teardown.failed_export_stops[OF E], assumption+, rule teardown.teardown_ordered[OF V E], assumption+)

text \<open>The in-memory host of theory \<open>Controller\<close> beside a disk, with the Helm manager and the exporter.\<close>

definition export_reconciler :: "world cm_client \<Rightarrow> (world \<times> disk, export_err) Reconciler" where
  "export_reconciler client = \<lparr>
     r_Client = \<lparr>cl_Get = (\<lambda>n. onHost (cl_Get worldclient n)), cl_List = onHost (cl_List worldclient),
       cl_Create = (\<lambda>x. onHost (cl_Create worldclient x)), cl_Update = (\<lambda>x. onHost (cl_Update worldclient x)),
       cl_Delete = (\<lambda>x. onHost (cl_Delete worldclient x)), cl_StatusPatch = (\<lambda>x b. onHost (cl_StatusPatch worldclient x b))\<rparr>,
     r_Cluster = \<lparr>createOrUpdate = (\<lambda>x f. onHost (createOrUpdate worldcluster x f)),
       setControllerReference = setControllerReference worldcluster, getNamespace = (\<lambda>n. onHost (getNamespace worldcluster n)),
       removeNamespace = (\<lambda>n. onHost (removeNamespace worldcluster n)), getClusterQueue = (\<lambda>n. onHost (getClusterQueue worldcluster n))\<rparr>,
     r_Discovery = \<lparr>ds_GetService = (\<lambda>_ _ s. (None, s)), ds_ListSlices = (\<lambda>_ _ s. (Inr [[Some True]], s))\<rparr>,
     r_Meta = listmeta, r_ErrorText = (\<lambda>_. ''error''), r_VCluster = helmManager (demo_manager demo_helm idle_host idle_virtual),
     r_TombstoneRetention = 0, r_KueueClusterQueue = '''', r_KueueManagedLabel = '''', r_KueueManagedValue = '''',
     r_MetricsProfile = disabledMetrics, r_MetricsServiceNamespace = '''', r_MetricsServiceName = '''',
     r_EvidenceExporter = Some (ExportBeforeTeardown plain_yaml (\<lambda>_. None) (directoryExporter id (\<lambda>_. False) demo_store client))\<rparr>"

lemma demo_teardown:
  "finalize (export_reconciler (\<lambda>_ _ _ h. (Inr [], h))) (demo_oub ''a'') ''oub-a'' False 0 (emptyWorld, demo_disk (\<lambda>_. None)) =
     ((noResult, None), (emptyWorld, demo_disk (\<lambda>_. None)))"
  by (simp add: export_reconciler_def finalize_def markExpiring_def runExport_def ExportBeforeTeardown_def directoryExporter_def onHost_def
      helmManager_def HelmManager_Delete_def demo_manager_def demo_helm_def deleteNamespace_def worldcluster_def memcluster_def liftk_def
      emptyWorld_def finishDeleted_def ContainsFinalizer_def demo_oub_def)

theorem evidence_before_teardown_witness:
  "\<exists>s1 s2 s3. exportedRuns id plain_yaml (\<lambda>_. None) demo_store (\<lambda>_ _ _ h :: world. (Inr [], h)) (demo_oub ''a'') ''oub-a'' s1 s2 \<and>
     release_gone (demo_manager demo_helm idle_host idle_virtual) ''a'' ''oub-a'' s2 s3"
proof -
  let ?r = "export_reconciler (\<lambda>_ _ _ h. (Inr [], h))"
  have V: "r_VCluster ?r = helmManager (demo_manager demo_helm idle_host idle_virtual)" by (simp add: export_reconciler_def)
  have E: "r_EvidenceExporter ?r = Some (ExportBeforeTeardown plain_yaml (\<lambda>_. None)
      (directoryExporter id (\<lambda>_. False) demo_store (\<lambda>_ _ _ h. (Inr [], h))))" by (simp add: export_reconciler_def)
  have n: "noResult \<noteq> after (2 * Second)" by (simp add: noResult_def after_def Second_def)
  have o: "o_Name (demo_oub ''a'') = ''a''" by (simp add: demo_oub_def)
  from evidence_before_teardown[OF V E, of "demo_oub ''a''" False "(emptyWorld, demo_disk (\<lambda>_. None))" "''oub-a''" 0,
      THEN conjunct2, rule_format, OF conjI[OF demo_teardown n]]
  obtain obj1 s1 s2 s3 where m: "markExpiring ?r (demo_oub ''a'') False (emptyWorld, demo_disk (\<lambda>_. None)) = (Inr obj1, s1)"
    and x: "exportedRuns id plain_yaml (\<lambda>_. None) demo_store (\<lambda>_ _ _ h :: world. (Inr [], h)) obj1 ''oub-a'' s1 s2"
    "release_gone (demo_manager demo_helm idle_host idle_virtual) (o_Name obj1) ''oub-a'' s2 s3" by blast
  from m have obj1: "obj1 = demo_oub ''a''" by (simp add: markExpiring_def)
  from x[unfolded obj1 o] show ?thesis by blast
qed

end
