(* ===== verification/Commands.thy ===== *)
theory Commands
  imports MetricsGateway MetricsAccess EvidenceStore
begin

text \<open>
  How the programs put the components together, from their flags: \<open>cmd/metrics-gateway/main.go\<close>, which sets up the query gateway and the access
  handler on one token codec, and \<open>cmd/controller/main.go\<close>, which sets up the reconciler with the Helm manager and the evidence exporter. A call
  of \<open>log.Fatal\<close> or \<open>panic\<close> is an error value. The clients made from the cluster configuration are parameters; flag parsing, the HTTP
  server and the manager's loop are not modelled.
\<close>

section \<open>The metrics gateway\<close>

record gateway_flags =
  gf_upstream :: string
  gf_profileGeneration :: string
  gf_allowedMetrics :: string
  gf_sensitiveLabels :: string
  gf_keyFile :: string
  gf_issuerTokenFile :: string
  gf_upstreamTokenFile :: string
  gf_maxLookback :: duration
  gf_minStep :: duration
  gf_maxExecutionTime :: duration
  gf_maxTokenTTL :: duration
  gf_maxSamples :: int
  gf_maxResponseBytes :: int64
  gf_maxConcurrency :: int
  gf_maxRequestsPerMinute :: int

datatype gateway_fatal = FatalRead os_err | FatalShortKey | FatalShortIssuerToken | FatalRequiredFlags | FatalClient

record 's gateway_setup =
  gs_Resolver :: "'s KubernetesResolver"
  gs_IssuerClient :: "'s oub_client option"
  gs_IssuerCodec :: TokenCodec
  gs_BearerToken :: string

definition splitList :: "string \<Rightarrow> string list" where
  "splitList value = filter (\<lambda>item. item \<noteq> '''') (map TrimSpace (Split value (CHR '','')))"

definition gatewayPolicy :: "gateway_flags \<Rightarrow> string list \<Rightarrow> Policy" where
  "gatewayPolicy fl metrics = \<lparr>p_AllowedMetrics = metrics, p_SensitiveLabels = splitList (gf_sensitiveLabels fl),
     p_MaxLookback = gf_maxLookback fl, p_MinStep = gf_minStep fl, p_MaxExecutionTime = gf_maxExecutionTime fl,
     p_MaxSamples = gf_maxSamples fl, p_MaxResponseBytes = gf_maxResponseBytes fl, p_MaxConcurrency = gf_maxConcurrency fl,
     p_MaxRequestsPerMinute = gf_maxRequestsPerMinute fl\<rparr>"

definition gatewayCodec :: "gateway_flags \<Rightarrow> string \<Rightarrow> TokenCodec" where
  "gatewayCodec fl key = \<lparr>k_Key = key, k_Audience = ''oubliette-metrics'', k_MaxTTL = gf_maxTokenTTL fl\<rparr>"

definition upstreamAuthorization :: "gateway_flags \<Rightarrow> disk \<Rightarrow> (os_err + string) \<times> disk" where
  "upstreamAuthorization fl d =
     (if gf_upstreamTokenFile fl = '''' then (Inr '''', d)
      else (case os_ReadFile (filePath (gf_upstreamTokenFile fl)) d of
        (Inl e, d1) \<Rightarrow> (Inl e, d1)
      | (Inr token, d1) \<Rightarrow> (Inr (''Bearer '' @ TrimSpace token), d1)))"

definition gatewayMain :: "gateway_flags \<Rightarrow> 's oub_client option \<Rightarrow> disk \<Rightarrow> (gateway_fatal + 's gateway_setup) \<times> disk" where
  "gatewayMain fl newClient d =
     (case os_ReadFile (filePath (gf_keyFile fl)) d of
        (Inl e, d1) \<Rightarrow> (Inl (FatalRead e), d1)
      | (Inr rawKey, d1) \<Rightarrow>
          let key = TrimSpace rawKey in
          if length key < 32 then (Inl FatalShortKey, d1)
          else (case os_ReadFile (filePath (gf_issuerTokenFile fl)) d1 of
            (Inl e, d2) \<Rightarrow> (Inl (FatalRead e), d2)
          | (Inr rawToken, d2) \<Rightarrow>
              let issuerToken = TrimSpace rawToken in
              if length issuerToken < 32 then (Inl FatalShortIssuerToken, d2)
              else let metrics = splitList (gf_allowedMetrics fl) in
              if gf_upstream fl = '''' \<or> gf_profileGeneration fl = '''' \<or> length metrics = 0 then (Inl FatalRequiredFlags, d2)
              else (case upstreamAuthorization fl d2 of
                (Inl e, d3) \<Rightarrow> (Inl (FatalRead e), d3)
              | (Inr authorization, d3) \<Rightarrow>
                  (case newClient of
                     None \<Rightarrow> (Inl FatalClient, d3)
                   | Some kube \<Rightarrow>
                       (Inr \<lparr>gs_Resolver = \<lparr>kr_Client = Some kube, kr_Codec = gatewayCodec fl key, kr_Upstream = gf_upstream fl,
                               kr_UpstreamAuthorization = authorization, kr_ProfileGeneration = gf_profileGeneration fl,
                               kr_Policy = gatewayPolicy fl metrics\<rparr>,
                             gs_IssuerClient = Some kube, gs_IssuerCodec = gatewayCodec fl key, gs_BearerToken = issuerToken\<rparr>, d3)))))"

section \<open>The controller\<close>

record controller_flags =
  cm_chartPath :: string
  cm_tombstoneRetention :: duration
  cm_kueueClusterQueue :: string
  cm_kueueManagedLabel :: string
  cm_kueueManagedValue :: string
  cm_hostWorkloadQueue :: string
  cm_runAsUser :: int64
  cm_runAsGroup :: int64
  cm_fsGroup :: int64
  cm_storageRequest :: string
  cm_storageLimit :: string
  cm_metricsGeneration :: string
  cm_metricsEndpointPrefix :: string
  cm_metricsIsolationScope :: string
  cm_metricsTrustDomain :: string
  cm_metricsServiceNamespace :: string
  cm_metricsServiceName :: string
  cm_evidenceStore :: string

datatype controller_panic = PanicValues values_err | PanicMetrics

definition valuesOf :: "controller_flags \<Rightarrow> ValuesOptions" where
  "valuesOf fl = \<lparr>vo_HostWorkloadQueue = cm_hostWorkloadQueue fl,
     vo_RuntimeIdentity = Some \<lparr>ri_User = cm_runAsUser fl, ri_Group = cm_runAsGroup fl, ri_FSGroup = cm_fsGroup fl\<rparr>,
     vo_EphemeralStorage = Some \<lparr>rb_Request = cm_storageRequest fl, rb_Limit = cm_storageLimit fl\<rparr>\<rparr>"

definition metricsProfileOf :: "controller_flags \<Rightarrow> MetricsProfile" where
  "metricsProfileOf fl = disabledMetrics\<lparr>mp_Enabled := cm_metricsGeneration fl \<noteq> '''', mp_Generation := cm_metricsGeneration fl,
     mp_EndpointPrefix := cm_metricsEndpointPrefix fl, mp_IsolationScope := cm_metricsIsolationScope fl,
     mp_TrustDomain := cm_metricsTrustDomain fl\<rparr>"

definition validateFlags :: "validators \<Rightarrow> controller_flags \<Rightarrow> controller_panic option" where
  "validateFlags V fl =
     (case ValuesOptions_Validate V (valuesOf fl) of
        Some e \<Rightarrow> Some (PanicValues e)
      | None \<Rightarrow>
          let p = metricsProfileOf fl in
          if mp_Enabled p \<and> (mp_IsolationScope p = '''' \<or> mp_TrustDomain p = '''') then Some PanicMetrics else None)"

text \<open>What the manager and the client libraries provide, a parameter: the clients over the host's state beside the disk, Helm, the validators, and of the
  exporter the ConfigMap client, the decoders, the context and the order in which Go visits a map.\<close>

record 'h host_parts =
  hp_Client :: "('h \<times> disk) oub_client"
  hp_Cluster :: "('h \<times> disk) cluster"
  hp_Discovery :: "('h \<times> disk) discovery"
  hp_Meta :: apimeta
  hp_ErrorText :: "export_err ctl_err \<Rightarrow> string"
  hp_Helm :: "('h \<times> disk) helm"
  hp_HostClient :: "('h \<times> disk) hostclient"
  hp_Library :: "('h \<times> disk) clientlib"
  hp_Validators :: validators
  hp_ConfigMaps :: "'h cm_client"
  hp_Yaml :: yaml
  hp_Pending :: "string \<Rightarrow> PendingRun option"
  hp_Context :: ctx
  hp_Order :: "(string \<times> string) list \<Rightarrow> (string \<times> string) list"

definition helmManagerOf :: "'h host_parts \<Rightarrow> controller_flags \<Rightarrow> ('h \<times> disk) HelmManager" where
  "helmManagerOf hp fl = \<lparr>hmgr_ChartPath = cm_chartPath fl, hmgr_Helm = hp_Helm hp, hmgr_Client = hp_HostClient hp,
     hmgr_Library = hp_Library hp, hmgr_VirtualClientFactory = None, hmgr_Validators = hp_Validators hp, hmgr_Values = valuesOf fl\<rparr>"

definition exporterOf :: "'h host_parts \<Rightarrow> controller_flags \<Rightarrow> ('h \<times> disk, export_err) exporter" where
  "exporterOf hp fl = ExportBeforeTeardown (hp_Yaml hp) (hp_Pending hp)
     (directoryExporter (hp_Order hp) (hp_Context hp) \<lparr>ds_Root = cm_evidenceStore fl\<rparr> (hp_ConfigMaps hp))"

definition controllerMain :: "'h host_parts \<Rightarrow> controller_flags \<Rightarrow> controller_panic + ('h \<times> disk, export_err) Reconciler" where
  "controllerMain hp fl =
     (case validateFlags (hp_Validators hp) fl of
        Some e \<Rightarrow> Inl e
      | None \<Rightarrow>
          Inr \<lparr>r_Client = hp_Client hp, r_Cluster = hp_Cluster hp, r_Discovery = hp_Discovery hp, r_Meta = hp_Meta hp,
            r_ErrorText = hp_ErrorText hp, r_VCluster = helmManager (helmManagerOf hp fl),
            r_TombstoneRetention = cm_tombstoneRetention fl, r_KueueClusterQueue = cm_kueueClusterQueue fl,
            r_KueueManagedLabel = cm_kueueManagedLabel fl, r_KueueManagedValue = cm_kueueManagedValue fl,
            r_MetricsProfile = metricsProfileOf fl, r_MetricsServiceNamespace = cm_metricsServiceNamespace fl,
            r_MetricsServiceName = cm_metricsServiceName fl, r_EvidenceExporter = Some (exporterOf hp fl)\<rparr>)"

section \<open>What a started gateway guarantees\<close>

lemma gatewayMain_Inr:
  assumes "gatewayMain fl newClient d = (Inr gs, d')"
  obtains key C where "newClient = Some C" "32 \<le> length key" "32 \<le> length (gs_BearerToken gs)" "gs_IssuerClient gs = Some C"
    "gs_IssuerCodec gs = gatewayCodec fl key" "kr_Codec (gs_Resolver gs) = gatewayCodec fl key" "kr_Client (gs_Resolver gs) = Some C"
    "kr_Upstream (gs_Resolver gs) = gf_upstream fl" "kr_ProfileGeneration (gs_Resolver gs) = gf_profileGeneration fl" "gf_profileGeneration fl \<noteq> ''''"
    "kr_Policy (gs_Resolver gs) = gatewayPolicy fl (splitList (gf_allowedMetrics fl))" "splitList (gf_allowedMetrics fl) \<noteq> []"
  using assms by (auto simp: gatewayMain_def Let_def not_less split: prod.splits sum.splits option.splits if_splits)

text \<open>A decoded request holds valid UTF-8, as every string of the JSON decoder does.\<close>

lemma setRequestFields_utf8:
  "setRequestFields ms q = Some q' \<Longrightarrow> members_ok d ms \<Longrightarrow> valid_utf8 (ir_Subject q) \<Longrightarrow> valid_utf8 (ir_Subject q')"
proof (induction ms q rule: setRequestFields.induct)
  case (2 m ms q)
  from 2(2) obtain q1 where q1: "setRequestField m q = Some q1" "setRequestFields ms q1 = Some q'" by (auto split: option.splits)
  have ok: "json_ok d (snd m)" "members_ok d ms" using 2(3) by (cases m, simp)+
  have "valid_utf8 (ir_Subject q1)" using q1(1) ok(1) 2(4)
    by (cases "snd m") (auto simp: setRequestField_def Let_def split: if_splits)
  with 2(1)[OF q1] ok(2) show ?case by blast
qed simp

lemma decodeRequest_utf8:
  assumes "decodeRequest body = Some q"
  shows "valid_utf8 (ir_Subject q)"
proof -
  have z: "valid_utf8 (ir_Subject zeroRequest)" by (simp add: zeroRequest_def)
  from assms consider "q = zeroRequest" | ms where "decode_first (take 16384 body) = Some (JObj ms)" "setRequestFields ms zeroRequest = Some q"
    by (auto simp: decodeRequest_def split: option.splits json.splits)
  then show ?thesis
  proof cases
    case 2
    then show ?thesis using decode_first_ok[OF 2(1)] z setRequestFields_utf8[OF 2(2)] by auto
  qed (simp add: z)
qed

lemma resolve_issued:
  assumes v: "Validate (kr_Codec kr) now1 now2 token = Inr claims" and C: "kr_Client kr = Some C" and g: "kr_ProfileGeneration kr \<noteq> ''''"
    and get: "cl_Get C (tk_Oubliette claims) s = (Inr obj, s')" "o_Name obj = tk_Oubliette claims" and l: "live am kr now3 claims obj"
  shows "KubernetesResolver_Resolve am kr now1 now2 now3 (bearer @ token) s =
    (Inr \<lparr>sc_Subject = tk_Subject claims, sc_Oubliette = tk_Oubliette claims, sc_TrustDomain = tk_TrustDomain claims, sc_Upstream = kr_Upstream kr,
       sc_UpstreamAuthorization = kr_UpstreamAuthorization kr, sc_Policy = kr_Policy kr\<rparr>, s')"
  using assms by (simp add: KubernetesResolver_Resolve_def TokenResolver_Resolve_def HasPrefix_append TrimPrefix_append resolveClaims_def live_def Let_def)

text \<open>C17: the credential that a started gateway's access handler answers with opens that gateway: until it expires, as long as the validating clock is not more
  than thirty seconds behind and the Oubliette is still live under the configured profile generation and its trust domain, presenting it as a bearer token resolves to a
  scope for exactly the requested subject and that Oubliette, with the configured upstream and policy.\<close>

theorem credential_opens_gateway:
  assumes start: "gatewayMain fl newClient d = (Inr gs, d')"
    and served: "accessHTTP am (gs_IssuerClient gs) (gs_IssuerCodec gs) (gs_BearerToken gs) now codecNow r s = (resp, s')" "rs_Status resp = StatusOK"
    and clock: "Time_Unix now \<noteq> 0"
  shows "\<exists>q C obj token. decodeRequest (rq_Body r) = Some q \<and> newClient = Some C \<and> cl_Get C (ir_Oubliette q) s = (Inr obj, s') \<and>
    rs_Body resp = encode (responseJson \<lparr>is_EndpointIdentity = st_MetricsEndpoint (o_Status obj), is_Credential = token,
       is_ExpiresAt = FormatRFC3339 (Time_Add now (effectiveTTL (ir_TTLSeconds q * Second)))\<rparr>) @ [CHR 0x0A] \<and>
    (\<forall>now1 now2 now3 t t' obj'. valid_utf8 (o_Name obj) \<longrightarrow> valid_utf8 (st_MetricsTrustDomain (o_Status obj)) \<longrightarrow>
       sint (Time_Unix now) \<le> sint (Time_Unix now1 + 30) \<longrightarrow>
       sint (Time_Unix now2) < sint (Time_Unix (Time_Add now (effectiveTTL (ir_TTLSeconds q * Second)))) \<longrightarrow>
       cl_Get C (o_Name obj) t = (Inr obj', t') \<longrightarrow> o_Name obj' = o_Name obj \<longrightarrow>
       live am (gs_Resolver gs) now3 \<lparr>tk_Subject = ir_Subject q, tk_Oubliette = o_Name obj, tk_TrustDomain = st_MetricsTrustDomain (o_Status obj),
         tk_Audience = ''oubliette-metrics'', tk_IssuedUnix = 0, tk_ExpiresUnix = 0\<rparr> obj' \<longrightarrow>
       KubernetesResolver_Resolve am (gs_Resolver gs) now1 now2 now3 (bearer @ token) t =
         (Inr \<lparr>sc_Subject = ir_Subject q, sc_Oubliette = o_Name obj, sc_TrustDomain = st_MetricsTrustDomain (o_Status obj), sc_Upstream = gf_upstream fl,
            sc_UpstreamAuthorization = kr_UpstreamAuthorization (gs_Resolver gs), sc_Policy = gatewayPolicy fl (splitList (gf_allowedMetrics fl))\<rparr>, t'))"
proof -
  from start obtain key C where g: "newClient = Some C" "gs_IssuerClient gs = Some C" "gs_IssuerCodec gs = gatewayCodec fl key"
    "kr_Codec (gs_Resolver gs) = gatewayCodec fl key" "kr_Client (gs_Resolver gs) = Some C" "kr_Upstream (gs_Resolver gs) = gf_upstream fl"
    "kr_ProfileGeneration (gs_Resolver gs) = gf_profileGeneration fl" "gf_profileGeneration fl \<noteq> ''''"
    "kr_Policy (gs_Resolver gs) = gatewayPolicy fl (splitList (gf_allowedMetrics fl))" by (rule gatewayMain_Inr)
  obtain q C' obj token where h: "decodeRequest (rq_Body r) = Some q" "gs_IssuerClient gs = Some C'" "cl_Get C' (ir_Oubliette q) s = (Inr obj, s')"
    "Issue (gs_IssuerCodec gs) codecNow (accessClaims (gs_IssuerCodec gs) now \<lparr>rq_Subject = ir_Subject q, rq_Oubliette = ir_Oubliette q,
       rq_Placement = ir_Placement q, rq_TTL = ir_TTLSeconds q * Second\<rparr> obj) = Inr token"
    "rs_Body resp = encode (responseJson \<lparr>is_EndpointIdentity = st_MetricsEndpoint (o_Status obj), is_Credential = token,
       is_ExpiresAt = FormatRFC3339 (Time_Add now (effectiveTTL (ir_TTLSeconds q * Second)))\<rparr>) @ [CHR 0x0A]"
    by (rule accessHTTP_issued[OF served])
  let ?cl = "accessClaims (gatewayCodec fl key) now \<lparr>rq_Subject = ir_Subject q, rq_Oubliette = ir_Oubliette q,
    rq_Placement = ir_Placement q, rq_TTL = ir_TTLSeconds q * Second\<rparr> obj"
  have sel: "tk_Subject ?cl = ir_Subject q" "tk_Oubliette ?cl = o_Name obj" "tk_TrustDomain ?cl = st_MetricsTrustDomain (o_Status obj)"
    "tk_IssuedUnix ?cl = Time_Unix now" "tk_ExpiresUnix ?cl = Time_Unix (Time_Add now (effectiveTTL (ir_TTLSeconds q * Second)))"
    "tk_Audience ?cl = ''oubliette-metrics''" by (simp_all add: accessClaims_def gatewayCodec_def)
  have issued: "issued codecNow ?cl = ?cl" using clock sel(4) by (simp add: issued_def)
  have aud: "valid_utf8 ''oubliette-metrics''" by code_simp
  have opens: "KubernetesResolver_Resolve am (gs_Resolver gs) now1 now2 now3 (bearer @ token) t =
      (Inr \<lparr>sc_Subject = ir_Subject q, sc_Oubliette = o_Name obj, sc_TrustDomain = st_MetricsTrustDomain (o_Status obj), sc_Upstream = gf_upstream fl,
         sc_UpstreamAuthorization = kr_UpstreamAuthorization (gs_Resolver gs), sc_Policy = gatewayPolicy fl (splitList (gf_allowedMetrics fl))\<rparr>, t')"
    if a: "valid_utf8 (o_Name obj)" "valid_utf8 (st_MetricsTrustDomain (o_Status obj))" "sint (Time_Unix now) \<le> sint (Time_Unix now1 + 30)"
      "sint (Time_Unix now2) < sint (Time_Unix (Time_Add now (effectiveTTL (ir_TTLSeconds q * Second))))"
      "cl_Get C (o_Name obj) t = (Inr obj', t')" "o_Name obj' = o_Name obj"
      "live am (gs_Resolver gs) now3 \<lparr>tk_Subject = ir_Subject q, tk_Oubliette = o_Name obj, tk_TrustDomain = st_MetricsTrustDomain (o_Status obj),
         tk_Audience = ''oubliette-metrics'', tk_IssuedUnix = 0, tk_ExpiresUnix = 0\<rparr> obj'" for now1 now2 now3 t t' obj'
  proof -
    have "claims_utf8 ?cl" using a(1,2) decodeRequest_utf8[OF h(1)] aud by (simp only: claims_utf8_def sel)
    then have "Validate (gatewayCodec fl key) now1 now2 token = Inr (issued codecNow ?cl)"
      using Issue_validates[OF h(4)[unfolded g(3)], of now1 now2] a(3,4) by (simp only: issued sel)
    moreover have "live am (gs_Resolver gs) now3 ?cl obj'" using a(7) by (simp add: live_def sel)
    ultimately show ?thesis
      using resolve_issued[of "gs_Resolver gs" now1 now2 token ?cl C t obj' t' am now3] g a(5,6) by (simp add: issued sel)
  qed
  have C: "C' = C" using h(2) g(2) by simp
  show ?thesis
    by (rule exI[of _ q], rule exI[of _ C], rule exI[of _ obj], rule exI[of _ token]) (use h(1,3,5) g(1) C opens in blast)
qed

definition demo_flags :: gateway_flags where
  "demo_flags = \<lparr>gf_upstream = ''http://prom'', gf_profileGeneration = ''g1'', gf_allowedMetrics = ''up'', gf_sensitiveLabels = ''node'',
     gf_keyFile = ''/k'', gf_issuerTokenFile = ''/t'', gf_upstreamTokenFile = '''', gf_maxLookback = Hour, gf_minStep = 15 * Second,
     gf_maxExecutionTime = 10 * Second, gf_maxTokenTTL = 15 * Minute, gf_maxSamples = 10000, gf_maxResponseBytes = 4194304,
     gf_maxConcurrency = 2, gf_maxRequestsPerMinute = 60\<rparr>"

definition secret32 :: string where "secret32 = replicate 32 (CHR ''k'')"

definition keys_disk :: disk where
  "keys_disk = \<lparr>d_list = [((True, [''k'']), File secret32), ((True, [''t'']), File secret32)], d_ops = 0, d_fault = (\<lambda>_. None), d_random = (\<lambda>_. 0)\<rparr>"

definition demo_setup :: "Oubliette list gateway_setup" where
  "demo_setup = \<lparr>gs_Resolver = \<lparr>kr_Client = Some memclient, kr_Codec = gatewayCodec demo_flags secret32, kr_Upstream = ''http://prom'',
       kr_UpstreamAuthorization = '''', kr_ProfileGeneration = ''g1'', kr_Policy = gatewayPolicy demo_flags [''up'']\<rparr>,
     gs_IssuerClient = Some memclient, gs_IssuerCodec = gatewayCodec demo_flags secret32, gs_BearerToken = secret32\<rparr>"

lemma demo_starts: "\<exists>d'. gatewayMain demo_flags (Some memclient) keys_disk = (Inr demo_setup, d')"
proof -
  have f: "splitList ''up'' = [''up'']" "TrimSpace secret32 = secret32" "length secret32 = 32"
    "fst (os_ReadFile (filePath ''/k'') keys_disk) = Inr secret32"
    "fst (os_ReadFile (filePath ''/t'') (snd (os_ReadFile (filePath ''/k'') keys_disk))) = Inr secret32" by code_simp+
  obtain d1 d2 where "os_ReadFile (filePath ''/k'') keys_disk = (Inr secret32, d1)" "os_ReadFile (filePath ''/t'') d1 = (Inr secret32, d2)"
    using f(4,5) by (metis prod.collapse snd_conv)
  with f show ?thesis
    by (simp add: gatewayMain_def demo_flags_def upstreamAuthorization_def demo_setup_def Let_def)
qed

definition access_post :: http_request where
  "access_post = demo_access_request\<lparr>rq_Authorization := bearer @ secret32\<rparr>"

lemma demo_answers:
  "\<exists>resp. accessHTTP listmeta (gs_IssuerClient demo_setup) (gs_IssuerCodec demo_setup) (gs_BearerToken demo_setup) 100000000000 0 access_post [demo_obj]
     = (resp, [demo_obj]) \<and> rs_Status resp = StatusOK"
proof -
  have "\<exists>token. Issue (gatewayCodec demo_flags secret32) 0 (accessClaims (gatewayCodec demo_flags secret32) 100000000000 demo_access demo_obj) = Inr token"
    by (simp add: Issue_Inr_iff accessClaims_def demo_access_def demo_obj_def gatewayCodec_def demo_flags_def secret32_def issued_def lifetimeOK_def
        Time_Unix_def Time_Add_def effectiveTTL_def maxTTL_def go_defs Let_def)
  then obtain token where t: "Issue (gatewayCodec demo_flags secret32) 0
    (accessClaims (gatewayCodec demo_flags secret32) 100000000000 demo_access demo_obj) = Inr token" by blast
  have d: "rq_Subject demo_access = ''agent''" "rq_Oubliette demo_access = ''demo''" "rq_Placement demo_access = PlacementExternal"
    by (simp_all add: demo_access_def PlacementExternal_def)
  have g: "cl_Get (liftClient memclient) ''demo'' ([demo_obj], v) = (Inr demo_obj, ([demo_obj], v))" for v :: issueResponse
    using demo_get by (simp add: liftClient_def)
  have "\<exists>r. IssueTo listmeta (Some (liftClient memclient)) (gatewayCodec demo_flags secret32) 100000000000 0 demo_access (Some captureSink)
      ([demo_obj], zeroResponse) = (None, ([demo_obj], r))"
    using t g demo_available[of 100000000000] by (simp add: IssueTo_def d captureSink_def ConnectorSink_def)
  then obtain rr where i: "IssueTo listmeta (Some (liftClient memclient)) (gatewayCodec demo_flags secret32) 100000000000 0 demo_access
      (Some captureSink) ([demo_obj], zeroResponse) = (None, ([demo_obj], rr))" by blast
  have s: "secret32 \<noteq> ''''" by (simp add: secret32_def)
  have body: "rq_Body access_post = rq_Body demo_access_request" "rq_Method access_post = MethodPost" "rq_Authorization access_post = bearer @ secret32"
    by (simp_all add: access_post_def demo_access_request_def)
  show ?thesis using demo_decode i s
    by (auto simp: accessHTTP_def demo_setup_def body Let_def demo_access_def)
qed

theorem credential_opens_gateway_witness:
  "\<exists>token. KubernetesResolver_Resolve listmeta (gs_Resolver demo_setup) 200000000000 200000000000 200000000000 (bearer @ token) [demo_obj] =
     (Inr \<lparr>sc_Subject = ''agent'', sc_Oubliette = ''demo'', sc_TrustDomain = ''td'', sc_Upstream = ''http://prom'', sc_UpstreamAuthorization = '''',
        sc_Policy = gatewayPolicy demo_flags [''up'']\<rparr>, [demo_obj])"
proof -
  obtain d' where start: "gatewayMain demo_flags (Some memclient) keys_disk = (Inr demo_setup, d')" using demo_starts by blast
  obtain resp where served: "accessHTTP listmeta (gs_IssuerClient demo_setup) (gs_IssuerCodec demo_setup) (gs_BearerToken demo_setup) 100000000000 0
      access_post [demo_obj] = (resp, [demo_obj])" "rs_Status resp = StatusOK" using demo_answers by blast
  have clock: "Time_Unix 100000000000 \<noteq> 0" by (simp add: Time_Unix_def)
  have q: "decodeRequest (rq_Body access_post) = Some \<lparr>ir_Subject = ''agent'', ir_Oubliette = ''demo'', ir_Placement = ''external'', ir_TTLSeconds = 0\<rparr>"
    using demo_decode by (simp add: access_post_def)
  have facts: "splitList (gf_allowedMetrics demo_flags) = [''up'']" "valid_utf8 ''demo''" "valid_utf8 ''td''"
    "sint (Time_Unix 100000000000) \<le> sint (Time_Unix 200000000000 + 30)"
    "sint (Time_Unix 200000000000) < sint (Time_Unix (Time_Add 100000000000 (effectiveTTL (0 * Second))))" by code_simp+
  have o: "o_Name demo_obj = ''demo''" "st_MetricsTrustDomain (o_Status demo_obj) = ''td''" by (simp_all add: demo_obj_def)
  have live: "live listmeta (gs_Resolver demo_setup) 200000000000 \<lparr>tk_Subject = ''agent'', tk_Oubliette = ''demo'', tk_TrustDomain = ''td'',
    tk_Audience = ''oubliette-metrics'', tk_IssuedUnix = 0, tk_ExpiresUnix = 0\<rparr> demo_obj"
    by (simp add: live_def demo_obj_def listmeta_def optIsZero_def condition_names demo_setup_def)
  have up: "gf_upstream demo_flags = ''http://prom''" "kr_UpstreamAuthorization (gs_Resolver demo_setup) = ''''"
    by (simp_all add: demo_flags_def demo_setup_def)
  from credential_opens_gateway[OF start served clock] obtain token where
    "\<forall>now1 now2 now3 t t' obj'. valid_utf8 (o_Name demo_obj) \<longrightarrow> valid_utf8 (st_MetricsTrustDomain (o_Status demo_obj)) \<longrightarrow>
       sint (Time_Unix 100000000000) \<le> sint (Time_Unix now1 + 30) \<longrightarrow>
       sint (Time_Unix now2) < sint (Time_Unix (Time_Add 100000000000 (effectiveTTL (0 * Second)))) \<longrightarrow>
       cl_Get memclient (o_Name demo_obj) t = (Inr obj', t') \<longrightarrow> o_Name obj' = o_Name demo_obj \<longrightarrow>
       live listmeta (gs_Resolver demo_setup) now3 \<lparr>tk_Subject = ''agent'', tk_Oubliette = o_Name demo_obj, tk_TrustDomain = st_MetricsTrustDomain (o_Status demo_obj),
         tk_Audience = ''oubliette-metrics'', tk_IssuedUnix = 0, tk_ExpiresUnix = 0\<rparr> obj' \<longrightarrow>
       KubernetesResolver_Resolve listmeta (gs_Resolver demo_setup) now1 now2 now3 (bearer @ token) t =
         (Inr \<lparr>sc_Subject = ''agent'', sc_Oubliette = o_Name demo_obj, sc_TrustDomain = st_MetricsTrustDomain (o_Status demo_obj), sc_Upstream = gf_upstream demo_flags,
            sc_UpstreamAuthorization = kr_UpstreamAuthorization (gs_Resolver demo_setup), sc_Policy = gatewayPolicy demo_flags (splitList (gf_allowedMetrics demo_flags))\<rparr>, t')"
    by (simp add: q demo_get) blast
  with facts live demo_get show ?thesis unfolding o up by (metis o(1))
qed

section \<open>What a started controller guarantees\<close>

text \<open>Its release values are never refused, whatever the Oubliette, and enabled metrics come with a scope and a trust domain.\<close>

theorem started_controller_configured:
  assumes "controllerMain hp fl = Inr r"
  shows "(\<exists>v. helmValues (hp_Validators hp) name namespace (hmgr_Values (helmManagerOf hp fl)) = Inr v) \<and>
    (mp_Enabled (r_MetricsProfile r) \<longrightarrow> mp_Generation (r_MetricsProfile r) \<noteq> '''' \<and> mp_IsolationScope (r_MetricsProfile r) \<noteq> '''' \<and>
       mp_TrustDomain (r_MetricsProfile r) \<noteq> '''')"
proof -
  have d: "withDefaults (valuesOf fl) = valuesOf fl" by (simp add: withDefaults_def valuesOf_def Let_def)
  from assms show ?thesis
    by (auto simp: controllerMain_def validateFlags_def helmManagerOf_def helmValues_def d metricsProfileOf_def Let_def split: option.splits if_splits)
qed

text \<open>The flags are not checked for the endpoint prefix, which the metrics status wants: a controller started with metrics enabled and an empty prefix fails the
  status of every provisioning pass.\<close>

theorem prefixless_controller_fails:
  assumes "controllerMain hp fl = Inr r" and "cm_metricsGeneration fl \<noteq> ''''" and "cm_metricsEndpointPrefix fl = ''''"
  shows "fst (publishStatus r p obj namespace ready now s) = (after (10 * Second), Some MetricsProfileIncomplete)"
  using assms
  by (auto simp: controllerMain_def metricsProfileOf_def publishStatus_def projectMetricsStatus_def fail_def Let_def split: option.splits if_splits)

end
