(* ===== verification/Connector.thy ===== *)
theory Connector
  imports Disk
begin

text \<open>
  The connector's session and its file sink, \<open>pkg/connector/session.go\<close> and \<open>file.go\<close>. A session checks the caller's lease,
  opens a connection, and keeps issuing short-lived credentials to a sink while the checks pass. The backend, the connection
  and the sink are the interfaces of the code; the clock, the context with the lease's deadline (cancelled
  also when the connection ends) and the ticker are the record \<open>runtime\<close> over the same state. The loop takes
  fuel; \<open>session_terminates\<close> says how much is enough.
\<close>

section \<open>Leases, credentials and interfaces\<close>

datatype ctx_err = Canceled | DeadlineExceeded

datatype conn_err = ErrDenied | ErrTransport | ErrCredential | ErrDelivery | CtxErr ctx_err

record Lease =
  le_Name :: string
  le_Namespace :: string
  le_Caller :: string
  le_UID :: string
  le_ExpiresAt :: time

record Credential =
  cr_Kubeconfig :: string
  cr_ExpiresAt :: time

record 's Connection =
  cn_Issue :: "'s \<Rightarrow> (conn_err + Credential) \<times> 's"
  cn_Close :: "'s \<Rightarrow> 's"

record 's Backend =
  bk_Check :: "'s \<Rightarrow> (conn_err + Lease) \<times> 's"
  bk_Open :: "Lease \<Rightarrow> 's \<Rightarrow> (conn_err + 's Connection) \<times> 's"

record 's Sink =
  sk_Write :: "string \<Rightarrow> 's \<Rightarrow> conn_err option \<times> 's"
  sk_Close :: "'s \<Rightarrow> conn_err option \<times> 's"

text \<open>
  \<open>rt_ctxErr\<close> is \<open>ctx.Err()\<close> of the context with the given deadline; \<open>rt_select\<close> waits for the context or the ticker, and
  returns the context's error or nothing for a tick.
\<close>

record 's runtime =
  rt_now :: "'s \<Rightarrow> time"
  rt_ctxErr :: "time \<Rightarrow> 's \<Rightarrow> ctx_err option"
  rt_NewTicker :: "duration \<Rightarrow> 's \<Rightarrow> 's"
  rt_select :: "time \<Rightarrow> 's \<Rightarrow> ctx_err option \<times> 's"

record 's Session =
  ss_Backend :: "'s Backend option"
  ss_Sink :: "'s Sink option"
  ss_Ready :: "('s \<Rightarrow> 's) option"
  ss_PollInterval :: duration

section \<open>The session\<close>

definition check :: "'s runtime \<Rightarrow> 's Backend \<Rightarrow> Lease \<Rightarrow> 's \<Rightarrow> conn_err option \<times> 's" where
  "check rt b lease s =
     (case bk_Check b s of
        (Inl _, s1) \<Rightarrow> (Some ErrDenied, s1)
      | (Inr current, s1) \<Rightarrow>
          if le_UID current \<noteq> le_UID lease \<or> le_Caller current \<noteq> le_Caller lease \<or> le_Name current \<noteq> le_Name lease \<or>
             le_Namespace current \<noteq> le_Namespace lease \<or> \<not> rt_now rt s1 < le_ExpiresAt current
          then (Some ErrDenied, s1)
          else if le_ExpiresAt current < le_ExpiresAt lease then (Some ErrDenied, s1)
          else (map_option CtxErr (rt_ctxErr rt (le_ExpiresAt lease) s1), s1))"

text \<open>Division of a duration by two, towards zero.\<close>

definition halve :: "duration \<Rightarrow> duration" where
  "halve d = (if sint d < 0 then - of_int ((- sint d) div 2) else of_int (sint d div 2))"

definition issue :: "'s runtime \<Rightarrow> 's Backend \<Rightarrow> 's Sink \<Rightarrow> 's Connection \<Rightarrow> Lease \<Rightarrow> 's \<Rightarrow> (conn_err + time) \<times> 's" where
  "issue rt b k conn lease s =
     (case check rt b lease s of
        (Some _, s1) \<Rightarrow> (Inl ErrDenied, s1)
      | (None, s1) \<Rightarrow>
          (case cn_Issue conn s1 of
             (Inl _, s2) \<Rightarrow> (Inl ErrCredential, s2)
           | (Inr credential, s2) \<Rightarrow>
               (let remaining = Time_Sub (cr_ExpiresAt credential) (rt_now rt s2) in
                if cr_Kubeconfig credential = '''' \<or> sint remaining < sint Minute \<or> sint (11 * Minute) < sint remaining
                then (Inl ErrCredential, s2)
                else (case check rt b lease s2 of
                  (Some _, s3) \<Rightarrow> (Inl ErrDenied, s3)
                | (None, s3) \<Rightarrow>
                    (case sk_Write k (cr_Kubeconfig credential) s3 of
                       (Some _, s4) \<Rightarrow> (Inl ErrDelivery, s4)
                     | (None, s4) \<Rightarrow> (Inr (Time_Add (rt_now rt s4) (halve remaining)), s4))))))"

definition pollInterval :: "duration \<Rightarrow> duration" where
  "pollInterval i = (if sint i \<le> 0 \<or> sint (15 * Second) < sint i then 15 * Second else i)"

fun sessionLoop ::
  "nat \<Rightarrow> 's runtime \<Rightarrow> 's Backend \<Rightarrow> 's Sink \<Rightarrow> 's Connection \<Rightarrow> Lease \<Rightarrow> time \<Rightarrow> 's \<Rightarrow> (conn_err \<times> 's) option" where
  "sessionLoop 0 rt b k conn lease refreshAt s = None"
| "sessionLoop (Suc n) rt b k conn lease refreshAt s =
     (case rt_select rt (le_ExpiresAt lease) s of
        (Some e, s1) \<Rightarrow> Some (CtxErr e, s1)
      | (None, s1) \<Rightarrow>
          (case check rt b lease s1 of
             (Some _, s2) \<Rightarrow> Some (ErrDenied, s2)
           | (None, s2) \<Rightarrow>
               if \<not> rt_now rt s2 < refreshAt
               then (case issue rt b k conn lease s2 of
                  (Inl e, s3) \<Rightarrow> Some (e, s3)
                | (Inr refreshAt', s3) \<Rightarrow> sessionLoop n rt b k conn lease refreshAt' s3)
               else sessionLoop n rt b k conn lease refreshAt s2))"

text \<open>What runs between opening the connection and its deferred close.\<close>

definition attached ::
  "nat \<Rightarrow> 's runtime \<Rightarrow> 's Session \<Rightarrow> 's Backend \<Rightarrow> 's Sink \<Rightarrow> 's Connection \<Rightarrow> Lease \<Rightarrow> 's \<Rightarrow> (conn_err \<times> 's) option" where
  "attached n rt ss b k conn lease s =
     (case issue rt b k conn lease s of
        (Inl e, s1) \<Rightarrow> Some (e, s1)
      | (Inr refreshAt, s1) \<Rightarrow>
          (let s2 = (case ss_Ready ss of None \<Rightarrow> s1 | Some ready \<Rightarrow> ready s1);
               s3 = rt_NewTicker rt (pollInterval (ss_PollInterval ss)) s2 in
           sessionLoop n rt b k conn lease refreshAt s3))"

definition runSession :: "nat \<Rightarrow> 's runtime \<Rightarrow> 's Session \<Rightarrow> 's Backend \<Rightarrow> 's Sink \<Rightarrow> 's \<Rightarrow> (conn_err \<times> 's) option" where
  "runSession n rt ss b k s =
     (case bk_Check b s of
        (Inl _, s1) \<Rightarrow> Some (ErrDenied, s1)
      | (Inr lease, s1) \<Rightarrow>
          if le_UID lease = '''' \<or> \<not> rt_now rt s1 < le_ExpiresAt lease then Some (ErrDenied, s1)
          else (case bk_Open b lease s1 of
            (Inl _, s2) \<Rightarrow> Some (ErrTransport, s2)
          | (Inr conn, s2) \<Rightarrow> map_option (\<lambda>(e, s3). (e, cn_Close conn s3)) (attached n rt ss b k conn lease s2)))"

text \<open>The errors of the run, joined; the deferred close of the sink runs last.\<close>

definition Run :: "nat \<Rightarrow> 's runtime \<Rightarrow> 's Session \<Rightarrow> 's \<Rightarrow> (conn_err list \<times> 's) option" where
  "Run n rt ss s =
     (case (ss_Backend ss, ss_Sink ss) of
        (Some b, Some k) \<Rightarrow>
          (case runSession n rt ss b k s of
             None \<Rightarrow> None
           | Some (e, s1) \<Rightarrow>
               (case sk_Close k s1 of
                  (None, s2) \<Rightarrow> Some ([e], s2)
                | (Some _, s2) \<Rightarrow> Some ([e, ErrDelivery], s2)))
      | _ \<Rightarrow> Some ([ErrDenied], s))"

section \<open>What is delivered\<close>

text \<open>The backend confirmed the pinned lease in going from \<open>s\<close> to \<open>s'\<close>: the same object, caller and namespace, not shortened, not
  expired, and the session not cancelled.\<close>

definition confirmed :: "'s runtime \<Rightarrow> 's Backend \<Rightarrow> Lease \<Rightarrow> 's \<Rightarrow> 's \<Rightarrow> bool" where
  "confirmed rt b lease s s' \<longleftrightarrow> (\<exists>current. bk_Check b s = (Inr current, s') \<and>
     le_UID current = le_UID lease \<and> le_Caller current = le_Caller lease \<and> le_Name current = le_Name lease \<and>
     le_Namespace current = le_Namespace lease \<and> rt_now rt s' < le_ExpiresAt current \<and>
     le_ExpiresAt lease \<le> le_ExpiresAt current \<and> rt_ctxErr rt (le_ExpiresAt lease) s' = None)"

lemma check_confirmed: "check rt b lease s = (None, s') \<Longrightarrow> confirmed rt b lease s s'"
  by (auto simp: check_def confirmed_def split: prod.splits sum.splits if_splits)

text \<open>A credential reaches the sink only between two confirmations of the lease by the backend, before it was issued and again
  after, and only when it is valid for one to eleven minutes; any other round of issuing ends
  in an error without touching the sink: with every other sink it is the same.\<close>

lemma delivery_vetted:
  assumes call: "issue rt b k conn lease s = (res, s')"
  shows "(\<exists>cred s1 s2 s3. confirmed rt b lease s s1 \<and> cn_Issue conn s1 = (Inr cred, s2) \<and> confirmed rt b lease s2 s3 \<and>
       60000000000 \<le> sint (Time_Sub (cr_ExpiresAt cred) (rt_now rt s2)) \<and> sint (Time_Sub (cr_ExpiresAt cred) (rt_now rt s2)) \<le> 660000000000 \<and>
       s' = snd (sk_Write k (cr_Kubeconfig cred) s3)) \<or>
    res \<in> {Inl ErrDenied, Inl ErrCredential} \<and> (\<forall>k'. issue rt b k' conn lease s = (res, s'))"
proof -
  have min: "sint (11 * Minute) = 660000000000" by (simp add: go_defs)
  obtain x s1 where c1: "check rt b lease s = (x, s1)" by (metis surj_pair)
  obtain y s2 where i: "cn_Issue conn s1 = (y, s2)" by (metis surj_pair)
  obtain z s3 where c2: "check rt b lease s2 = (z, s3)" by (metis surj_pair)
  show ?thesis
  proof (cases "x = None \<and> z = None \<and> (\<exists>cred. y = Inr cred \<and> \<not> (cr_Kubeconfig cred = [] \<or>
      sint (Time_Sub (cr_ExpiresAt cred) (rt_now rt s2)) < sint Minute \<or> sint (11 * Minute) < sint (Time_Sub (cr_ExpiresAt cred) (rt_now rt s2))))")
    case True
    then obtain cred where y: "y = Inr cred" and ok: "cr_Kubeconfig cred \<noteq> []"
      "60000000000 \<le> sint (Time_Sub (cr_ExpiresAt cred) (rt_now rt s2))" "sint (Time_Sub (cr_ExpiresAt cred) (rt_now rt s2)) \<le> 660000000000"
      and xz: "x = None" "z = None" by (auto simp: not_less min)
    obtain w s4 where w: "sk_Write k (cr_Kubeconfig cred) s3 = (w, s4)" by (metis surj_pair)
    have "s' = s4" using call c1 i c2 w ok xz y
      by (auto simp: issue_def Let_def min split: option.splits if_splits)
    then have "s' = snd (sk_Write k (cr_Kubeconfig cred) s3)" using w by simp
    with check_confirmed[OF c1[unfolded xz]] check_confirmed[OF c2[unfolded xz]] i[unfolded y] ok(2,3) show ?thesis by blast
  next
    case False
    then show ?thesis using call c1 i c2 by (auto simp: issue_def Let_def split: option.splits sum.splits if_splits)
  qed
qed

section \<open>The session ends\<close>

text \<open>
  Time as the session sees it, with \<open>count\<close> the ticks received of the session's ticker and \<open>started\<close> the time it was made: the clock never
  goes back, calls leave the ticker alone, a context is done from its deadline on, and the ticks come at least an
  interval apart on average (Go drops ticks for a slow receiver, and never sends early ones).
\<close>

definition passes_time :: "'s runtime \<Rightarrow> ('s \<Rightarrow> nat) \<Rightarrow> ('s \<Rightarrow> time) \<Rightarrow> 's \<Rightarrow> 's \<Rightarrow> bool" where
  "passes_time rt count started s s' \<longleftrightarrow> rt_now rt s \<le> rt_now rt s' \<and> count s' = count s \<and> started s' = started s"

definition session_laws :: "'s runtime \<Rightarrow> 's Session \<Rightarrow> ('s \<Rightarrow> nat) \<Rightarrow> ('s \<Rightarrow> time) \<Rightarrow> bool" where
  "session_laws rt ss count started \<longleftrightarrow>
     (\<forall>dl s. dl \<le> rt_now rt s \<longrightarrow> rt_ctxErr rt dl s \<noteq> None) \<and>
     (\<forall>iv s. rt_now rt s \<le> rt_now rt (rt_NewTicker rt iv s) \<and> count (rt_NewTicker rt iv s) = 0 \<and>
        rt_now rt s \<le> started (rt_NewTicker rt iv s)) \<and>
     (\<forall>dl s s'. rt_select rt dl s = (None, s') \<longrightarrow> count s' = Suc (count s) \<and> started s' = started s \<and>
        started s' + int (count s') * sint (pollInterval (ss_PollInterval ss)) \<le> rt_now rt s') \<and>
     (\<forall>f s. ss_Ready ss = Some f \<longrightarrow> passes_time rt count started s (f s)) \<and>
     (\<forall>b s x s'. ss_Backend ss = Some b \<longrightarrow> bk_Check b s = (x, s') \<longrightarrow> passes_time rt count started s s') \<and>
     (\<forall>b l s x s'. ss_Backend ss = Some b \<longrightarrow> bk_Open b l s = (x, s') \<longrightarrow> passes_time rt count started s s') \<and>
     (\<forall>b l s c s' t y t'. ss_Backend ss = Some b \<longrightarrow> bk_Open b l s = (Inr c, s') \<longrightarrow> cn_Issue c t = (y, t') \<longrightarrow>
        passes_time rt count started t t') \<and>
     (\<forall>k d s x s'. ss_Sink ss = Some k \<longrightarrow> sk_Write k d s = (x, s') \<longrightarrow> passes_time rt count started s s')"

lemma session_lawsD:
  assumes "session_laws rt ss count started"
  shows "dl \<le> rt_now rt s \<Longrightarrow> rt_ctxErr rt dl s \<noteq> None"
    and "rt_now rt s \<le> rt_now rt (rt_NewTicker rt iv s) \<and> count (rt_NewTicker rt iv s) = 0 \<and> rt_now rt s \<le> started (rt_NewTicker rt iv s)"
    and "rt_select rt dl s = (None, s') \<Longrightarrow> count s' = Suc (count s) \<and> started s' = started s \<and>
      started s' + int (count s') * sint (pollInterval (ss_PollInterval ss)) \<le> rt_now rt s'"
    and "ss_Ready ss = Some f \<Longrightarrow> passes_time rt count started s (f s)"
    and "ss_Backend ss = Some b \<Longrightarrow> bk_Check b s = (ce, s') \<Longrightarrow> passes_time rt count started s s'"
    and "ss_Backend ss = Some b \<Longrightarrow> bk_Open b l s = (oe, s') \<Longrightarrow> passes_time rt count started s s'"
    and "ss_Backend ss = Some b \<Longrightarrow> bk_Open b l s = (Inr c, s') \<Longrightarrow> cn_Issue c t = (y, t') \<Longrightarrow> passes_time rt count started t t'"
    and "ss_Sink ss = Some k \<Longrightarrow> sk_Write k d s = (we, s') \<Longrightarrow> passes_time rt count started s s'"
  using assms unfolding session_laws_def by metis+

lemma passes_time_refl: "passes_time rt count started s s"
  by (simp add: passes_time_def)

lemma passes_time_trans [trans]:
  "passes_time rt count started s t \<Longrightarrow> passes_time rt count started t u \<Longrightarrow> passes_time rt count started s u"
  by (simp add: passes_time_def)

lemma pollInterval_bounds: "0 < sint (pollInterval i) \<and> sint (pollInterval i) \<le> 15000000000"
proof -
  have "sint (15 * Second) = 15000000000" by (simp add: Second_def)
  then show ?thesis by (simp add: pollInterval_def)
qed

lemma check_time:
  assumes laws: "session_laws rt ss count started" and b: "ss_Backend ss = Some b" and call: "check rt b lease s = (x, s')"
  shows "passes_time rt count started s s'" and "le_ExpiresAt lease \<le> rt_now rt s \<Longrightarrow> x \<noteq> None"
proof -
  obtain y t where y: "bk_Check b s = (y, t)" by (metis surj_pair)
  have p: "passes_time rt count started s t" by (rule session_lawsD(5)[OF laws b y])
  have t: "s' = t" using call y by (auto simp: check_def split: sum.splits if_splits)
  then show "passes_time rt count started s s'" using p by simp
  assume "le_ExpiresAt lease \<le> rt_now rt s"
  then have "le_ExpiresAt lease \<le> rt_now rt s'" using p t by (simp add: passes_time_def)
  then have "rt_ctxErr rt (le_ExpiresAt lease) s' \<noteq> None" by (rule session_lawsD(1)[OF laws])
  then show "x \<noteq> None" using check_confirmed[of rt b lease s s'] call by (cases x) (auto simp: confirmed_def)
qed

lemma issue_time:
  assumes laws: "session_laws rt ss count started" and b: "ss_Backend ss = Some b" and k: "ss_Sink ss = Some k"
    and opened: "bk_Open b l t0 = (Inr conn, t1)" and call: "issue rt b k conn lease s = (x, s')"
  shows "passes_time rt count started s s'"
proof -
  obtain x1 s1 where c1: "check rt b lease s = (x1, s1)" by (metis surj_pair)
  obtain y s2 where i: "cn_Issue conn s1 = (y, s2)" by (metis surj_pair)
  obtain z s3 where c2: "check rt b lease s2 = (z, s3)" by (metis surj_pair)
  note p1 = check_time(1)[OF laws b c1]
  have "passes_time rt count started s1 s2" by (rule session_lawsD(7)[OF laws b opened i])
  with p1 have p2: "passes_time rt count started s s2" by (rule passes_time_trans)
  from p2 check_time(1)[OF laws b c2] have p3: "passes_time rt count started s s3" by (rule passes_time_trans)
  have "passes_time rt count started s3 s4" if "sk_Write k d s3 = (w, s4)" for d w s4
    by (rule session_lawsD(8)[OF laws k that])
  then have p4: "passes_time rt count started s s4" if "sk_Write k d s3 = (w, s4)" for d w s4
    using passes_time_trans[OF p3] that by metis
  show ?thesis
  proof (cases y)
    case (Inl e)
    with call c1 i p1 p2 show ?thesis by (auto simp: issue_def split: option.splits)
  next
    case (Inr cred)
    obtain w s4 where w: "sk_Write k (cr_Kubeconfig cred) s3 = (w, s4)" by (metis surj_pair)
    from call c1 i c2 w Inr have "s' \<in> {s1, s2, s3, s4}" by (auto simp: issue_def Let_def split: option.splits if_splits)
    then show ?thesis using p1 p2 p3 p4[OF w] by auto
  qed
qed

lemma sessionLoop_ends:
  assumes laws: "session_laws rt ss count started" and b: "ss_Backend ss = Some b" and k: "ss_Sink ss = Some k"
    and opened: "bk_Open b l t0 = (Inr conn, t1)"
  shows "le_ExpiresAt lease \<le> started s + int (count s + n) * sint (pollInterval (ss_PollInterval ss)) \<Longrightarrow>
    \<exists>r. sessionLoop (Suc n) rt b k conn lease refreshAt s = Some r"
proof (induction n arbitrary: refreshAt s)
  let ?iv = "sint (pollInterval (ss_PollInterval ss))"
  have tick: "count s1 = Suc (count s) \<and> started s1 = started s \<and> started s + int (Suc (count s)) * ?iv \<le> rt_now rt s1"
    if "rt_select rt (le_ExpiresAt lease) s = (None, s1)" for s s1
  proof -
    have "count s1 = Suc (count s) \<and> started s1 = started s \<and> started s1 + int (count s1) * ?iv \<le> rt_now rt s1"
      by (rule session_lawsD(3)[OF laws that])
    then show ?thesis by metis
  qed
  {
    case 0
    obtain e s1 where sel: "rt_select rt (le_ExpiresAt lease) s = (e, s1)" by (metis surj_pair)
    obtain x s2 where c: "check rt b lease s1 = (x, s2)" by (metis surj_pair)
    have "e = None \<Longrightarrow> x \<noteq> None"
    proof -
      assume "e = None"
      with tick sel have "started s + int (Suc (count s)) * ?iv \<le> rt_now rt s1" by blast
      moreover have "int (count s + 0) * ?iv \<le> int (Suc (count s)) * ?iv" using pollInterval_bounds[of "ss_PollInterval ss"] by (intro mult_right_mono) auto
      ultimately have "le_ExpiresAt lease \<le> rt_now rt s1" using 0 by linarith
      with check_time(2)[OF laws b c] show ?thesis by blast
    qed
    then show ?case using sel c by (cases e; cases x) auto
  next
    case (Suc n)
    obtain e s1 where sel: "rt_select rt (le_ExpiresAt lease) s = (e, s1)" by (metis surj_pair)
    obtain x s2 where c: "check rt b lease s1 = (x, s2)" by (metis surj_pair)
    obtain y s3 where i: "issue rt b k conn lease s2 = (y, s3)" by (metis surj_pair)
    have next_round: "\<exists>r. sessionLoop (Suc n) rt b k conn lease ra t = Some r" if "e = None" "passes_time rt count started s1 t" for ra t
    proof (rule Suc.IH)
      have "count t = Suc (count s)" "started t = started s" using tick sel that by (auto simp: passes_time_def)
      then show "le_ExpiresAt lease \<le> started t + int (count t + n) * ?iv" using Suc.prems by simp
    qed
    note p = check_time(1)[OF laws b c]
    have p': "passes_time rt count started s1 s3" using p issue_time[OF laws b k opened i] by (rule passes_time_trans)
    show ?case using sel c i next_round[OF _ p] next_round[OF _ p']
      by (cases e; cases x; cases y) (simp_all del: sessionLoop.simps add: sessionLoop.simps(2)[of "Suc n"])
  }
qed

text \<open>Enough rounds for \<open>Run\<close> to return.\<close>

lemma Run_returns:
  assumes laws: "session_laws rt ss count started" and b: "ss_Backend ss = Some b" and k: "ss_Sink ss = Some k"
    and first: "bk_Check b s = (Inr lease, s1)"
    and fuel: "le_ExpiresAt lease \<le> rt_now rt s1 + int n * sint (pollInterval (ss_PollInterval ss))"
  shows "\<exists>r. Run (Suc n) rt ss s = Some r"
proof -
  obtain x s2 where o: "bk_Open b lease s1 = (x, s2)" by (metis surj_pair)
  have p2: "passes_time rt count started s1 s2" by (rule session_lawsD(6)[OF laws b o])
  have att: "\<exists>r. attached (Suc n) rt ss b k conn lease s2 = Some r" if conn: "x = Inr conn" for conn
  proof -
    obtain y s3 where i: "issue rt b k conn lease s2 = (y, s3)" by (metis surj_pair)
    note opened = o[unfolded conn]
    have p3: "passes_time rt count started s1 s3" using p2 issue_time[OF laws b k opened i] by (rule passes_time_trans)
    define s4 where "s4 = (case ss_Ready ss of None \<Rightarrow> s3 | Some ready \<Rightarrow> ready s3)"
    have "passes_time rt count started s3 s4"
      using session_lawsD(4)[OF laws] passes_time_refl unfolding s4_def by (auto split: option.splits)
    with p3 have p4: "passes_time rt count started s1 s4" by (rule passes_time_trans)
    let ?s5 = "rt_NewTicker rt (pollInterval (ss_PollInterval ss)) s4"
    have "count ?s5 = 0" "rt_now rt s4 \<le> started ?s5" using session_lawsD(2)[OF laws] by blast+
    then have "le_ExpiresAt lease \<le> started ?s5 + int (count ?s5 + n) * sint (pollInterval (ss_PollInterval ss))"
      using fuel p4 by (simp add: passes_time_def)
    from sessionLoop_ends[OF laws b k opened this] show ?thesis using i
      by (cases y) (simp_all add: attached_def Let_def s4_def del: sessionLoop.simps)
  qed
  have "\<exists>r. runSession (Suc n) rt ss b k s = Some r"
    using att first o by (cases x) (auto simp: runSession_def)
  then show ?thesis using b k by (auto simp: Run_def split: option.splits prod.splits)
qed

text \<open>
  Promptness, with \<open>dur\<close> a bound on the time any single call takes: a wait is over when the context's deadline passes, whatever the ticker does
  (\<open>context.WithDeadline\<close>).
\<close>

definition prompt_laws :: "'s runtime \<Rightarrow> 's Session \<Rightarrow> int \<Rightarrow> bool" where
  "prompt_laws rt ss dur \<longleftrightarrow> 0 \<le> dur \<and>
     (\<forall>dl s e s'. rt_select rt dl s = (e, s') \<longrightarrow> rt_now rt s' \<le> max (rt_now rt s) dl) \<and>
     (\<forall>iv s. rt_now rt (rt_NewTicker rt iv s) \<le> rt_now rt s + dur) \<and>
     (\<forall>f s. ss_Ready ss = Some f \<longrightarrow> rt_now rt (f s) \<le> rt_now rt s + dur) \<and>
     (\<forall>b s x s'. ss_Backend ss = Some b \<longrightarrow> bk_Check b s = (x, s') \<longrightarrow> rt_now rt s' \<le> rt_now rt s + dur) \<and>
     (\<forall>b l s x s'. ss_Backend ss = Some b \<longrightarrow> bk_Open b l s = (x, s') \<longrightarrow> rt_now rt s' \<le> rt_now rt s + dur) \<and>
     (\<forall>b l s c s' t y t'. ss_Backend ss = Some b \<longrightarrow> bk_Open b l s = (Inr c, s') \<longrightarrow> cn_Issue c t = (y, t') \<longrightarrow> rt_now rt t' \<le> rt_now rt t + dur) \<and>
     (\<forall>b l s c s' t. ss_Backend ss = Some b \<longrightarrow> bk_Open b l s = (Inr c, s') \<longrightarrow> rt_now rt (cn_Close c t) \<le> rt_now rt t + dur) \<and>
     (\<forall>k d s x s'. ss_Sink ss = Some k \<longrightarrow> sk_Write k d s = (x, s') \<longrightarrow> rt_now rt s' \<le> rt_now rt s + dur) \<and>
     (\<forall>k s x s'. ss_Sink ss = Some k \<longrightarrow> sk_Close k s = (x, s') \<longrightarrow> rt_now rt s' \<le> rt_now rt s + dur)"

lemma prompt_lawsD:
  assumes "prompt_laws rt ss dur"
  shows "0 \<le> dur" and "rt_select rt dl s = (e, s') \<Longrightarrow> rt_now rt s' \<le> max (rt_now rt s) dl"
    and "rt_now rt (rt_NewTicker rt iv s) \<le> rt_now rt s + dur"
    and "ss_Ready ss = Some f \<Longrightarrow> rt_now rt (f s) \<le> rt_now rt s + dur"
    and "ss_Backend ss = Some b \<Longrightarrow> bk_Check b s = (ce, s') \<Longrightarrow> rt_now rt s' \<le> rt_now rt s + dur"
    and "ss_Backend ss = Some b \<Longrightarrow> bk_Open b l s = (oe, s') \<Longrightarrow> rt_now rt s' \<le> rt_now rt s + dur"
    and "ss_Backend ss = Some b \<Longrightarrow> bk_Open b l s = (Inr c, s') \<Longrightarrow> cn_Issue c t = (y, t') \<Longrightarrow> rt_now rt t' \<le> rt_now rt t + dur"
    and "ss_Backend ss = Some b \<Longrightarrow> bk_Open b l s = (Inr c, s') \<Longrightarrow> rt_now rt (cn_Close c t) \<le> rt_now rt t + dur"
    and "ss_Sink ss = Some k \<Longrightarrow> sk_Write k d s = (we, s') \<Longrightarrow> rt_now rt s' \<le> rt_now rt s + dur"
    and "ss_Sink ss = Some k \<Longrightarrow> sk_Close k s = (ke, s') \<Longrightarrow> rt_now rt s' \<le> rt_now rt s + dur"
  using assms unfolding prompt_laws_def by metis+

text \<open>A check that passes ends before the lease does, whenever it began.\<close>

lemma check_prompt:
  assumes laws: "session_laws rt ss count started" and prompt: "prompt_laws rt ss dur" and b: "ss_Backend ss = Some b"
    and call: "check rt b lease s = (x, s')"
  shows "rt_now rt s' \<le> rt_now rt s + dur" and "x = None \<Longrightarrow> rt_now rt s' < le_ExpiresAt lease"
proof -
  obtain y t where y: "bk_Check b s = (y, t)" by (metis surj_pair)
  have "s' = t" using call y by (auto simp: check_def split: sum.splits if_splits)
  then show "rt_now rt s' \<le> rt_now rt s + dur" using prompt_lawsD(5)[OF prompt b y] by simp
  assume "x = None"
  then have "rt_ctxErr rt (le_ExpiresAt lease) s' = None" using check_confirmed[of rt b lease s s'] call by (auto simp: confirmed_def)
  then show "rt_now rt s' < le_ExpiresAt lease" using session_lawsD(1)[OF laws, of "le_ExpiresAt lease" s'] by fastforce
qed

lemma issue_prompt:
  assumes laws: "session_laws rt ss count started" and prompt: "prompt_laws rt ss dur" and b: "ss_Backend ss = Some b" and k: "ss_Sink ss = Some k"
    and opened: "bk_Open b l t0 = (Inr conn, t1)" and call: "issue rt b k conn lease s = (x, s')" and start: "rt_now rt s \<le> le_ExpiresAt lease + dur"
  shows "rt_now rt s' \<le> le_ExpiresAt lease + 2 * dur" and "x = Inr ra \<Longrightarrow> rt_now rt s' \<le> le_ExpiresAt lease + dur"
proof -
  have d: "0 \<le> dur" by (rule prompt_lawsD(1)[OF prompt])
  obtain x1 s1 where c1: "check rt b lease s = (x1, s1)" by (metis surj_pair)
  obtain y s2 where i: "cn_Issue conn s1 = (y, s2)" by (metis surj_pair)
  obtain z s3 where c2: "check rt b lease s2 = (z, s3)" by (metis surj_pair)
  note p1 = check_prompt[OF laws prompt b c1] and p2 = prompt_lawsD(7)[OF prompt b opened i] and p3 = check_prompt[OF laws prompt b c2]
  have w: "rt_now rt s4 \<le> rt_now rt s3 + dur" if "sk_Write k data s3 = (v, s4)" for data v s4 by (rule prompt_lawsD(9)[OF prompt k that])
  have "rt_now rt s' \<le> le_ExpiresAt lease + 2 * dur \<and> (\<forall>ra. x = Inr ra \<longrightarrow> rt_now rt s' \<le> le_ExpiresAt lease + dur)"
  proof (cases "x1 = None")
    case False
    then have "s' = s1" "\<exists>e. x = Inl e" using call c1 by (auto simp: issue_def)
    then show ?thesis using p1(1) start by auto
  next
    case passed: True
    note early = p1(2)[OF passed]
    show ?thesis
    proof (cases y)
      case (Inl e)
      then have "s' = s2" "x = Inl ErrCredential" using call c1 i passed by (auto simp: issue_def)
      then show ?thesis using p2 early d by auto
    next
      case (Inr cred)
      obtain v s4 where v: "sk_Write k (cr_Kubeconfig cred) s3 = (v, s4)" by (metis surj_pair)
      from call c1 i c2 v Inr passed have "s' = s2 \<and> (\<exists>e. x = Inl e) \<or> s' = s3 \<and> (\<exists>e. x = Inl e) \<or> s' = s4 \<and> z = None"
        by (auto simp: issue_def Let_def split: option.splits if_splits)
      then show ?thesis using p2 early p3 w[OF v] d by auto
    qed
  qed
  then show "rt_now rt s' \<le> le_ExpiresAt lease + 2 * dur" and "x = Inr ra \<Longrightarrow> rt_now rt s' \<le> le_ExpiresAt lease + dur" by blast+
qed

lemma sessionLoop_prompt:
  assumes laws: "session_laws rt ss count started" and prompt: "prompt_laws rt ss dur" and b: "ss_Backend ss = Some b" and k: "ss_Sink ss = Some k"
    and opened: "bk_Open b l t0 = (Inr conn, t1)"
  shows "sessionLoop n rt b k conn lease refreshAt s = Some (e, s') \<Longrightarrow> rt_now rt s \<le> le_ExpiresAt lease + 3 * dur \<Longrightarrow>
    rt_now rt s' \<le> le_ExpiresAt lease + 4 * dur"
proof (induction n arbitrary: refreshAt s)
  case (Suc n)
  have d: "0 \<le> dur" by (rule prompt_lawsD(1)[OF prompt])
  obtain r s1 where sel: "rt_select rt (le_ExpiresAt lease) s = (r, s1)" by (metis surj_pair)
  obtain x s2 where c: "check rt b lease s1 = (x, s2)" by (metis surj_pair)
  obtain y s3 where i: "issue rt b k conn lease s2 = (y, s3)" by (metis surj_pair)
  have t1: "rt_now rt s1 \<le> le_ExpiresAt lease + 3 * dur" using prompt_lawsD(2)[OF prompt sel] Suc.prems(2) d by simp
  note p = check_prompt[OF laws prompt b c]
  have t2: "rt_now rt s2 \<le> le_ExpiresAt lease + 4 * dur" using t1 p(1) by simp
  show ?case
  proof (cases "r = None \<and> x = None")
    case False
    then have "s' = s1 \<or> s' = s2" using Suc.prems(1) sel c by (cases r; cases x) auto
    then show ?thesis using t1 t2 d by auto
  next
    case True
    then have early: "rt_now rt s2 \<le> le_ExpiresAt lease + dur" using p(2) d by simp
    note q = issue_prompt[OF laws prompt b k opened i early]
    show ?thesis
    proof (cases "rt_now rt s2 < refreshAt")
      case waiting: True
      with Suc.prems(1) sel c True have "sessionLoop n rt b k conn lease refreshAt s2 = Some (e, s')" by simp
      from Suc.IH[OF this] early d show ?thesis by simp
    next
      case False
      show ?thesis
      proof (cases y)
        case (Inl er)
        with Suc.prems(1) sel c True False i have "s' = s3" by simp
        then show ?thesis using q(1) d by simp
      next
        case (Inr ra)
        with Suc.prems(1) sel c True False i have "sessionLoop n rt b k conn lease ra s3 = Some (e, s')" by simp
        from Suc.IH[OF this] q(2)[OF Inr] d show ?thesis by simp
      qed
    qed
  qed
qed simp

lemma attached_prompt:
  assumes laws: "session_laws rt ss count started" and prompt: "prompt_laws rt ss dur" and b: "ss_Backend ss = Some b" and k: "ss_Sink ss = Some k"
    and opened: "bk_Open b l t0 = (Inr conn, t1)" and call: "attached n rt ss b k conn lease s = Some (e, s')" and start: "rt_now rt s \<le> le_ExpiresAt lease + dur"
  shows "rt_now rt s' \<le> le_ExpiresAt lease + 4 * dur"
proof -
  have d: "0 \<le> dur" by (rule prompt_lawsD(1)[OF prompt])
  obtain y s1 where i: "issue rt b k conn lease s = (y, s1)" by (metis surj_pair)
  note q = issue_prompt[OF laws prompt b k opened i start]
  show ?thesis
  proof (cases y)
    case (Inl er)
    with call i have "s' = s1" by (simp add: attached_def)
    then show ?thesis using q(1) d by simp
  next
    case (Inr ra)
    define s2 where "s2 = (case ss_Ready ss of None \<Rightarrow> s1 | Some ready \<Rightarrow> ready s1)"
    have "rt_now rt s2 \<le> rt_now rt s1 + dur" using prompt_lawsD(4)[OF prompt, of _ s1] d unfolding s2_def by (auto split: option.splits)
    then have "rt_now rt (rt_NewTicker rt (pollInterval (ss_PollInterval ss)) s2) \<le> le_ExpiresAt lease + 3 * dur"
      using prompt_lawsD(3)[OF prompt, of "pollInterval (ss_PollInterval ss)" s2] q(2)[OF Inr] by simp
    moreover have "sessionLoop n rt b k conn lease ra (rt_NewTicker rt (pollInterval (ss_PollInterval ss)) s2) = Some (e, s')"
      using call i Inr by (simp add: attached_def Let_def s2_def)
    ultimately show ?thesis using sessionLoop_prompt[OF laws prompt b k opened] by blast
  qed
qed

lemma Run_prompt:
  assumes laws: "session_laws rt ss count started" and prompt: "prompt_laws rt ss dur" and b: "ss_Backend ss = Some b" and k: "ss_Sink ss = Some k"
    and first: "bk_Check b s = (Inr lease, s1)" and call: "Run n rt ss s = Some (errs, s')"
  shows "rt_now rt s' \<le> max (le_ExpiresAt lease) (rt_now rt s1) + 6 * dur"
proof -
  have d: "0 \<le> dur" by (rule prompt_lawsD(1)[OF prompt])
  from call b k obtain e t where r: "runSession n rt ss b k s = Some (e, t)" and cl: "\<exists>x. sk_Close k t = (x, s')"
    by (auto simp: Run_def split: option.splits prod.splits)
  have close: "rt_now rt s' \<le> rt_now rt t + dur" using cl prompt_lawsD(10)[OF prompt k] by blast
  have "rt_now rt t \<le> max (le_ExpiresAt lease) (rt_now rt s1) + 5 * dur"
  proof (cases "le_UID lease = '''' \<or> \<not> rt_now rt s1 < le_ExpiresAt lease")
    case True
    then have "t = s1" using r first by (auto simp: runSession_def)
    then show ?thesis using d by simp
  next
    case False
    obtain x s2 where o: "bk_Open b lease s1 = (x, s2)" by (metis surj_pair)
    note p2 = prompt_lawsD(6)[OF prompt b o]
    show ?thesis
    proof (cases x)
      case (Inl er)
      then have "t = s2" using r first False o by (auto simp: runSession_def)
      then show ?thesis using p2 d by simp
    next
      case (Inr conn)
      note opened = o[unfolded Inr]
      from r first False o Inr obtain u where u: "attached n rt ss b k conn lease s2 = Some (e, u)" "t = cn_Close conn u"
        by (auto simp: runSession_def)
      have "rt_now rt s2 \<le> le_ExpiresAt lease + dur" using p2 False by simp
      from attached_prompt[OF laws prompt b k opened u(1) this] prompt_lawsD(8)[OF prompt b opened, of u] u(2) show ?thesis using d by simp
    qed
  qed
  with close show ?thesis by simp
qed

text \<open>C29: a session returns, and ends with the lease that its first check found. As many rounds as poll intervals fit between that check and the lease's expiry, and one
  more, are enough for \<open>Run\<close> to return, whatever the backend, the connection and the sink answer and even when the Oubliette is renewed meanwhile (ticks come at
  least an interval apart). The clock then shows at most six times the longest duration of a single call past the expiry (or past the first check, when it took longer than
  that): the deadline ends a wait on its own, so the poll interval does not enter.\<close>

theorem session_terminates:
  assumes laws: "session_laws rt ss count started" and prompt: "prompt_laws rt ss dur" and b: "ss_Backend ss = Some b" and k: "ss_Sink ss = Some k"
    and first: "bk_Check b s = (Inr lease, s1)"
    and fuel: "le_ExpiresAt lease \<le> rt_now rt s1 + int n * sint (pollInterval (ss_PollInterval ss))"
  shows "\<exists>errs s'. Run (Suc n) rt ss s = Some (errs, s') \<and> rt_now rt s' \<le> max (le_ExpiresAt lease) (rt_now rt s1) + 6 * dur"
proof -
  obtain r where "Run (Suc n) rt ss s = Some r" using Run_returns[OF laws b k first fuel] by blast
  then show ?thesis using Run_prompt[OF laws prompt b k first] by (cases r) blast
qed

section \<open>The file sink\<close>

record FileSink =
  fs_directory :: path

definition NewFileSink :: "string \<Rightarrow> disk \<Rightarrow> (conn_err + FileSink) \<times> disk" where
  "NewFileSink directory d =
     (if \<not> path_IsAbs directory then (Inl ErrDelivery, d)
      else (case os_Mkdir (filePath directory) d of
        (Inl _, d1) \<Rightarrow> (Inl ErrDelivery, d1)
      | (Inr _, d1) \<Rightarrow> (Inr \<lparr>fs_directory = filePath directory\<rparr>, d1)))"

definition kubeconfigPath :: "FileSink \<Rightarrow> path" where
  "kubeconfigPath k = joinPath (fs_directory k) ''kubeconfig''"

definition fillFile :: "FileSink \<Rightarrow> path \<Rightarrow> string \<Rightarrow> disk \<Rightarrow> conn_err option \<times> disk" where
  "fillFile k f data d =
     (case file_Write f data d of
        (Inl _, d1) \<Rightarrow> (Some ErrDelivery, snd (file_Close d1))
      | (Inr _, d1) \<Rightarrow>
          (case file_Sync d1 of
             (Inl _, d2) \<Rightarrow> (Some ErrDelivery, snd (file_Close d2))
           | (Inr _, d2) \<Rightarrow>
               (case file_Close d2 of
                  (Inl _, d3) \<Rightarrow> (Some ErrDelivery, d3)
                | (Inr _, d3) \<Rightarrow>
                    (case os_Rename f (kubeconfigPath k) d3 of
                       (Inl _, d4) \<Rightarrow> (Some ErrDelivery, d4)
                     | (Inr _, d4) \<Rightarrow> (None, d4)))))"

definition FileSink_Write :: "FileSink \<Rightarrow> string \<Rightarrow> disk \<Rightarrow> conn_err option \<times> disk" where
  "FileSink_Write k data d =
     (case os_CreateTemp (fs_directory k) ''.credential-'' d of
        (Inl _, d1) \<Rightarrow> (Some ErrDelivery, d1)
      | (Inr f, d1) \<Rightarrow> (case fillFile k f data d1 of (res, d2) \<Rightarrow> (res, snd (os_Remove f d2))))"

text \<open>The error of the close, which the session replaces by its own: that of one of the two removals.\<close>

definition FileSink_Close :: "FileSink \<Rightarrow> disk \<Rightarrow> os_err list \<times> disk" where
  "FileSink_Close k d =
     (case os_Remove (kubeconfigPath k) d of
        (r1, d1) \<Rightarrow>
          (case os_Remove (fs_directory k) d1 of
             (r2, d2) \<Rightarrow>
               ((case r1 of Inl e \<Rightarrow> if e = NotExist then [] else [e] | Inr _ \<Rightarrow> []) @
                (case r2 of Inl e \<Rightarrow> [e] | Inr _ \<Rightarrow> []), d2)))"

definition fileSink :: "FileSink \<Rightarrow> ('h \<times> disk) Sink" where
  "fileSink k = \<lparr>sk_Write = (\<lambda>data. onDisk (FileSink_Write k data)),
     sk_Close = onDisk (\<lambda>d. case FileSink_Close k d of (es, d1) \<Rightarrow> (if es = [] then None else Some ErrDelivery, d1))\<rparr>"

text \<open>\<open>os.Lstat\<close> and \<open>os.ReadFile\<close> of the caller's token, with the mode bits the code reads.\<close>

record FileInfo =
  fi_Regular :: bool
  fi_Perm :: nat
  fi_Size :: int

definition ReadTokenFile :: "FileInfo option \<Rightarrow> string option \<Rightarrow> conn_err + string" where
  "ReadTokenFile lstat contents =
     (case lstat of
        None \<Rightarrow> Inl ErrDenied
      | Some info \<Rightarrow>
          if \<not> fi_Regular info \<or> fi_Perm info mod 64 \<noteq> 0 \<or> 64 * 1024 < fi_Size info then Inl ErrDenied
          else (case contents of None \<Rightarrow> Inl ErrDenied | Some b \<Rightarrow> Inr b))"

section \<open>What a session relies on of its sink\<close>

text \<open>\<open>exposed\<close> is the credential a consumer can read in a state.\<close>

locale credential_sink =
  fixes K :: "'s Sink" and exposed :: "'s \<Rightarrow> string option" and removed :: "'s \<Rightarrow> bool"
  assumes write_ok: "sk_Write K data s = (None, s') \<Longrightarrow> exposed s' = Some data"
    and write_atomic: "sk_Write K data s = (r, s') \<Longrightarrow> exposed s' = exposed s \<or> exposed s' = Some data"
    and close_removes: "sk_Close K s = (None, s') \<Longrightarrow> removed s'"
    and removed_hides: "removed s \<Longrightarrow> exposed s = None"
begin

lemma run_cleans:
  assumes "ss_Backend ss = Some b" and "ss_Sink ss = Some K" and "Run n rt ss s = Some (errs, s')" and "ErrDelivery \<notin> set errs"
  shows "removed s' \<and> exposed s' = None"
  using assms close_removes removed_hides
  by (auto simp: Run_def split: option.splits prod.splits)

lemma issue_exposes:
  assumes "issue rt b K conn lease s = (Inr t, s')"
  shows "\<exists>s1 s2 cred. cn_Issue conn s1 = (Inr cred, s2) \<and> exposed s' = Some (cr_Kubeconfig cred)"
  using assms write_ok by (auto simp: issue_def Let_def split: prod.splits option.splits sum.splits if_splits)

end

definition exposedFile :: "FileSink \<Rightarrow> 'h \<times> disk \<Rightarrow> string option" where
  "exposedFile k s = (case d_entries (snd s) (kubeconfigPath k) of Some (File x) \<Rightarrow> Some x | _ \<Rightarrow> None)"

definition sinkRemoved :: "FileSink \<Rightarrow> 'h \<times> disk \<Rightarrow> bool" where
  "sinkRemoved k s \<longleftrightarrow> (\<forall>x. below (fs_directory k) x \<longrightarrow> d_entries (snd s) x = None)"

lemma kubeconfigPath_eq: "kubeconfigPath k = (fst (fs_directory k), ''kubeconfig'' # snd (fs_directory k))"
  unfolding kubeconfigPath_def by (rule joinPath_single) simp_all

lemma below_kubeconfig: "below (fs_directory k) (kubeconfigPath k)"
  by (auto simp: kubeconfigPath_eq below_iff)

lemma fillFile_effect:
  assumes "fillFile k f data d = (res, d')" and "d_entries d f = Some (File '''')" and "f \<noteq> kubeconfigPath k"
  shows "d_entries d' (kubeconfigPath k) = d_entries d (kubeconfigPath k) \<or> d_entries d' (kubeconfigPath k) = Some (File data)"
    and "res = None \<Longrightarrow> d_entries d' (kubeconfigPath k) = Some (File data)"
proof -
  let ?q = "kubeconfigPath k"
  obtain w d1 where w: "file_Write f data d = (w, d1)" by (metis surj_pair)
  obtain y d2 where y: "file_Sync d1 = (y, d2)" by (metis surj_pair)
  obtain c d3 where c: "file_Close d2 = (c, d3)" by (metis surj_pair)
  obtain c' d3' where c': "file_Close d1 = (c', d3')" by (metis surj_pair)
  obtain n d4 where n: "os_Rename f ?q d3 = (n, d4)" by (metis surj_pair)
  note we = file_Write_effect[OF w] and ne = Rename_effect[OF n]
  have same: "d_entries d2 = d_entries d1" "d_entries d3 = d_entries d1" "d_entries d3' = d_entries d1"
    using file_Sync_effect[OF y] file_Close_effect[OF c] file_Close_effect[OF c'] by simp_all
  have q: "d_entries d1 ?q = d_entries d ?q" using touchesD[OF we(1), of ?q] assms(3) by simp
  have f: "w = Inr () \<Longrightarrow> d_entries d1 f = Some (File data)" using we(2)[of "''''"] assms(2) by simp
  have n4: "n = Inr () \<Longrightarrow> d_entries d4 ?q = d_entries d1 f"
    using ne entries_move_target[of f ?q "tick d3" "[]"] same(2) by simp
  have n4': "n = Inl e \<Longrightarrow> d_entries d4 ?q = d_entries d1 ?q" for e using ne same(2) by simp
  have "d' \<in> {d3', d3} \<and> res \<noteq> None \<or> d' = d4 \<and> w = Inr () \<and> (res = None \<longleftrightarrow> n = Inr ())"
    using assms(1) w y c c' n by (auto simp: fillFile_def split: sum.splits)
  then show "d_entries d' ?q = d_entries d ?q \<or> d_entries d' ?q = Some (File data)" "res = None \<Longrightarrow> d_entries d' ?q = Some (File data)"
    using same q f n4 n4' by (cases n; auto)+
qed

lemma FileSink_Write_effect:
  assumes "FileSink_Write k data d = (res, d')"
  shows "d_entries d' (kubeconfigPath k) = d_entries d (kubeconfigPath k) \<or> d_entries d' (kubeconfigPath k) = Some (File data)"
    and "res = None \<Longrightarrow> d_entries d' (kubeconfigPath k) = Some (File data)"
proof -
  obtain t d1 where t: "os_CreateTemp (fs_directory k) ''.credential-'' d = (t, d1)" by (metis surj_pair)
  note te = temp_effect[OF t]
  have "(d_entries d' (kubeconfigPath k) = d_entries d (kubeconfigPath k) \<or> d_entries d' (kubeconfigPath k) = Some (File data)) \<and>
    (res = None \<longrightarrow> d_entries d' (kubeconfigPath k) = Some (File data))"
  proof (cases t)
    case (Inl e)
    with assms t te show ?thesis by (auto simp: FileSink_Write_def)
  next
    case (Inr f)
    then obtain i where f: "f = (fst (fs_directory k), (''.credential-'' @ nat_digits i) # snd (fs_directory k))"
      "d_entries d1 = (d_entries d)(f \<mapsto> File '''')" using te by blast
    have ne: "f \<noteq> kubeconfigPath k" "kubeconfigPath k \<notin> subtree f"
      using below_siblings[of "fst (fs_directory k)" "''.credential-'' @ nat_digits i" "snd (fs_directory k)" "kubeconfigPath k" "''kubeconfig''"]
      by (auto simp: f(1) kubeconfigPath_eq)
    obtain r d2 where r: "fillFile k f data d1 = (r, d2)" by (metis surj_pair)
    obtain v d3 where v: "os_Remove f d2 = (v, d3)" by (metis surj_pair)
    have "d_entries d3 (kubeconfigPath k) = d_entries d2 (kubeconfigPath k)" by (rule touchesD[OF Remove_touches[OF v] ne(2)])
    moreover have "d_entries d1 f = Some (File '''')" using f(2) by simp
    note fillFile_effect[OF r this ne(1)]
    moreover have "d_entries d1 (kubeconfigPath k) = d_entries d (kubeconfigPath k)" using f(2) ne(1) by auto
    ultimately show ?thesis using assms t Inr r v by (auto simp: FileSink_Write_def)
  qed
  then show "d_entries d' (kubeconfigPath k) = d_entries d (kubeconfigPath k) \<or> d_entries d' (kubeconfigPath k) = Some (File data)"
    "res = None \<Longrightarrow> d_entries d' (kubeconfigPath k) = Some (File data)" by blast+
qed

lemma FileSink_Close_removed: "FileSink_Close k d = ([], d') \<Longrightarrow> below (fs_directory k) x \<Longrightarrow> d_entries d' x = None"
proof -
  assume call: "FileSink_Close k d = ([], d')" and x: "below (fs_directory k) x"
  obtain r1 d1 where r1: "os_Remove (kubeconfigPath k) d = (r1, d1)" by (metis surj_pair)
  obtain r2 d2 where r2: "os_Remove (fs_directory k) d1 = (r2, d2)" by (metis surj_pair)
  have "r2 = Inr ()" "d' = d2" using call r1 r2 by (auto simp: FileSink_Close_def split: sum.splits if_splits)
  then show ?thesis using Remove_effect[OF r2] x by simp
qed

interpretation filesink: credential_sink "fileSink k" "exposedFile k" "sinkRemoved k"
proof
  fix data and s s' :: "'a \<times> disk" and r
  have d: "FileSink_Write k data (snd s) = (r, snd s')" if "sk_Write (fileSink k) data s = (r, s')" for r
    using that by (auto simp: fileSink_def onDisk_def split: prod.splits)
  show "sk_Write (fileSink k) data s = (None, s') \<Longrightarrow> exposedFile k s' = Some data"
    using FileSink_Write_effect(2)[OF d] by (simp add: exposedFile_def)
  show "sk_Write (fileSink k) data s = (r, s') \<Longrightarrow> exposedFile k s' = exposedFile k s \<or> exposedFile k s' = Some data"
    using FileSink_Write_effect(1)[OF d] by (auto simp: exposedFile_def)
  show "sk_Close (fileSink k) s = (None, s') \<Longrightarrow> sinkRemoved k s'"
    using FileSink_Close_removed[of k "snd s" "snd s'"]
    by (auto simp: fileSink_def onDisk_def sinkRemoved_def split: prod.splits if_splits)
  show "sinkRemoved k s \<Longrightarrow> exposedFile k s = None"
  proof -
    assume "sinkRemoved k s"
    then have "d_entries (snd s) (kubeconfigPath k) = None" using below_kubeconfig unfolding sinkRemoved_def by blast
    then show ?thesis by (simp add: exposedFile_def)
  qed
qed

text \<open>No credential outlives its session. When a session with the file sink returns without reporting a delivery error, its directory
  is gone with everything below it, the kubeconfig included, whatever ended the session and whichever calls failed on the way.\<close>

lemma session_cleans_up:
  assumes "ss_Backend ss = Some b" and "ss_Sink ss = Some (fileSink k)" and "Run n rt ss s = Some (errs, s')" and "ErrDelivery \<notin> set errs"
  shows "(\<forall>x. below (fs_directory k) x \<longrightarrow> d_entries (snd s') x = None) \<and> d_entries (snd s') (kubeconfigPath k) = None"
proof -
  have r: "\<forall>x. below (fs_directory k) x \<longrightarrow> d_entries (snd s') x = None"
    using filesink.run_cleans[OF assms] by (simp add: sinkRemoved_def)
  then show ?thesis using below_kubeconfig by blast
qed

section \<open>A session at work\<close>

text \<open>A host whose state is the clock, the ticks and the start of the ticker.\<close>

type_synonym demo_host = "(time \<times> nat \<times> time) \<times> disk"

definition demo_rt :: "demo_host runtime" where
  "demo_rt = \<lparr>rt_now = (\<lambda>s. fst (fst s)), rt_ctxErr = (\<lambda>dl s. if dl \<le> fst (fst s) then Some DeadlineExceeded else None),
     rt_NewTicker = (\<lambda>_ s. ((fst (fst s), 0, fst (fst s)), snd s)),
     rt_select = (\<lambda>dl s. case s of ((t, c, st), d) \<Rightarrow>
       let tick = max t (st + int (Suc c) * 15000000000) in
       if tick < dl then (None, ((tick, Suc c, st), d)) else (Some DeadlineExceeded, ((max t dl, c, st), d)))\<rparr>"

definition demo_lease :: Lease where
  "demo_lease = \<lparr>le_Name = ''a'', le_Namespace = ''oub-a'', le_Caller = ''alice'', le_UID = ''uid'', le_ExpiresAt = 40000000000\<rparr>"

definition demo_connection :: "demo_host Connection" where
  "demo_connection = \<lparr>cn_Issue = (\<lambda>s. (Inr \<lparr>cr_Kubeconfig = ''k'', cr_ExpiresAt = fst (fst s) + 600000000000\<rparr>, s)), cn_Close = (\<lambda>s. s)\<rparr>"

definition demo_backend :: "demo_host Backend" where
  "demo_backend = \<lparr>bk_Check = (\<lambda>s. (Inr demo_lease, s)), bk_Open = (\<lambda>_ s. (Inr demo_connection, s))\<rparr>"

definition demo_sink :: FileSink where "demo_sink = \<lparr>fs_directory = (True, [''c''])\<rparr>"

definition demo_session :: "demo_host Session" where
  "demo_session = \<lparr>ss_Backend = Some demo_backend, ss_Sink = Some (fileSink demo_sink), ss_Ready = None, ss_PollInterval = 0\<rparr>"

definition demo_start :: demo_host where
  "demo_start = ((0, 0, 0), \<lparr>d_list = [((True, [''c'']), Dir)], d_ops = 0, d_fault = (\<lambda>_. None), d_random = (\<lambda>_. 7)\<rparr>)"

lemma demo_session_laws: "session_laws demo_rt demo_session (\<lambda>s. fst (snd (fst s))) (\<lambda>s. snd (snd (fst s)))"
proof -
  have "sint (pollInterval 0) = 15000000000" by (simp add: pollInterval_def Second_def)
  then show ?thesis
    unfolding session_laws_def
    by (auto simp: demo_rt_def demo_session_def demo_backend_def demo_connection_def passes_time_def fileSink_def onDisk_def Let_def
        split: prod.splits if_splits)
qed

lemma demo_prompt_laws: "prompt_laws demo_rt demo_session 0"
  by (auto simp: prompt_laws_def demo_rt_def demo_session_def demo_backend_def demo_connection_def fileSink_def onDisk_def Let_def
      split: prod.splits if_splits)

text \<open>The ticks come at 15 and 30 seconds; the deadline at 40 seconds ends the session.\<close>

theorem session_terminates_witness:
  "\<exists>errs s'. Run (Suc 3) demo_rt demo_session demo_start = Some (errs, s') \<and> rt_now demo_rt s' \<le> 40000000000"
proof -
  have iv: "sint (pollInterval (ss_PollInterval demo_session)) = 15000000000" by (simp add: demo_session_def pollInterval_def Second_def)
  have b: "ss_Backend demo_session = Some demo_backend" "ss_Sink demo_session = Some (fileSink demo_sink)" by (simp_all add: demo_session_def)
  have f: "bk_Check demo_backend demo_start = (Inr demo_lease, demo_start)" by (simp add: demo_backend_def)
  have "le_ExpiresAt demo_lease \<le> rt_now demo_rt demo_start + int 3 * sint (pollInterval (ss_PollInterval demo_session))"
    by (simp add: iv demo_lease_def demo_rt_def demo_start_def)
  from session_terminates[OF demo_session_laws demo_prompt_laws b f this] show ?thesis by (simp add: demo_lease_def demo_rt_def demo_start_def)
qed

end
