(* ===== verification/ConnectorKube.thy ===== *)
theory ConnectorKube
  imports Connector McpAuth VCluster Json
begin

text \<open>
  The connector's Kubernetes backend, \<open>pkg/connector/kubernetes.go\<close> and \<open>lifecycle.go\<close>. The check of the caller's lease,
  the choice of the control plane's pod and port, the reading of the bootstrap kubeconfig, the issuing of credentials and
  the lifecycle calls are translated; the host client, the kubeconfig codec, the clients made from a configuration and the port
  forwarder are parameters. The connection keeps its configuration beside the world the parameters act on, and
  \<open>kubernetesBackend\<close> is the backend a session runs on.
\<close>

section \<open>Objects of the host and the client libraries\<close>

datatype IntOrString = IntVal int | StrVal string

record ServicePort =
  sp_Port :: int
  sp_Protocol :: string
  sp_TargetPort :: IntOrString

record Service =
  sv_Selector :: smap
  sv_Ports :: "ServicePort list"

text \<open>A pod's containers are the lists of their ports, each a name and a number.\<close>

record Pod =
  pd_Name :: string
  pd_Namespace :: string
  pd_Labels :: smap
  pd_DeletionTimestamp :: "time option"
  pd_Phase :: string
  pd_Conditions :: "(string \<times> string) list"
  pd_Containers :: "(string \<times> int) list list"

record 'w kube_host =
  kh_Objects :: "'w oub_client"
  kh_GetSecret :: "string \<Rightarrow> string \<Rightarrow> 'w \<Rightarrow> (api_err + smap) \<times> 'w"
  kh_GetService :: "string \<Rightarrow> string \<Rightarrow> 'w \<Rightarrow> (api_err + Service) \<times> 'w"
  kh_ListPods :: "string \<Rightarrow> smap \<Rightarrow> 'w \<Rightarrow> (api_err + Pod list) \<times> 'w"

text \<open>\<open>rest.Config\<close>, with the fields the connector reads or sets; the proxy function is only compared with nil.\<close>

record Config =
  cf_Host :: string
  cf_Timeout :: duration
  cf_BearerToken :: string
  cf_Insecure :: bool
  cf_ServerName :: string
  cf_CAData :: string
  cf_CertData :: string
  cf_KeyData :: string
  cf_Proxy :: bool

definition zeroConfig :: Config where
  "zeroConfig = \<lparr>cf_Host = '''', cf_Timeout = 0, cf_BearerToken = '''', cf_Insecure = False, cf_ServerName = '''',
     cf_CAData = '''', cf_CertData = '''', cf_KeyData = '''', cf_Proxy = False\<rparr>"

text \<open>The kubeconfig of \<open>clientcmd/api\<close>; of the credential plugins only their presence is read.\<close>

record Cluster =
  ku_Server :: string
  ku_TLSServerName :: string
  ku_InsecureSkipTLSVerify :: bool
  ku_CertificateAuthority :: string
  ku_CertificateAuthorityData :: string
  ku_ProxyURL :: string

record AuthInfo =
  ai_ClientCertificate :: string
  ai_ClientCertificateData :: string
  ai_ClientKey :: string
  ai_ClientKeyData :: string
  ai_Token :: string
  ai_TokenFile :: string
  ai_Impersonate :: string
  ai_Username :: string
  ai_Password :: string
  ai_AuthProvider :: bool
  ai_Exec :: bool

record Context =
  cx_Cluster :: string
  cx_AuthInfo :: string
  cx_Namespace :: string

record Kubeconfig =
  kc_Clusters :: "string \<rightharpoonup> Cluster"
  kc_AuthInfos :: "string \<rightharpoonup> AuthInfo"
  kc_Contexts :: "string \<rightharpoonup> Context"
  kc_CurrentContext :: string

definition NewConfig :: Kubeconfig where
  "NewConfig = \<lparr>kc_Clusters = (\<lambda>_. None), kc_AuthInfos = (\<lambda>_. None), kc_Contexts = (\<lambda>_. None), kc_CurrentContext = ''''\<rparr>"

definition zeroCluster :: Cluster where
  "zeroCluster = \<lparr>ku_Server = '''', ku_TLSServerName = '''', ku_InsecureSkipTLSVerify = False, ku_CertificateAuthority = '''',
     ku_CertificateAuthorityData = '''', ku_ProxyURL = ''''\<rparr>"

definition zeroAuthInfo :: AuthInfo where
  "zeroAuthInfo = \<lparr>ai_ClientCertificate = '''', ai_ClientCertificateData = '''', ai_ClientKey = '''', ai_ClientKeyData = '''',
     ai_Token = '''', ai_TokenFile = '''', ai_Impersonate = '''', ai_Username = '''', ai_Password = '''',
     ai_AuthProvider = False, ai_Exec = False\<rparr>"

record TokenRequestStatus =
  tq_Token :: string
  tq_ExpirationTimestamp :: time

text \<open>What the forwarder's start ends in: it is ready, with its local ports unless asking for them fails, or it ended, was
  cancelled or took more than twenty seconds first.\<close>

datatype forwarding = Forwarding "nat list option" | ForwardEnded | ForwardCancelled | ForwardTimeout

text \<open>
  The libraries: \<open>kl_NewForConfig\<close> says whether a client can be made from a configuration, \<open>kl_Transport\<close> whether the TLS
  configuration, the upgrader and the wrappers can. The forwarder gets the URL, the addresses to listen on and the ports;
  \<open>kl_Stop\<close> cancels the connection's context and waits for the forwarder to end.
\<close>

record 'w connlib =
  kl_Meta :: apimeta
  kl_Now :: "'w \<Rightarrow> time"
  kl_IsDNS1123Label :: "string \<Rightarrow> string list"
  kl_Load :: "string \<Rightarrow> Kubeconfig option"
  kl_Write :: "Kubeconfig \<Rightarrow> string option"
  kl_NewForConfig :: "Config \<Rightarrow> bool"
  kl_PodURL :: "Config \<Rightarrow> string \<Rightarrow> string \<Rightarrow> string"
  kl_Transport :: "Config \<Rightarrow> bool"
  kl_NewRequest :: "string \<Rightarrow> bool"
  kl_NewForwarder :: "string \<Rightarrow> string list \<Rightarrow> string list \<Rightarrow> bool"
  kl_Forward :: "string \<Rightarrow> string list \<Rightarrow> string list \<Rightarrow> 'w \<Rightarrow> forwarding \<times> 'w"
  kl_Stop :: "'w \<Rightarrow> 'w"
  kl_CreateToken :: "Config \<Rightarrow> string \<Rightarrow> string \<Rightarrow> int64 \<Rightarrow> 'w \<Rightarrow> (api_err + TokenRequestStatus) \<times> 'w"

record 'w KubernetesBackend =
  kb_Host :: "'w kube_host option"
  kb_Config :: "Config option"
  kb_Resolver :: "(string \<Rightarrow> 'w \<Rightarrow> (auth_err + string) \<times> 'w) option"
  kb_Token :: "('w \<Rightarrow> string option \<times> 'w) option"
  kb_Name :: string

section \<open>The lease\<close>

definition authorize :: "apimeta \<Rightarrow> Oubliette \<Rightarrow> string \<Rightarrow> time \<Rightarrow> conn_err + Lease" where
  "authorize am obj caller now =
     (let digest = digestOf caller;
          cs = st_Conditions (o_Status obj);
          ready = FindStatusCondition am cs ConditionReady;
          namespace = ''oub-'' @ o_Name obj in
      if caller = '''' \<or> o_UID obj = '''' \<or> annotation obj CallerDigestAnnotation \<noteq> digest \<or>
         \<not> optIsZero (o_DeletionTimestamp obj) \<or> \<not> now < spec_ExpiresAt (o_Spec obj) \<or>
         (case ready of None \<Rightarrow> True | Some c \<Rightarrow> c_Status c \<noteq> ConditionTrue \<or> c_ObservedGeneration c \<noteq> o_Generation obj) \<or>
         st_ObservedGeneration (o_Status obj) \<noteq> o_Generation obj \<or> st_HostNamespace (o_Status obj) \<noteq> namespace \<or>
         IsStatusConditionTrue am cs ConditionExpiring \<or> IsStatusConditionTrue am cs ConditionForgotten
      then Inl ErrDenied
      else Inr \<lparr>le_Name = o_Name obj, le_Namespace = namespace, le_Caller = caller, le_UID = o_UID obj,
                le_ExpiresAt = spec_ExpiresAt (o_Spec obj)\<rparr>)"

text \<open>The caller behind the host-held token, or nothing where the code denies.\<close>

definition tokenCaller ::
  "('w \<Rightarrow> string option \<times> 'w) \<Rightarrow> (string \<Rightarrow> 'w \<Rightarrow> (auth_err + string) \<times> 'w) \<Rightarrow> 'w \<Rightarrow> string option \<times> 'w" where
  "tokenCaller readToken resolve w =
     (case readToken w of
        (None, w1) \<Rightarrow> (None, w1)
      | (Some token, w1) \<Rightarrow>
          if TrimSpace token = '''' then (None, w1)
          else (case resolve (TrimSpace token) w1 of
             (Inl _, w2) \<Rightarrow> (None, w2)
           | (Inr caller, w2) \<Rightarrow> (if caller = '''' then None else Some caller, w2)))"

definition Check :: "'w connlib \<Rightarrow> 'w KubernetesBackend \<Rightarrow> 'w \<Rightarrow> (conn_err + Lease) \<times> 'w" where
  "Check L b w =
     (case (kb_Host b, kb_Resolver b, kb_Token b) of
        (Some host, Some resolve, Some readToken) \<Rightarrow>
          if length (kb_Name b) > 59 \<or> length (kl_IsDNS1123Label L (kb_Name b)) \<noteq> 0 then (Inl ErrDenied, w)
          else (case tokenCaller readToken resolve w of
             (None, w1) \<Rightarrow> (Inl ErrDenied, w1)
           | (Some caller, w1) \<Rightarrow>
               (case cl_Get (kh_Objects host) (kb_Name b) w1 of
                  (Inl _, w2) \<Rightarrow> (Inl ErrDenied, w2)
                | (Inr obj, w2) \<Rightarrow> (authorize (kl_Meta L) obj caller (kl_Now L w2), w2)))
      | _ \<Rightarrow> (Inl ErrDenied, w))"

section \<open>The control plane and the bootstrap configuration\<close>

definition podReady :: "Pod \<Rightarrow> bool" where
  "podReady pod \<longleftrightarrow> list_ex (\<lambda>c. fst c = ''Ready'' \<and> snd c = ''True'') (pd_Conditions pod)"

definition controlPlanePod :: "Lease \<Rightarrow> Pod \<Rightarrow> bool" where
  "controlPlanePod lease pod \<longleftrightarrow>
     \<not> (mapGet (pd_Labels pod) ''app'' \<noteq> ''vcluster'' \<or> mapGet (pd_Labels pod) ''release'' \<noteq> le_Name lease \<or>
        mapGet (pd_Labels pod) ''vcluster.loft.sh/managed-by'' \<noteq> '''' \<or> pd_Namespace pod \<noteq> le_Namespace lease \<or>
        \<not> optIsZero (pd_DeletionTimestamp pod) \<or> pd_Phase pod \<noteq> ''Running'') \<and> podReady pod"

text \<open>A named target port is looked up in the pod's containers; the last match counts.\<close>

definition namedPort :: "string \<Rightarrow> Pod \<Rightarrow> int" where
  "namedPort name pod = fold (\<lambda>cp port. if fst cp = name then snd cp else port) (concat (pd_Containers pod)) 0"

definition targetPort :: "Pod \<Rightarrow> ServicePort \<Rightarrow> int" where
  "targetPort pod p =
     (case sp_TargetPort p of
        StrVal name \<Rightarrow> namedPort name pod
      | IntVal port \<Rightarrow> if port = 0 then 443 else port)"

fun servicePort :: "Pod \<Rightarrow> ServicePort list \<Rightarrow> int option" where
  "servicePort pod [] = None"
| "servicePort pod (p # ps) =
     (if sp_Port p \<noteq> 443 \<or> (sp_Protocol p \<noteq> '''' \<and> sp_Protocol p \<noteq> ''TCP'') then servicePort pod ps
      else if targetPort pod p > 0 \<and> targetPort pod p \<le> 65535 then Some (targetPort pod p)
      else servicePort pod ps)"

fun controlPlaneTarget :: "Lease \<Rightarrow> Service \<Rightarrow> Pod list \<Rightarrow> conn_err + string \<times> int" where
  "controlPlaneTarget lease service [] = Inl ErrTransport"
| "controlPlaneTarget lease service (pod # pods) =
     (if \<not> controlPlanePod lease pod then controlPlaneTarget lease service pods
      else (case servicePort pod (sv_Ports service) of
        Some port \<Rightarrow> Inr (pd_Name pod, port)
      | None \<Rightarrow> controlPlaneTarget lease service pods))"

definition bootstrapConfig :: "'w connlib \<Rightarrow> string \<Rightarrow> string \<Rightarrow> conn_err + Config" where
  "bootstrapConfig L data tlsName =
     (case kl_Load L data of
        None \<Rightarrow> Inl ErrCredential
      | Some cfg \<Rightarrow>
          (case kc_Contexts cfg (kc_CurrentContext cfg) of
             None \<Rightarrow> Inl ErrCredential
           | Some selected \<Rightarrow>
               (case (kc_Clusters cfg (cx_Cluster selected), kc_AuthInfos cfg (cx_AuthInfo selected)) of
                  (Some cluster, Some auth) \<Rightarrow>
                    if ku_CertificateAuthorityData cluster = '''' \<or> ku_InsecureSkipTLSVerify cluster \<or>
                       ku_CertificateAuthority cluster \<noteq> '''' \<or> ku_ProxyURL cluster \<noteq> '''' \<or> ai_Exec auth \<or> ai_AuthProvider auth \<or>
                       ai_TokenFile auth \<noteq> '''' \<or> ai_ClientCertificate auth \<noteq> '''' \<or> ai_ClientKey auth \<noteq> '''' \<or>
                       ai_Impersonate auth \<noteq> '''' \<or> ai_Username auth \<noteq> '''' \<or> ai_Password auth \<noteq> ''''
                    then Inl ErrCredential
                    else if ai_Token auth = '''' \<and> (ai_ClientCertificateData auth = '''' \<or> ai_ClientKeyData auth = '''')
                    then Inl ErrCredential
                    else Inr (zeroConfig\<lparr>cf_Timeout := 10 * Second, cf_BearerToken := ai_Token auth, cf_ServerName := tlsName,
                               cf_CAData := ku_CertificateAuthorityData cluster, cf_CertData := ai_ClientCertificateData auth,
                               cf_KeyData := ai_ClientKeyData auth\<rparr>)
                | _ \<Rightarrow> Inl ErrCredential)))"

section \<open>Opening a connection\<close>

record kubernetesConnection =
  kn_config :: Config
  kn_cancelled :: bool

definition portForwardURL :: "'w connlib \<Rightarrow> Config \<Rightarrow> string \<Rightarrow> string \<Rightarrow> string option" where
  "portForwardURL L config namespace pod =
     (if kl_NewForConfig L config then Some (kl_PodURL L config namespace pod) else None)"

definition forwardTransport :: "'w connlib \<Rightarrow> Config \<Rightarrow> bool" where
  "forwardTransport L config \<longleftrightarrow>
     (if cf_Proxy config \<or> cf_Insecure config \<or> \<not> HasPrefix (cf_Host config) ''https://'' then False else kl_Transport L config)"

definition loopback :: string where "loopback = ''127.0.0.1''"

text \<open>From the pod and the port to the local end of the tunnel. The deferred function stops a forwarder that was started.\<close>

definition openTunnel :: "'w connlib \<Rightarrow> Config \<Rightarrow> Lease \<Rightarrow> string \<Rightarrow> int \<Rightarrow> 'w \<Rightarrow> (conn_err + nat) \<times> 'w" where
  "openTunnel L config lease pod port w =
     (case portForwardURL L config (le_Namespace lease) pod of
        None \<Rightarrow> (Inl ErrTransport, w)
      | Some url \<Rightarrow>
          let ports = [''0:'' @ int_digits port] in
          if \<not> forwardTransport L (config\<lparr>cf_Timeout := 0\<rparr>) then (Inl ErrTransport, w)
          else if \<not> kl_NewRequest L url then (Inl ErrTransport, w)
          else if \<not> kl_NewForwarder L url [loopback] ports then (Inl ErrTransport, w)
          else (case kl_Forward L url [loopback] ports w of
             (Forwarding (Some [local]), w1) \<Rightarrow> (Inr local, w1)
           | (_, w1) \<Rightarrow> (Inl ErrTransport, kl_Stop L w1)))"

definition openConnection ::
  "'w connlib \<Rightarrow> 'w kube_host \<Rightarrow> Config \<Rightarrow> Lease \<Rightarrow> 'w \<Rightarrow> (conn_err + kubernetesConnection) \<times> 'w" where
  "openConnection L host config lease w =
     (case kh_GetSecret host (le_Namespace lease) (''vc-'' @ le_Name lease) w of
        (Inl _, w1) \<Rightarrow> (Inl ErrCredential, w1)
      | (Inr secret, w1) \<Rightarrow>
          (case bootstrapConfig L (mapGet secret ''config'') (le_Name lease @ ''.'' @ le_Namespace lease) of
             Inl _ \<Rightarrow> (Inl ErrCredential, w1)
           | Inr bootstrap \<Rightarrow>
               (case kh_GetService host (le_Namespace lease) (le_Name lease) w1 of
                  (Inl _, w2) \<Rightarrow> (Inl ErrTransport, w2)
                | (Inr service, w2) \<Rightarrow>
                    if mapGet (sv_Selector service) ''app'' \<noteq> ''vcluster'' \<or> mapGet (sv_Selector service) ''release'' \<noteq> le_Name lease
                    then (Inl ErrTransport, w2)
                    else (case kh_ListPods host (le_Namespace lease) (sv_Selector service) w2 of
                       (Inl _, w3) \<Rightarrow> (Inl ErrTransport, w3)
                     | (Inr pods, w3) \<Rightarrow>
                         (case controlPlaneTarget lease service pods of
                            Inl e \<Rightarrow> (Inl e, w3)
                          | Inr (pod, port) \<Rightarrow>
                              (case openTunnel L config lease pod port w3 of
                                 (Inl e, w4) \<Rightarrow> (Inl e, w4)
                               | (Inr local, w4) \<Rightarrow>
                                   (Inr \<lparr>kn_config = bootstrap\<lparr>cf_Host := ''https://127.0.0.1:'' @ nat_digits local\<rparr>,
                                         kn_cancelled = False\<rparr>, w4)))))))"

definition Open :: "'w connlib \<Rightarrow> 'w KubernetesBackend \<Rightarrow> Lease \<Rightarrow> 'w \<Rightarrow> (conn_err + kubernetesConnection) \<times> 'w" where
  "Open L b lease w =
     (case Check L b w of
        (Inl _, w1) \<Rightarrow> (Inl ErrDenied, w1)
      | (Inr current, w1) \<Rightarrow>
          (case (kb_Host b, kb_Config b) of
             (Some host, Some config) \<Rightarrow>
               if current \<noteq> lease then (Inl ErrDenied, w1) else openConnection L host config lease w1
           | _ \<Rightarrow> (Inl ErrDenied, w1)))"

section \<open>Issuing and closing\<close>

text \<open>The kubeconfig built from scratch for the sink.\<close>

definition agentConfig :: "Config \<Rightarrow> string \<Rightarrow> Kubeconfig" where
  "agentConfig config token = NewConfig
     \<lparr>kc_CurrentContext := ''oubliette'',
      kc_Clusters := [''oubliette'' \<mapsto> zeroCluster\<lparr>ku_Server := cf_Host config, ku_TLSServerName := cf_ServerName config,
         ku_CertificateAuthorityData := cf_CAData config\<rparr>],
      kc_AuthInfos := [''agent'' \<mapsto> zeroAuthInfo\<lparr>ai_Token := token\<rparr>],
      kc_Contexts := [''oubliette'' \<mapsto> \<lparr>cx_Cluster = ''oubliette'', cx_AuthInfo = ''agent'', cx_Namespace = ''default''\<rparr>]\<rparr>"

text \<open>The configuration kept for the next rotation.\<close>

definition rotated :: "Config \<Rightarrow> string \<Rightarrow> Config" where
  "rotated config token = zeroConfig\<lparr>cf_Host := cf_Host config, cf_Timeout := 10 * Second, cf_BearerToken := token,
     cf_CAData := cf_CAData config, cf_ServerName := cf_ServerName config\<rparr>"

definition Connection_Issue ::
  "'w connlib \<Rightarrow> kubernetesConnection \<Rightarrow> 'w \<Rightarrow> (conn_err + Credential) \<times> kubernetesConnection \<times> 'w" where
  "Connection_Issue L c w =
     (if \<not> kl_NewForConfig L (kn_config c) then (Inl ErrCredential, c, w)
      else (case kl_CreateToken L (kn_config c) HandoffNamespace HandoffServiceAccount 600 w of
        (Inl _, w1) \<Rightarrow> (Inl ErrCredential, c, w1)
      | (Inr request, w1) \<Rightarrow>
          if tq_Token request = '''' then (Inl ErrCredential, c, w1)
          else let c' = c\<lparr>kn_config := rotated (kn_config c) (tq_Token request)\<rparr> in
          (case kl_Write L (agentConfig (kn_config c') (tq_Token request)) of
             None \<Rightarrow> (Inl ErrCredential, c', w1)
           | Some data \<Rightarrow> (Inr \<lparr>cr_Kubeconfig = data, cr_ExpiresAt = tq_ExpirationTimestamp request\<rparr>, c', w1))))"

definition Connection_Close :: "'w connlib \<Rightarrow> kubernetesConnection \<Rightarrow> 'w \<Rightarrow> kubernetesConnection \<times> 'w" where
  "Connection_Close L c w = (c\<lparr>kn_cancelled := True\<rparr>, if kn_cancelled c then w else kl_Stop L w)"

text \<open>The backend as the session sees it. The state is the world and the connection that is open, if any.\<close>

definition kubernetesBackend :: "'w connlib \<Rightarrow> 'w KubernetesBackend \<Rightarrow> ('w \<times> kubernetesConnection option) Backend" where
  "kubernetesBackend L b =
     \<lparr>bk_Check = (\<lambda>(w, c). case Check L b w of (x, w') \<Rightarrow> (x, (w', c))),
      bk_Open = (\<lambda>lease (w, c). case Open L b lease w of
        (Inl e, w') \<Rightarrow> (Inl e, (w', c))
      | (Inr conn, w') \<Rightarrow>
          (Inr \<lparr>cn_Issue = (\<lambda>(w, c). case c of
                   None \<Rightarrow> (Inl ErrCredential, (w, c))
                 | Some k \<Rightarrow> (case Connection_Issue L k w of (x, k', w') \<Rightarrow> (x, (w', Some k')))),
                cn_Close = (\<lambda>(w, c). case c of
                   None \<Rightarrow> (w, c)
                 | Some k \<Rightarrow> (case Connection_Close L k w of (k', w') \<Rightarrow> (w', Some k')))\<rparr>, (w', Some conn)))\<rparr>"

section \<open>Lifecycle calls\<close>

datatype lifecycle_err = LifecycleDenied | LifecycleUnsupported | LifecycleRejected

text \<open>Decoding with \<open>DisallowUnknownFields\<close>: a member that no field takes is an error.\<close>

definition setCreateField :: "string \<times> json \<Rightarrow> CreateInput \<Rightarrow> CreateInput option" where
  "setCreateField m q = (let k = fst m; v = snd m in
     if field_is ''name'' k then map_option (\<lambda>x. q\<lparr>ci_Name := x\<rparr>) (set_string v (ci_Name q))
     else if field_is ''tier'' k then map_option (\<lambda>x. q\<lparr>ci_Tier := x\<rparr>) (set_string v (ci_Tier q))
     else if field_is ''ttlSeconds'' k then map_option (\<lambda>x. q\<lparr>ci_TTLSeconds := x\<rparr>) (set_int64 v (ci_TTLSeconds q))
     else None)"

definition setNameField :: "string \<times> json \<Rightarrow> string \<Rightarrow> string option" where
  "setNameField m name = (if field_is ''name'' (fst m) then set_string (snd m) name else None)"

definition setRenewField :: "string \<times> json \<Rightarrow> RenewInput \<Rightarrow> RenewInput option" where
  "setRenewField m q = (let k = fst m; v = snd m in
     if field_is ''name'' k then map_option (\<lambda>x. q\<lparr>ri_Name := x\<rparr>) (set_string v (ri_Name q))
     else if field_is ''ttlSeconds'' k then map_option (\<lambda>x. q\<lparr>ri_TTLSeconds := x\<rparr>) (set_int64 v (ri_TTLSeconds q))
     else None)"

definition setListField :: "string \<times> json \<Rightarrow> unit \<Rightarrow> unit option" where
  "setListField m q = None"

definition decodeLifecycle :: "(string \<times> json \<Rightarrow> 'a \<Rightarrow> 'a option) \<Rightarrow> 'a \<Rightarrow> string \<Rightarrow> 'a option" where
  "decodeLifecycle set1 zero data =
     (if length data > 65536 \<or> length (TrimSpace data) = 0 \<or> TrimSpace data ! 0 \<noteq> CHR ''{'' then None
      else (case unmarshal data of
        Some (JObj ms) \<Rightarrow> setMembers set1 ms zero
      | Some JNull \<Rightarrow> Some zero
      | _ \<Rightarrow> None))"

definition conditionJson :: "ConditionView \<Rightarrow> json" where
  "conditionJson c = JObj [(''type'', JStr (cv_Type c)), (''status'', JStr (cv_Status c)), (''reason'', JStr (cv_Reason c)),
     (''message'', JStr (cv_Message c)), (''lastTransitionTime'', JStr (cv_LastTransitionTime c))]"

definition omitEmpty :: "string \<Rightarrow> string \<Rightarrow> (string \<times> json) list" where
  "omitEmpty k v = (if v = '''' then [] else [(k, JStr v)])"

definition viewJson :: "View \<Rightarrow> json" where
  "viewJson v = JObj ([(''name'', JStr (v_Name v)), (''tier'', JStr (v_Tier v)), (''expiresAt'', JStr (v_ExpiresAt v)),
     (''phase'', JStr (v_Phase v))] @ omitEmpty ''virtualEndpointId'' (v_VirtualEndpointID v) @
     omitEmpty ''metricsEndpointId'' (v_MetricsEndpointID v) @ [(''metricsReady'', JBool (v_MetricsReady v))] @
     (if v_Conditions v = [] then [] else [(''conditions'', JArr (map conditionJson (v_Conditions v)))]))"

definition listJson :: "View list \<Rightarrow> json" where
  "listJson vs = JObj [(''items'', JArr (map viewJson vs))]"

definition deleteJson :: "DeleteOutput \<Rightarrow> json" where
  "deleteJson r = JObj [(''name'', JStr (do_Name r)), (''status'', JStr (do_Status r))]"

text \<open>The end of every branch: a rejected input or a failed operation becomes one error, a result its JSON.\<close>

definition runTool :: "('a \<Rightarrow> json) \<Rightarrow> 'i option \<Rightarrow> ('i \<Rightarrow> 'w \<Rightarrow> (svc_err + 'a) \<times> 'w) \<Rightarrow> 'w \<Rightarrow> (lifecycle_err + string) \<times> 'w" where
  "runTool json inp operation w =
     (case inp of
        None \<Rightarrow> (Inl LifecycleRejected, w)
      | Some i \<Rightarrow> (case operation i w of
          (Inl _, w1) \<Rightarrow> (Inl LifecycleRejected, w1)
        | (Inr r, w1) \<Rightarrow> (Inr (encode (json r)), w1)))"

definition dispatch :: "'w connlib \<Rightarrow> 'w oub_client \<Rightarrow> ctx_t \<Rightarrow> string \<Rightarrow> string \<Rightarrow> 'w \<Rightarrow> (lifecycle_err + string) \<times> 'w" where
  "dispatch L C ctx tool arguments w =
     (if tool = ''oubliette_create'' then
        runTool viewJson (decodeLifecycle setCreateField \<lparr>ci_Name = '''', ci_Tier = '''', ci_TTLSeconds = 0\<rparr> arguments)
          (\<lambda>i w. Create (kl_Meta L) C (kl_Now L w) ctx i w) w
      else if tool = ''oubliette_get'' then
        runTool viewJson (decodeLifecycle setNameField '''' arguments) (\<lambda>i w. Get (kl_Meta L) C ctx i w) w
      else if tool = ''oubliette_list'' then
        runTool listJson (decodeLifecycle setListField () arguments) (\<lambda>i w. Service_List (kl_Meta L) C ctx w) w
      else if tool = ''oubliette_renew'' then
        runTool viewJson (decodeLifecycle setRenewField \<lparr>ri_Name = '''', ri_TTLSeconds = 0\<rparr> arguments)
          (\<lambda>i w. Renew (kl_Meta L) C (kl_Now L w) ctx i w) w
      else if tool = ''oubliette_delete'' then
        runTool deleteJson (decodeLifecycle setNameField '''' arguments) (\<lambda>i w. Delete C ctx i w) w
      else (Inl LifecycleUnsupported, w))"

definition KubernetesBackend_Lifecycle ::
  "'w connlib \<Rightarrow> 'w KubernetesBackend \<Rightarrow> string \<Rightarrow> string \<Rightarrow> 'w \<Rightarrow> (lifecycle_err + string) \<times> 'w" where
  "KubernetesBackend_Lifecycle L b tool arguments w =
     (case (kb_Host b, kb_Resolver b, kb_Token b) of
        (Some host, Some resolve, Some readToken) \<Rightarrow>
          (case tokenCaller readToken resolve w of
             (None, w1) \<Rightarrow> (Inl LifecycleDenied, w1)
           | (Some caller, w1) \<Rightarrow> dispatch L (kh_Objects host) (WithCaller None caller) tool arguments w1)
      | _ \<Rightarrow> (Inl LifecycleDenied, w))"

section \<open>The lease belongs to the caller\<close>

text \<open>The connector grants exactly what the lifecycle service shows as \<open>Ready\<close> to the owner.\<close>

lemma authorize_iff:
  "authorize am obj caller now = Inr lease \<longleftrightarrow>
     caller \<noteq> '''' \<and> o_UID obj \<noteq> '''' \<and> ownedBy obj (digestOf caller) \<and> phase am obj = ''Ready'' \<and>
     now < spec_ExpiresAt (o_Spec obj) \<and> st_HostNamespace (o_Status obj) = ''oub-'' @ o_Name obj \<and>
     lease = \<lparr>le_Name = o_Name obj, le_Namespace = ''oub-'' @ o_Name obj, le_Caller = caller, le_UID = o_UID obj,
              le_ExpiresAt = spec_ExpiresAt (o_Spec obj)\<rparr>"
proof -
  have own: "ownedBy obj (digestOf caller) \<longleftrightarrow> annotation obj CallerDigestAnnotation = digestOf caller" if "caller \<noteq> ''''"
    using ownedBy_digest[OF callerDigest_Some[OF that]] .
  have ready: "phase am obj = ''Ready'' \<longleftrightarrow> v_Phase (project am obj) = ''Ready''" by (simp add: project_def)
  show ?thesis unfolding ready phase_ready_iff
    by (cases "FindStatusCondition am (st_Conditions (o_Status obj)) ConditionReady"; cases "caller = ''''")
      (auto simp: authorize_def Let_def own)
qed

text \<open>
  What stands behind a lease, with \<open>vouched\<close> what the resolver vouches for: the host-held token names the caller, and the object
  of the backend's name is the caller's, ready and not expired.
\<close>

definition entitled ::
  "('w \<Rightarrow> string \<Rightarrow> string \<Rightarrow> bool) \<Rightarrow> 'w connlib \<Rightarrow> 'w KubernetesBackend \<Rightarrow> Lease \<Rightarrow> 'w \<Rightarrow> 'w \<Rightarrow> bool" where
  "entitled vouched L b lease w w' \<longleftrightarrow>
     (\<exists>host readToken token w1 w2 obj. kb_Host b = Some host \<and> kb_Token b = Some readToken \<and> readToken w = (Some token, w1) \<and>
        vouched w1 (TrimSpace token) (le_Caller lease) \<and> cl_Get (kh_Objects host) (kb_Name b) w2 = (Inr obj, w') \<and>
        o_Name obj = le_Name lease \<and> o_UID obj = le_UID lease \<and> ownedBy obj (digestOf (le_Caller lease)) \<and>
        phase (kl_Meta L) obj = ''Ready'' \<and> kl_Now L w' < spec_ExpiresAt (o_Spec obj) \<and>
        spec_ExpiresAt (o_Spec obj) = le_ExpiresAt lease)"

context caller_resolver
begin

lemma tokenCaller_vouched:
  assumes "tokenCaller readToken resolve w = (Some caller, w2)"
  shows "\<exists>token w1. readToken w = (Some token, w1) \<and> vouched w1 (TrimSpace token) caller"
  using assms by (auto simp: tokenCaller_def split: prod.splits option.splits sum.splits if_splits dest: resolve_vouched)

lemma Check_entitled:
  assumes r: "kb_Resolver b = Some resolve" and call: "Check L b w = (Inr lease, w')"
  shows "entitled vouched L b lease w w'"
proof -
  from call r obtain host readToken caller w1 obj where h: "kb_Host b = Some host" "kb_Token b = Some readToken"
    "tokenCaller readToken resolve w = (Some caller, w1)" "cl_Get (kh_Objects host) (kb_Name b) w1 = (Inr obj, w')"
    "authorize (kl_Meta L) obj caller (kl_Now L w') = Inr lease"
    by (auto simp: Check_def split: option.splits prod.splits sum.splits if_splits)
  with tokenCaller_vouched[OF h(3)] show ?thesis
    unfolding entitled_def authorize_iff by fastforce
qed

end

text \<open>A confirmation of the pinned lease by the Kubernetes backend finds the caller entitled to it, or to a later expiry of the same object.\<close>

lemma kubernetesBackend_Check: "bk_Check (kubernetesBackend L b) (w, c) = (x, (w', c')) \<longleftrightarrow> Check L b w = (x, w') \<and> c' = c"
  by (auto simp: kubernetesBackend_def split: prod.splits)

lemma confirmed_entitled:
  assumes r: "kb_Resolver b = Some (Resolve (Some create) audience)"
    and "confirmed rt (kubernetesBackend L b) lease (w, c) (w', c')"
  shows "\<exists>t \<ge> le_ExpiresAt lease. entitled (reviewed create audience) L b (lease\<lparr>le_ExpiresAt := t\<rparr>) w w'"
proof -
  from assms(2) obtain current where cur: "Check L b w = (Inr current, w')"
    "le_UID current = le_UID lease" "le_Caller current = le_Caller lease" "le_Name current = le_Name lease"
    "le_Namespace current = le_Namespace lease" "le_ExpiresAt lease \<le> le_ExpiresAt current"
    by (auto simp: confirmed_def kubernetesBackend_Check)
  then have "current = lease\<lparr>le_ExpiresAt := le_ExpiresAt current\<rparr>" by (simp add: Lease.equality)
  with kube.Check_entitled[OF r cur(1)] cur(6) show ?thesis by metis
qed

text \<open>C25: a session on the Kubernetes backend writes a credential to its sink only when, both before it was issued and again just before it is
  written, a TokenReview of the host-held token for the audience named the lease's caller and the Oubliette of the lease was
  read and found to be that caller's, the same object, \<open>Ready\<close>, and not expired; the credential is then valid for one to
  eleven minutes. Every other round leaves the sink alone and ends the session.\<close>

theorem session_serves_owner:
  assumes r: "kb_Resolver b = Some (Resolve (Some create) audience)"
    and call: "issue rt (kubernetesBackend L b) k conn lease (w, c) = (res, s')"
  shows "(\<exists>cred w1 c1 w2 c2 w3 t t'. le_ExpiresAt lease \<le> t \<and> le_ExpiresAt lease \<le> t' \<and>
       entitled (reviewed create audience) L b (lease\<lparr>le_ExpiresAt := t\<rparr>) w w1 \<and> cn_Issue conn (w1, c1) = (Inr cred, (w2, c2)) \<and>
       entitled (reviewed create audience) L b (lease\<lparr>le_ExpiresAt := t'\<rparr>) w2 w3 \<and>
       60000000000 \<le> sint (Time_Sub (cr_ExpiresAt cred) (rt_now rt (w2, c2))) \<and>
       sint (Time_Sub (cr_ExpiresAt cred) (rt_now rt (w2, c2))) \<le> 660000000000 \<and>
       s' = snd (sk_Write k (cr_Kubeconfig cred) (w3, c2))) \<or>
    res \<in> {Inl ErrDenied, Inl ErrCredential} \<and> (\<forall>k'. issue rt (kubernetesBackend L b) k' conn lease (w, c) = (res, s'))"
  using delivery_vetted[OF call]
proof (elim disjE exE conjE)
  fix cred s1 s2 s3
  assume d: "confirmed rt (kubernetesBackend L b) lease (w, c) s1" "cn_Issue conn s1 = (Inr cred, s2)"
    "confirmed rt (kubernetesBackend L b) lease s2 s3" "60000000000 \<le> sint (Time_Sub (cr_ExpiresAt cred) (rt_now rt s2))"
    "sint (Time_Sub (cr_ExpiresAt cred) (rt_now rt s2)) \<le> 660000000000" "s' = snd (sk_Write k (cr_Kubeconfig cred) s3)"
  obtain w1 c1 w2 c2 w3 c3 where st: "s1 = (w1, c1)" "s2 = (w2, c2)" "s3 = (w3, c3)" by (metis surj_pair)
  have "c3 = c2" using d(3) by (auto simp: confirmed_def st kubernetesBackend_Check)
  with d confirmed_entitled[OF r d(1)[unfolded st]] confirmed_entitled[OF r d(3)[unfolded st]] show ?thesis
    unfolding st by blast
qed blast

section \<open>The connection reaches the lease's control plane\<close>

lemma servicePort_Some:
  "servicePort pod ps = Some port \<Longrightarrow>
     \<exists>p \<in> set ps. sp_Port p = 443 \<and> sp_Protocol p \<in> {'''', ''TCP''} \<and> targetPort pod p = port \<and> 1 \<le> port \<and> port \<le> 65535"
  by (induction ps) (auto split: if_splits)

lemma servicePort_None:
  "servicePort pod ps = None \<longleftrightarrow>
     (\<forall>p \<in> set ps. sp_Port p = 443 \<longrightarrow> sp_Protocol p \<in> {'''', ''TCP''} \<longrightarrow> \<not> (1 \<le> targetPort pod p \<and> targetPort pod p \<le> 65535))"
  by (induction ps) auto

lemma controlPlaneTarget_Inr:
  "controlPlaneTarget lease service pods = Inr (name, port) \<Longrightarrow>
     \<exists>pod \<in> set pods. pd_Name pod = name \<and> controlPlanePod lease pod \<and> servicePort pod (sv_Ports service) = Some port"
  by (induction lease service pods rule: controlPlaneTarget.induct) (auto split: if_splits option.splits)

lemma controlPlaneTarget_Inl:
  "controlPlaneTarget lease service pods = Inl e \<longleftrightarrow>
     e = ErrTransport \<and> (\<forall>pod \<in> set pods. controlPlanePod lease pod \<longrightarrow> servicePort pod (sv_Ports service) = None)"
  by (induction lease service pods rule: controlPlaneTarget.induct) (auto split: option.splits)

lemma bootstrapConfig_Inr:
  "bootstrapConfig L data tlsName = Inr cfg \<Longrightarrow>
     cf_ServerName cfg = tlsName \<and> cf_CAData cfg \<noteq> '''' \<and> \<not> cf_Insecure cfg \<and> \<not> cf_Proxy cfg \<and>
     (cf_BearerToken cfg \<noteq> '''' \<or> cf_CertData cfg \<noteq> '''' \<and> cf_KeyData cfg \<noteq> '''')"
  by (auto simp: bootstrapConfig_def zeroConfig_def split: option.splits if_splits)

lemma openTunnel_Inr:
  assumes "openTunnel L config lease pod port w = (Inr local, w')"
  shows "kl_Forward L (kl_PodURL L config (le_Namespace lease) pod) [loopback] [''0:'' @ int_digits port] w = (Forwarding (Some [local]), w') \<and>
    \<not> cf_Proxy config \<and> \<not> cf_Insecure config \<and> HasPrefix (cf_Host config) ''https://''"
  using assms
  by (auto simp: openTunnel_def portForwardURL_def forwardTransport_def Let_def split: option.splits if_splits prod.splits forwarding.splits list.splits)

lemma openConnection_Inr:
  assumes "openConnection L host config lease w = (Inr conn, w')"
  obtains w1 w2 w3 secret bootstrap service pods pod port local where
    "kh_GetSecret host (le_Namespace lease) (''vc-'' @ le_Name lease) w = (Inr secret, w1)"
    "bootstrapConfig L (mapGet secret ''config'') (le_Name lease @ ''.'' @ le_Namespace lease) = Inr bootstrap"
    "kh_GetService host (le_Namespace lease) (le_Name lease) w1 = (Inr service, w2)"
    "mapGet (sv_Selector service) ''app'' = ''vcluster''" "mapGet (sv_Selector service) ''release'' = le_Name lease"
    "kh_ListPods host (le_Namespace lease) (sv_Selector service) w2 = (Inr pods, w3)"
    "controlPlaneTarget lease service pods = Inr (pod, port)" "openTunnel L config lease pod port w3 = (Inr local, w')"
    "conn = \<lparr>kn_config = bootstrap\<lparr>cf_Host := ''https://127.0.0.1:'' @ nat_digits local\<rparr>, kn_cancelled = False\<rparr>"
  using assms by (auto simp: openConnection_def split: prod.splits sum.splits if_splits)

text \<open>A running, ready control-plane pod of the lease that is not being deleted (never a synced workload), and the port behind the service's TCP port 443: the number the
  service gives (443 itself when it gives none), or the container port of the name it gives.\<close>

definition endpoint :: "Lease \<Rightarrow> Service \<Rightarrow> Pod \<Rightarrow> int \<Rightarrow> bool" where
  "endpoint lease service pod port \<longleftrightarrow>
     mapGet (pd_Labels pod) ''app'' = ''vcluster'' \<and> mapGet (pd_Labels pod) ''release'' = le_Name lease \<and>
     mapGet (pd_Labels pod) ''vcluster.loft.sh/managed-by'' = '''' \<and> pd_Namespace pod = le_Namespace lease \<and>
     optIsZero (pd_DeletionTimestamp pod) \<and> pd_Phase pod = ''Running'' \<and> (''Ready'', ''True'') \<in> set (pd_Conditions pod) \<and> 1 \<le> port \<and> port \<le> 65535 \<and>
     (\<exists>p \<in> set (sv_Ports service). sp_Port p = 443 \<and> sp_Protocol p \<in> {'''', ''TCP''} \<and>
        (case sp_TargetPort p of IntVal n \<Rightarrow> port = (if n = 0 then 443 else n) | StrVal name \<Rightarrow> \<exists>ports \<in> set (pd_Containers pod). (name, port) \<in> set ports))"

lemma namedPort_member: "namedPort name pod = port \<Longrightarrow> 1 \<le> port \<Longrightarrow> \<exists>ports \<in> set (pd_Containers pod). (name, port) \<in> set ports"
proof -
  have "fold (\<lambda>cp port. if fst cp = name then snd cp else port) cs d = port \<Longrightarrow> port = d \<or> (name, port) \<in> set cs" for cs d port
    by (induction cs arbitrary: d) (auto split: if_splits)
  from this[of "concat (pd_Containers pod)" 0 port] show "namedPort name pod = port \<Longrightarrow> 1 \<le> port \<Longrightarrow> \<exists>ports \<in> set (pd_Containers pod). (name, port) \<in> set ports"
    by (auto simp: namedPort_def)
qed

lemma servicePort_behind:
  "servicePort pod ps = Some port \<Longrightarrow> 1 \<le> port \<and> port \<le> 65535 \<and> (\<exists>p \<in> set ps. sp_Port p = 443 \<and> sp_Protocol p \<in> {'''', ''TCP''} \<and>
     (case sp_TargetPort p of IntVal n \<Rightarrow> port = (if n = 0 then 443 else n) | StrVal name \<Rightarrow> \<exists>ports \<in> set (pd_Containers pod). (name, port) \<in> set ports))"
proof -
  assume "servicePort pod ps = Some port"
  from servicePort_Some[OF this] obtain p where "p \<in> set ps" "sp_Port p = 443" "sp_Protocol p \<in> {'''', ''TCP''}" "targetPort pod p = port"
    "1 \<le> port" "port \<le> 65535" by blast
  with namedPort_member[of _ pod port] show ?thesis by (cases "sp_TargetPort p") (force simp: targetPort_def split: if_splits)+
qed

lemma controlPlaneTarget_endpoint:
  assumes "controlPlaneTarget lease service pods = Inr (name, port)"
  shows "\<exists>pod \<in> set pods. pd_Name pod = name \<and> endpoint lease service pod port"
proof -
  from controlPlaneTarget_Inr[OF assms] obtain pod where pod: "pod \<in> set pods" "pd_Name pod = name" "controlPlanePod lease pod"
    "servicePort pod (sv_Ports service) = Some port" by blast
  from pod(3) servicePort_behind[OF pod(4)] have "endpoint lease service pod port"
    by (auto simp: endpoint_def controlPlanePod_def podReady_def list_ex_iff)
  with pod show ?thesis by blast
qed

text \<open>C26: a connection that opens was checked again for the pinned lease just before, and reaches its control plane. The host API then answered for the
  bootstrap secret, for the service of the lease's name in its namespace, which selects the lease's own release, and for the pods it selects; the port forward goes over a
  direct, verified route to the host to one of these pods that is a running, ready control-plane pod of the lease's own release and namespace (never a synced workload), at
  the port, between 1 and 65535, that this service has behind its TCP port 443. The virtual API is spoken to on the loopback end, with an embedded CA and the
  server name of the lease.\<close>

theorem open_reaches_control_plane:
  assumes r: "kb_Resolver b = Some (Resolve (Some create) audience)" and call: "Open L b lease w = (Inr conn, w')"
  shows "\<exists>w0 w1 w2 w3 host config secret service pods pod port local. entitled (reviewed create audience) L b lease w w0 \<and>
    kb_Host b = Some host \<and> kb_Config b = Some config \<and> \<not> cf_Insecure config \<and> \<not> cf_Proxy config \<and> HasPrefix (cf_Host config) ''https://'' \<and>
    kh_GetSecret host (le_Namespace lease) (''vc-'' @ le_Name lease) w0 = (Inr secret, w1) \<and>
    kh_GetService host (le_Namespace lease) (le_Name lease) w1 = (Inr service, w2) \<and>
    mapGet (sv_Selector service) ''app'' = ''vcluster'' \<and> mapGet (sv_Selector service) ''release'' = le_Name lease \<and>
    kh_ListPods host (le_Namespace lease) (sv_Selector service) w2 = (Inr pods, w3) \<and> pod \<in> set pods \<and> endpoint lease service pod port \<and>
    kl_Forward L (kl_PodURL L config (le_Namespace lease) (pd_Name pod)) [''127.0.0.1''] [''0:'' @ int_digits port] w3 = (Forwarding (Some [local]), w') \<and>
    cf_Host (kn_config conn) = ''https://127.0.0.1:'' @ nat_digits local \<and> \<not> cf_Insecure (kn_config conn) \<and>
    cf_CAData (kn_config conn) \<noteq> '''' \<and> cf_ServerName (kn_config conn) = le_Name lease @ ''.'' @ le_Namespace lease"
proof -
  from call obtain w0 host config where opened: "Check L b w = (Inr lease, w0)" "kb_Host b = Some host" "kb_Config b = Some config"
    "openConnection L host config lease w0 = (Inr conn, w')"
    by (auto simp: Open_def split: prod.splits sum.splits option.splits if_splits)
  from opened(4) obtain w1 w2 w3 secret bootstrap service pods pn port local where c:
    "kh_GetSecret host (le_Namespace lease) (''vc-'' @ le_Name lease) w0 = (Inr secret, w1)"
    "bootstrapConfig L (mapGet secret ''config'') (le_Name lease @ ''.'' @ le_Namespace lease) = Inr bootstrap"
    "kh_GetService host (le_Namespace lease) (le_Name lease) w1 = (Inr service, w2)"
    "mapGet (sv_Selector service) ''app'' = ''vcluster''" "mapGet (sv_Selector service) ''release'' = le_Name lease"
    "kh_ListPods host (le_Namespace lease) (sv_Selector service) w2 = (Inr pods, w3)"
    "controlPlaneTarget lease service pods = Inr (pn, port)" "openTunnel L config lease pn port w3 = (Inr local, w')"
    "conn = \<lparr>kn_config = bootstrap\<lparr>cf_Host := ''https://127.0.0.1:'' @ nat_digits local\<rparr>, kn_cancelled = False\<rparr>"
    by (rule openConnection_Inr)
  from controlPlaneTarget_endpoint[OF c(7)] obtain pod where pod: "pod \<in> set pods" "pd_Name pod = pn" "endpoint lease service pod port" by blast
  have cfg: "cf_Host (kn_config conn) = ''https://127.0.0.1:'' @ nat_digits local \<and> \<not> cf_Insecure (kn_config conn) \<and>
    cf_CAData (kn_config conn) \<noteq> '''' \<and> cf_ServerName (kn_config conn) = le_Name lease @ ''.'' @ le_Namespace lease"
    using bootstrapConfig_Inr[OF c(2)] c(9) by simp
  show ?thesis
    by (rule exI[of _ w0], rule exI[of _ w1], rule exI[of _ w2], rule exI[of _ w3], rule exI[of _ host], rule exI[of _ config], rule exI[of _ secret],
        rule exI[of _ service], rule exI[of _ pods], rule exI[of _ pod], rule exI[of _ port], rule exI[of _ local])
      (use kube.Check_entitled[OF r opened(1)] opened(2,3) openTunnel_Inr[OF c(8), unfolded loopback_def] pod c(1,3-6) cfg in simp)
qed

text \<open>C27: the bootstrap credentials never reach the sink and are dropped after the first handoff: with any other bootstrap token, certificate and key
  that the virtual API accepts alike, issuing yields the same kubeconfig and keeps the same configuration, which
  holds only the service account's token.\<close>

theorem bootstrap_stays_private:
  assumes "kn_config k' = (kn_config k)\<lparr>cf_BearerToken := bt, cf_CertData := cd, cf_KeyData := kd\<rparr>" and "kn_cancelled k' = kn_cancelled k"
    and "kl_NewForConfig L (kn_config k)" and "kl_NewForConfig L (kn_config k')"
    and "kl_CreateToken L (kn_config k) HandoffNamespace HandoffServiceAccount 600 w = (Inr rq, w')"
    and "kl_CreateToken L (kn_config k') HandoffNamespace HandoffServiceAccount 600 w = (Inr rq, w')" and "tq_Token rq \<noteq> ''''"
    and "Connection_Issue L k w = (res, k1, w1)"
  shows "Connection_Issue L k' w = (res, k1, w1) \<and> cf_BearerToken (kn_config k1) = tq_Token rq \<and> cf_CertData (kn_config k1) = '''' \<and>
    cf_KeyData (kn_config k1) = '''' \<and> cf_Host (kn_config k1) = cf_Host (kn_config k) \<and> cf_CAData (kn_config k1) = cf_CAData (kn_config k)"
proof -
  have "rotated (kn_config k') t = rotated (kn_config k) t" for t using assms(1) by (simp add: rotated_def)
  with assms show ?thesis
    by (auto simp: Connection_Issue_def Let_def rotated_def zeroConfig_def split: option.splits)
qed

section \<open>Lifecycle calls stay with the caller's own Oubliettes\<close>

text \<open>Every object that the digest does not own is still there, unchanged.\<close>

definition keeps_foreign :: "('w \<Rightarrow> string \<Rightarrow> Oubliette option) \<Rightarrow> string \<Rightarrow> 'w \<Rightarrow> 'w \<Rightarrow> bool" where
  "keeps_foreign objs owner w w' \<longleftrightarrow> (\<forall>n obj. objs w n = Some obj \<longrightarrow> \<not> ownedBy obj owner \<longrightarrow> objs w' n = Some obj)"

text \<open>Deleting an object leaves the objects of other names alone.\<close>

definition delete_laws :: "'w oub_client \<Rightarrow> ('w \<Rightarrow> string \<Rightarrow> Oubliette option) \<Rightarrow> bool" where
  "delete_laws C objs \<longleftrightarrow> (\<forall>x n w. n \<noteq> o_Name x \<longrightarrow> objs (snd (cl_Delete C x w)) n = objs w n)"

lemma keeps_foreign_refl: "keeps_foreign objs owner w w"
  by (simp add: keeps_foreign_def)

lemma get_stored:
  assumes "object_laws C objs" and "cl_Get C n w = (x, w')"
  shows "w' = w" and "x = Inr obj \<Longrightarrow> objs w n = Some obj \<and> o_Name obj = n"
  using assms(2) by (auto simp: object_laws_Get[OF assms(1)] split: option.splits dest: object_laws_name[OF assms(1)])

text \<open>A write under a name whose stored object the digest owns, or that is free, keeps the foreign objects.\<close>

lemma keeps_foreign_at:
  assumes "\<And>n. n \<noteq> m \<Longrightarrow> objs w' n = objs w n" and "\<And>obj. objs w m = Some obj \<Longrightarrow> ownedBy obj owner"
  shows "keeps_foreign objs owner w w'"
  using assms unfolding keeps_foreign_def by metis

lemma Create_keeps_foreign:
  assumes laws: "object_laws C objs" and owner: "callerDigest ctx = Inr owner" and call: "Create am C now ctx inp w = (r, w')"
  shows "keeps_foreign objs owner w w'"
proof -
  define obj where "obj = newOubliette (ci_Name inp) owner TierStub (Time_Add now (ci_TTLSeconds inp * Second))"
  have name: "o_Name obj = ci_Name inp" by (simp add: obj_def newOubliette_def)
  have get: "cl_Get C (ci_Name inp) w = (x, w1) \<Longrightarrow> w1 = w" for x w1 using get_stored(1)[OF laws] .
  show ?thesis
  proof (cases "objs w (ci_Name inp)")
    case None
    from object_laws_Create_fresh[OF laws, of w obj] None name obtain x' w1 where
      c: "cl_Create C obj w = (Inr x', w1)" "objs w1 = (objs w)(ci_Name inp \<mapsto> x')" by auto
    with call owner have "w' = w \<or> w' = w1"
      by (auto simp: Create_def obj_def Let_def split: option.splits if_splits)
    with c None show ?thesis by (auto intro: keeps_foreign_refl keeps_foreign_at[of "ci_Name inp"])
  next
    case (Some y)
    with object_laws_Create_taken[OF laws, of w obj] name have "cl_Create C obj w = (Inl (AlreadyExists (ci_Name inp)), w)" by simp
    with call owner have "w' = w"
      by (auto simp: Create_def obj_def Let_def split: option.splits if_splits prod.splits sum.splits dest!: get)
    then show ?thesis by (simp add: keeps_foreign_refl)
  qed
qed

lemma Renew_keeps_foreign:
  assumes laws: "object_laws C objs" and owner: "callerDigest ctx = Inr owner" and call: "Renew am C now ctx inp w = (r, w')"
  shows "keeps_foreign objs owner w w'"
proof -
  obtain x w1 where g: "cl_Get C (ri_Name inp) w = (x, w1)" by (metis surj_pair)
  have w1: "w1 = w" using get_stored(1)[OF laws g] .
  show ?thesis
  proof (cases "\<exists>obj. x = Inr obj \<and> ownedBy obj owner")
    case False
    with call g owner w1 have "w' = w"
      by (auto simp: Renew_def split: option.splits sum.splits if_splits)
    then show ?thesis by (simp add: keeps_foreign_refl)
  next
    case True
    then obtain obj where x: "x = Inr obj" and own: "ownedBy obj owner" by blast
    define obj' where "obj' = obj\<lparr>o_Spec := (o_Spec obj)\<lparr>spec_ExpiresAt := Time_Add now (ri_TTLSeconds inp * Second)\<rparr>\<rparr>"
    have stored: "objs w (ri_Name inp) = Some obj" "o_Name obj = ri_Name inp" using get_stored(2)[OF laws g x] by auto
    then have "objs w (o_Name obj') = Some obj" by (simp add: obj'_def)
    from object_laws_Update[OF laws this] obtain x' w2 where u: "cl_Update C obj' w = (Inr x', w2)" "objs w2 = (objs w)(ri_Name inp \<mapsto> x')"
      using stored by (auto simp: obj'_def)
    with call g owner w1 x own have "w' = w \<or> w' = w2"
      by (auto simp: Renew_def obj'_def Let_def split: option.splits if_splits)
    with u stored own show ?thesis by (auto intro: keeps_foreign_refl keeps_foreign_at[of "ri_Name inp"])
  qed
qed

lemma Delete_keeps_foreign:
  assumes laws: "object_laws C objs" "delete_laws C objs" and owner: "callerDigest ctx = Inr owner" and call: "Delete C ctx n w = (r, w')"
  shows "keeps_foreign objs owner w w'"
proof -
  obtain x w1 where g: "cl_Get C n w = (x, w1)" by (metis surj_pair)
  have w1: "w1 = w" using get_stored(1)[OF laws(1) g] .
  show ?thesis
  proof (cases "\<exists>obj. x = Inr obj \<and> ownedBy obj owner")
    case False
    with call g owner w1 have "w' = w"
      by (auto simp: Delete_def split: option.splits sum.splits if_splits)
    then show ?thesis by (simp add: keeps_foreign_refl)
  next
    case True
    then obtain obj where x: "x = Inr obj" and own: "ownedBy obj owner" by blast
    have stored: "objs w n = Some obj" "o_Name obj = n" using get_stored(2)[OF laws(1) g x] by auto
    from call g owner w1 x own have "w' = w \<or> w' = snd (cl_Delete C obj w)"
      by (auto simp: Delete_def split: option.splits if_splits prod.splits)
    with laws(2) stored own show ?thesis by (auto simp: delete_laws_def intro: keeps_foreign_refl keeps_foreign_at[of n])
  qed
qed

lemma reads_keep:
  assumes laws: "object_laws C objs"
  shows "Get am C ctx n w = (r, w') \<Longrightarrow> w' = w" and "Service_List am C ctx w = (r', w') \<Longrightarrow> w' = w"
  using get_stored(1)[OF laws] object_laws_List[OF laws, of w]
  by (auto simp: Get_def Service_List_def split: option.splits sum.splits if_splits prod.splits)

lemma runTool_state:
  assumes "runTool json inp operation w = (r, w')"
  obtains "w' = w" | i x where "operation i w = (x, w')"
  using assms by (auto simp: runTool_def split: option.splits prod.splits sum.splits)

lemma dispatch_keeps_foreign:
  assumes laws: "object_laws C objs" "delete_laws C objs" and owner: "callerDigest ctx = Inr owner"
    and call: "dispatch L C ctx tool arguments w = (r, w')"
  shows "keeps_foreign objs owner w w'"
  using call unfolding dispatch_def
  by (auto split: if_splits elim!: runTool_state simp: keeps_foreign_refl
      dest: reads_keep[OF laws(1)] intro: Create_keeps_foreign[OF laws(1) owner] Renew_keeps_foreign[OF laws(1) owner]
        Delete_keeps_foreign[OF laws owner])

text \<open>C28: whatever tool and arguments a lifecycle call through the connector names, it leaves every Oubliette that does not belong to the caller behind the host-held
  token unchanged; when a TokenReview of the token does not vouch for a caller, it leaves them all.\<close>

theorem lifecycle_leaves_foreign_alone:
  assumes r: "kb_Resolver b = Some (Resolve (Some create) audience)" and h: "kb_Host b = Some host" "kb_Token b = Some readToken"
    and laws: "object_laws (kh_Objects host) objs" "delete_laws (kh_Objects host) objs"
    and reads: "\<And>w. objs (snd (readToken w)) = objs w" and reviews: "\<And>t a w. objs (snd (create t a w)) = objs w"
    and call: "KubernetesBackend_Lifecycle L b tool arguments w = (res, w')"
    and obj: "objs w n = Some obj" and foreign: "\<And>token caller w1. readToken w = (Some token, w1) \<Longrightarrow>
      reviewed create audience w1 (TrimSpace token) caller \<Longrightarrow> \<not> ownedBy obj (digestOf caller)"
  shows "objs w' n = Some obj"
proof -
  obtain who w1 where t: "tokenCaller readToken (Resolve (Some create) audience) w = (who, w1)" by (metis surj_pair)
  have "objs (snd (Resolve (Some create) audience tok v)) = objs v" for tok v
    using reviews[of tok "[audience]" v] by (auto simp: Resolve_def split: prod.splits sum.splits)
  with t have w1: "objs w1 = objs w" using reads[of w]
    by (auto simp: tokenCaller_def split: prod.splits option.splits sum.splits if_splits) (metis snd_conv)+
  show ?thesis
  proof (cases who)
    case None
    with call t r h w1 obj show ?thesis by (auto simp: KubernetesBackend_Lifecycle_def)
  next
    case (Some caller)
    from kube.tokenCaller_vouched[OF t[unfolded Some]] foreign have no: "\<not> ownedBy obj (digestOf caller)" by blast
    have "caller \<noteq> ''''" using t Some by (auto simp: tokenCaller_def split: prod.splits option.splits sum.splits if_splits)
    then have own: "callerDigest (WithCaller None caller) = Inr (digestOf caller)" by (simp add: WithCaller_def callerDigest_Some)
    from call t r h Some have "dispatch L (kh_Objects host) (WithCaller None caller) tool arguments w1 = (res, w')"
      by (simp add: KubernetesBackend_Lifecycle_def)
    from dispatch_keeps_foreign[OF laws own this] obj no w1 show ?thesis by (simp add: keeps_foreign_def)
  qed
qed

section \<open>An instance\<close>

text \<open>One Oubliette of alice, ready; the host token is reviewed as alice's.\<close>

definition ready_oub :: Oubliette where
  "ready_oub = \<lparr>o_Name = ''a'', o_UID = ''uid'', o_Generation = 1, o_Annotations = Some [CallerDigestAnnotation \<mapsto> digestOf ''alice''],
     o_DeletionTimestamp = None, o_Finalizers = [], o_Spec = \<lparr>spec_Tier = ''stub'', spec_ExpiresAt = 3600000000000\<rparr>,
     o_Status = zeroStatus\<lparr>st_ObservedGeneration := 1, st_HostNamespace := ''oub-a'',
       st_Conditions := [\<lparr>c_Type = ConditionReady, c_Status = ConditionTrue, c_ObservedGeneration = 1, c_LastTransitionTime = 0,
         c_Reason = ''Ready'', c_Message = ''''\<rparr>]\<rparr>\<rparr>"

definition alice_review :: "'w review_client" where
  "alice_review token auds w = (Inr \<lparr>tr_Authenticated = (token = ''t''), tr_Username = ''alice'', tr_Audiences = auds\<rparr>, w)"

definition demo_service :: Service where
  "demo_service = \<lparr>sv_Selector = [''app'' \<mapsto> ''vcluster'', ''release'' \<mapsto> ''a''],
     sv_Ports = [\<lparr>sp_Port = 443, sp_Protocol = ''TCP'', sp_TargetPort = IntVal 8443\<rparr>]\<rparr>"

definition demo_pod :: Pod where
  "demo_pod = \<lparr>pd_Name = ''a-0'', pd_Namespace = ''oub-a'', pd_Labels = [''app'' \<mapsto> ''vcluster'', ''release'' \<mapsto> ''a''],
     pd_DeletionTimestamp = None, pd_Phase = ''Running'', pd_Conditions = [(''Ready'', ''True'')], pd_Containers = []\<rparr>"

definition demo_kubeconfig :: Kubeconfig where
  "demo_kubeconfig = NewConfig\<lparr>kc_CurrentContext := ''x'', kc_Clusters := [''c'' \<mapsto> zeroCluster\<lparr>ku_CertificateAuthorityData := ''ca''\<rparr>],
     kc_AuthInfos := [''u'' \<mapsto> zeroAuthInfo\<lparr>ai_Token := ''admin''\<rparr>],
     kc_Contexts := [''x'' \<mapsto> \<lparr>cx_Cluster = ''c'', cx_AuthInfo = ''u'', cx_Namespace = ''''\<rparr>]\<rparr>"

definition demo_kube_host :: "Oubliette list kube_host" where
  "demo_kube_host = \<lparr>kh_Objects = memclient, kh_GetSecret = (\<lambda>_ _ w. (Inr [''config'' \<mapsto> ''k''], w)),
     kh_GetService = (\<lambda>_ _ w. (Inr demo_service, w)), kh_ListPods = (\<lambda>_ _ w. (Inr [demo_pod], w))\<rparr>"

definition demo_lib :: "Oubliette list connlib" where
  "demo_lib = \<lparr>kl_Meta = listmeta, kl_Now = (\<lambda>_. 0), kl_IsDNS1123Label = (\<lambda>_. []), kl_Load = (\<lambda>_. Some demo_kubeconfig),
     kl_Write = (\<lambda>c. map_option ai_Token (kc_AuthInfos c ''agent'')), kl_NewForConfig = (\<lambda>_. True), kl_PodURL = (\<lambda>c n p. cf_Host c @ n @ p),
     kl_Transport = (\<lambda>_. True), kl_NewRequest = (\<lambda>_. True), kl_NewForwarder = (\<lambda>_ _ _. True),
     kl_Forward = (\<lambda>_ _ _ w. (Forwarding (Some [40000]), w)), kl_Stop = (\<lambda>w. w),
     kl_CreateToken = (\<lambda>_ _ _ _ w. (Inr \<lparr>tq_Token = ''sa'', tq_ExpirationTimestamp = 600000000000\<rparr>, w))\<rparr>"

definition demo_kb :: "Oubliette list KubernetesBackend" where
  "demo_kb = \<lparr>kb_Host = Some demo_kube_host, kb_Config = Some (zeroConfig\<lparr>cf_Host := ''https://host''\<rparr>),
     kb_Resolver = Some (Resolve (Some alice_review) DefaultAudience), kb_Token = Some (\<lambda>w. (Some ''t'', w)), kb_Name = ''a''\<rparr>"

definition alice_lease :: Lease where
  "alice_lease = \<lparr>le_Name = ''a'', le_Namespace = ''oub-a'', le_Caller = ''alice'', le_UID = ''uid'', le_ExpiresAt = 3600000000000\<rparr>"

lemma demo_token: "tokenCaller (\<lambda>w. (Some ''t'', w)) (Resolve (Some alice_review) DefaultAudience) w = (Some ''alice'', w)"
proof -
  have "TrimSpace ''t'' = ''t''" by code_simp
  then show ?thesis by (simp add: tokenCaller_def Resolve_def alice_review_def DefaultAudience_def)
qed

lemma demo_check: "Check demo_lib demo_kb [ready_oub] = (Inr alice_lease, [ready_oub])"
proof -
  have "cl_Get memclient ''a'' [ready_oub] = (Inr ready_oub, [ready_oub])" by (simp add: memclient_def mem_find_def ready_oub_def)
  moreover have "authorize listmeta ready_oub ''alice'' 0 = Inr alice_lease"
    by (simp add: authorize_def ready_oub_def alice_lease_def listmeta_def annotation_def mapGet_def optIsZero_def zeroStatus_def condition_names)
  ultimately show ?thesis by (simp add: Check_def demo_kb_def demo_kube_host_def demo_lib_def demo_token)
qed

definition alice_connection :: kubernetesConnection where
  "alice_connection = \<lparr>kn_config = zeroConfig\<lparr>cf_Host := ''https://127.0.0.1:'' @ nat_digits 40000, cf_Timeout := 10 * Second, cf_BearerToken := ''admin'',
     cf_ServerName := ''a.oub-a'', cf_CAData := ''ca''\<rparr>, kn_cancelled = False\<rparr>"

lemma demo_open: "Open demo_lib demo_kb alice_lease [ready_oub] = (Inr alice_connection, [ready_oub])"
proof -
  have "openConnection demo_lib demo_kube_host (zeroConfig\<lparr>cf_Host := ''https://host''\<rparr>) alice_lease [ready_oub] = (Inr alice_connection, [ready_oub])"
    by (simp add: openConnection_def openTunnel_def portForwardURL_def forwardTransport_def HasPrefix_def bootstrapConfig_def
        demo_kube_host_def demo_lib_def demo_service_def demo_pod_def alice_lease_def alice_connection_def mapGet_def demo_kubeconfig_def
        NewConfig_def zeroCluster_def zeroAuthInfo_def controlPlanePod_def podReady_def optIsZero_def targetPort_def zeroConfig_def del: nat_digits.simps)
  moreover have "kb_Host demo_kb = Some demo_kube_host" "kb_Config demo_kb = Some (zeroConfig\<lparr>cf_Host := ''https://host''\<rparr>)"
    by (simp_all add: demo_kb_def)
  ultimately show ?thesis by (simp add: Open_def demo_check)
qed

theorem open_reaches_control_plane_witness:
  "\<exists>w0 pod. entitled (reviewed alice_review DefaultAudience) demo_lib demo_kb alice_lease [ready_oub] w0 \<and> endpoint alice_lease demo_service pod 8443"
proof -
  have h: "kb_Host demo_kb = Some demo_kube_host" "\<And>ns n w. kh_GetService demo_kube_host ns n w = (Inr demo_service, w)"
    by (simp_all add: demo_kb_def demo_kube_host_def)
  have port: "port = 8443" if "endpoint alice_lease demo_service pod port" for pod port using that by (simp add: endpoint_def demo_service_def)
  have "kb_Resolver demo_kb = Some (Resolve (Some alice_review) DefaultAudience)" by (simp add: demo_kb_def)
  from open_reaches_control_plane[OF this demo_open] obtain w0 w1 w2 host service pod port where
    o: "entitled (reviewed alice_review DefaultAudience) demo_lib demo_kb alice_lease [ready_oub] w0" "kb_Host demo_kb = Some host"
      "kh_GetService host (le_Namespace alice_lease) (le_Name alice_lease) w1 = (Inr service, w2)" "endpoint alice_lease service pod port" by blast
  then have "service = demo_service" using h by simp
  with o port show ?thesis by blast
qed

definition alice_conn :: "(Oubliette list \<times> kubernetesConnection option) Connection" where
  "alice_conn = \<lparr>cn_Issue = (\<lambda>s. (Inr \<lparr>cr_Kubeconfig = ''k'', cr_ExpiresAt = 600000000000\<rparr>, s)), cn_Close = (\<lambda>s. s)\<rparr>"

definition alice_rt :: "(Oubliette list \<times> kubernetesConnection option) runtime" where
  "alice_rt = \<lparr>rt_now = (\<lambda>_. 0), rt_ctxErr = (\<lambda>_ _. None), rt_NewTicker = (\<lambda>_ s. s), rt_select = (\<lambda>_ s. (Some Canceled, s))\<rparr>"

definition alice_sink :: "(Oubliette list \<times> kubernetesConnection option) Sink" where
  "alice_sink = \<lparr>sk_Write = (\<lambda>_ s. (None, s)), sk_Close = (\<lambda>s. (None, s))\<rparr>"

lemma demo_issues: "fst (issue alice_rt (kubernetesBackend demo_lib demo_kb) alice_sink alice_conn alice_lease ([ready_oub], None)) = Inr 300000000000"
proof -
  have "check alice_rt (kubernetesBackend demo_lib demo_kb) alice_lease ([ready_oub], None) = (None, ([ready_oub], None))"
    by (simp add: check_def kubernetesBackend_def demo_check alice_rt_def alice_lease_def)
  moreover have "Time_Add 0 (halve (Time_Sub 600000000000 0)) = 300000000000" "sint (Time_Sub 600000000000 0) = 600000000000" by code_simp+
  ultimately show ?thesis
    by (simp add: issue_def alice_conn_def alice_sink_def alice_rt_def Let_def go_defs)
qed

theorem session_serves_owner_witness:
  "\<exists>w1 t. entitled (reviewed alice_review DefaultAudience) demo_lib demo_kb (alice_lease\<lparr>le_ExpiresAt := t\<rparr>) [ready_oub] w1"
proof -
  have r: "kb_Resolver demo_kb = Some (Resolve (Some alice_review) DefaultAudience)" by (simp add: demo_kb_def)
  obtain s' where call: "issue alice_rt (kubernetesBackend demo_lib demo_kb) alice_sink alice_conn alice_lease ([ready_oub], None) = (Inr 300000000000, s')"
    using demo_issues by (metis prod.collapse)
  from session_serves_owner[OF r call] show ?thesis by blast
qed

theorem bootstrap_stays_private_witness:
  "fst (Connection_Issue demo_lib alice_connection []) = Inr \<lparr>cr_Kubeconfig = ''sa'', cr_ExpiresAt = 600000000000\<rparr> \<and>
   Connection_Issue demo_lib (alice_connection\<lparr>kn_config := (kn_config alice_connection)\<lparr>cf_BearerToken := ''other'', cf_CertData := ''c'', cf_KeyData := ''k''\<rparr>\<rparr>) []
     = Connection_Issue demo_lib alice_connection []"
proof -
  have i: "Connection_Issue demo_lib alice_connection [] = (Inr \<lparr>cr_Kubeconfig = ''sa'', cr_ExpiresAt = 600000000000\<rparr>,
    alice_connection\<lparr>kn_config := rotated (kn_config alice_connection) ''sa''\<rparr>, [])"
    by (simp add: Connection_Issue_def demo_lib_def agentConfig_def NewConfig_def zeroAuthInfo_def Let_def)
  show ?thesis
    using bootstrap_stays_private[where k = alice_connection and L = demo_lib and w = "[]" and w' = "[]" and bt = "''other''" and cd = "''c''" and kd = "''k''"
        and rq = "\<lparr>tq_Token = ''sa'', tq_ExpirationTimestamp = 600000000000\<rparr>", OF _ _ _ _ _ _ _ i] i
    by (simp add: demo_lib_def)
qed

lemma memclient_delete_laws: "delete_laws memclient mem_find"
  by (auto simp: delete_laws_def memclient_def mem_find_put mem_find_filter_other split: option.splits dest!: mem_find_name)

text \<open>Alice asks for the deletion of an Oubliette of somebody else.\<close>

theorem lifecycle_leaves_foreign_alone_witness:
  "mem_find (snd (KubernetesBackend_Lifecycle demo_lib demo_kb ''oubliette_delete'' ''{}'' [sample_obj])) ''demo'' = Some sample_obj"
proof -
  obtain res w' where call: "KubernetesBackend_Lifecycle demo_lib demo_kb ''oubliette_delete'' ''{}'' [sample_obj] = (res, w')" by (metis surj_pair)
  have "mem_find w' ''demo'' = Some sample_obj"
  proof (rule lifecycle_leaves_foreign_alone[OF _ _ _ _ _ _ _ call])
    show "kb_Resolver demo_kb = Some (Resolve (Some alice_review) DefaultAudience)" "kb_Host demo_kb = Some demo_kube_host"
      "kb_Token demo_kb = Some (\<lambda>w. (Some ''t'', w))" by (simp_all add: demo_kb_def)
    show "object_laws (kh_Objects demo_kube_host) mem_find" "delete_laws (kh_Objects demo_kube_host) mem_find"
      by (simp_all add: demo_kube_host_def memclient_laws memclient_delete_laws)
  qed (simp_all add: alice_review_def mem_find_def sample_obj_def sample_not_owned[unfolded sample_obj_def])
  with call show ?thesis by simp
qed

end
