(* ===== verification/Tools.thy ===== *)
theory Tools
  imports ConnectorKube EvidenceStore
begin

text \<open>
  The two command-line tools that run outside the cluster: \<open>cmd/evidence-export/main.go\<close>, which stores a directory of artifacts as a run bundle, and
  \<open>cmd/oub-connect/main.go\<close>, which runs a connector session with the private file sink or one lifecycle call. Flags come parsed; the client
  libraries, the system's table of media types and the decoder of the run are parameters.
\<close>

section \<open>Walking a directory\<close>

text \<open>\<open>os.Lstat\<close> and \<open>os.ReadDir\<close>, as far as the walk reads them.\<close>

definition os_Lstat :: "path \<Rightarrow> entry call" where
  "os_Lstat p = sys (inDir p (\<lambda>d. (case entryAt d p of None \<Rightarrow> Inl NotExist | Some e \<Rightarrow> Inr e, d)))"

definition os_ReadDir :: "path \<Rightarrow> unit call" where
  "os_ReadDir p = sys (inDir p (\<lambda>d. (case entryAt d p of None \<Rightarrow> Inl NotExist | Some (File _) \<Rightarrow> Inl NotDir | Some Dir \<Rightarrow> Inr (), d)))"

text \<open>\<open>filepath.WalkDir\<close> reads each directory in the order of names and visits a directory before its contents: the paths below the root
  in the lexicographic order of their components, the root first.\<close>

definition walkOrder :: "path \<Rightarrow> disk \<Rightarrow> path list" where
  "walkOrder root d = root # sort_key (\<lambda>p. rev (snd p)) (filter (\<lambda>p. below root p \<and> p \<noteq> root) (remdups (map fst (d_list d))))"

text \<open>\<open>filepath.Rel\<close> of a path below the root, and \<open>filepath.Ext\<close> of its last component.\<close>

definition path_Rel :: "path \<Rightarrow> path \<Rightarrow> string" where
  "path_Rel root p = (let cs = take (length (snd p) - length (snd root)) (snd p) in if cs = [] then ''.'' else Join (rev cs) ''/'')"

definition path_Ext :: "path \<Rightarrow> string" where
  "path_Ext p = (case snd p of [] \<Rightarrow> '''' | c # _ \<Rightarrow> if CHR ''.'' \<in> set c then CHR ''.'' # last (Split c (CHR ''.'')) else '''')"

section \<open>The evidence export\<close>

definition artifactAt :: "(string \<Rightarrow> string) \<Rightarrow> path \<Rightarrow> path \<Rightarrow> string \<Rightarrow> InputArtifact" where
  "artifactAt TypeByExtension root p data =
     (let mediaType = TypeByExtension (path_Ext p);
          mediaType' = (if mediaType = '''' then ''application/octet-stream'' else mediaType) in
      \<lparr>ia_Name = path_Rel root p, ia_MediaType = hd (Split mediaType' (CHR '';'')), ia_Data = data\<rparr>)"

text \<open>The callback on one path, and the reading of the directory that follows it. The entry of the root carries what its \<open>Lstat\<close> found.\<close>

definition visitPath :: "(string \<Rightarrow> string) \<Rightarrow> path \<Rightarrow> path \<Rightarrow> InputArtifact list call" where
  "visitPath mt root p d =
     (case entryAt d p of
        None \<Rightarrow> (Inl NotExist, d)
      | Some Dir \<Rightarrow> (case os_ReadDir p d of (Inl e, d1) \<Rightarrow> (Inl e, d1) | (Inr _, d1) \<Rightarrow> (Inr [], d1))
      | Some (File b) \<Rightarrow>
          (case (if p = root then (Inr (File b), d) else os_Lstat p d) of
             (Inl e, d1) \<Rightarrow> (Inl e, d1)
           | (Inr _, d1) \<Rightarrow>
               (case os_ReadFile p d1 of
                  (Inl e, d2) \<Rightarrow> (Inl e, d2)
                | (Inr data, d2) \<Rightarrow> (Inr [artifactAt mt root p data], d2))))"

fun visitPaths :: "(string \<Rightarrow> string) \<Rightarrow> path \<Rightarrow> path list \<Rightarrow> InputArtifact list call" where
  "visitPaths mt root [] d = (Inr [], d)"
| "visitPaths mt root (p # ps) d =
     (case visitPath mt root p d of
        (Inl e, d1) \<Rightarrow> (Inl e, d1)
      | (Inr xs, d1) \<Rightarrow> (case visitPaths mt root ps d1 of (Inl e, d2) \<Rightarrow> (Inl e, d2) | (Inr ys, d2) \<Rightarrow> (Inr (xs @ ys), d2)))"

definition readArtifacts :: "(string \<Rightarrow> string) \<Rightarrow> path \<Rightarrow> InputArtifact list call" where
  "readArtifacts mt root d =
     (case os_Lstat root d of
        (Inl e, d1) \<Rightarrow> (Inl e, d1)
      | (Inr _, d1) \<Rightarrow> visitPaths mt root (walkOrder root d1) d1)"

datatype export_fatal = FlagsRequired | ExportIo os_err | RunUndecodable | BundleRefused evidence_err | StoreRefused store_err

definition exportMain ::
  "yaml \<Rightarrow> (string \<Rightarrow> Run option) \<Rightarrow> (string \<Rightarrow> string) \<Rightarrow> ((string \<times> string) list \<Rightarrow> (string \<times> string) list) \<Rightarrow>
   string \<Rightarrow> string \<Rightarrow> string \<Rightarrow> disk \<Rightarrow> (export_fatal + string \<times> path) \<times> disk" where
  "exportMain Y Unmarshal mt order storeRoot runPath artifactsRoot d =
     (if storeRoot = '''' \<or> runPath = '''' \<or> artifactsRoot = '''' then (Inl FlagsRequired, d)
      else (case os_ReadFile (filePath runPath) d of
        (Inl e, d1) \<Rightarrow> (Inl (ExportIo e), d1)
      | (Inr runBytes, d1) \<Rightarrow>
          (case Unmarshal runBytes of
             None \<Rightarrow> (Inl RunUndecodable, d1)
           | Some run \<Rightarrow>
               (case readArtifacts mt (filePath artifactsRoot) d1 of
                  (Inl e, d2) \<Rightarrow> (Inl (ExportIo e), d2)
                | (Inr inputs, d2) \<Rightarrow>
                    (case BuildRunBundle Y run inputs of
                       Inl e \<Rightarrow> (Inl (BundleRefused e), d2)
                     | Inr bundle \<Rightarrow>
                         (case Put order (\<lambda>_. False) \<lparr>ds_Root = storeRoot\<rparr> bundle d2 of
                            (Inl e, d3) \<Rightarrow> (Inl (StoreRefused e), d3)
                          | (Inr location, d3) \<Rightarrow> (Inr (mf_BundleDigest (bu_Manifest bundle), location), d3)))))))"

section \<open>Everything below the directory is exported\<close>

lemma Lstat_effect: "os_Lstat p d = (res, d') \<Longrightarrow> d_entries d' = d_entries d \<and> d_list d' = d_list d"
  by (auto simp: os_Lstat_def sys_def inDir_def tick_def d_entries_def split: option.splits)

lemma ReadDir_effect: "os_ReadDir p d = (res, d') \<Longrightarrow> d_entries d' = d_entries d"
  by (auto simp: os_ReadDir_def sys_def inDir_def split: option.splits)

definition fileAt :: "disk \<Rightarrow> path \<Rightarrow> string option" where
  "fileAt d p = (case entryAt d p of Some (File b) \<Rightarrow> Some b | _ \<Rightarrow> None)"

lemma entryAt_cong: "d_entries d' = d_entries d \<Longrightarrow> entryAt d' = entryAt d"
  by (simp add: entryAt_def fun_eq_iff)

lemma fileAt_cong: "d_entries d' = d_entries d \<Longrightarrow> fileAt d' = fileAt d"
  by (rule ext) (simp add: fileAt_def entryAt_def)

lemma ReadFile_fileAt:
  assumes "os_ReadFile p d = (Inr b, d')"
  shows "fileAt d p = Some b \<and> d_entries d' = d_entries d"
  using assms by (auto simp: os_ReadFile_def sys_def inDir_def fileAt_def split: option.splits entry.splits)

lemma visitPath_effect:
  assumes "visitPath mt root p d = (res, d')"
  shows "d_entries d' = d_entries d \<and> (\<forall>xs. res = Inr xs \<longrightarrow> xs = (case fileAt d p of Some b \<Rightarrow> [artifactAt mt root p b] | None \<Rightarrow> []))"
proof (cases "entryAt d p")
  case None
  then show ?thesis using assms by (auto simp: visitPath_def)
next
  case (Some e)
  show ?thesis
  proof (cases e)
    case Dir
    with Some assms show ?thesis by (auto simp: visitPath_def fileAt_def split: prod.splits sum.splits dest: ReadDir_effect)
  next
    case (File b)
    obtain r1 d1 where one: "(if p = root then (Inr (File b), d) else os_Lstat p d) = (r1, d1)" by fastforce
    obtain r2 d2 where two: "os_ReadFile p d1 = (r2, d2)" by fastforce
    have e1: "d_entries d1 = d_entries d" using one Lstat_effect by (auto split: if_splits)
    have e2: "d_entries d2 = d_entries d" using ReadFile_effect(1)[OF two] e1 by simp
    have call: "(case r1 of Inl e \<Rightarrow> (Inl e, d1) | Inr _ \<Rightarrow> (case r2 of Inl e \<Rightarrow> (Inl e, d2) | Inr data \<Rightarrow> (Inr [artifactAt mt root p data], d2))) = (res, d')"
      using assms Some File one two by (simp add: visitPath_def split: sum.splits)
    have read: "fileAt d p = Some data" if "r2 = Inr data" for data
      using ReadFile_fileAt[of p d1 data d2] two that fileAt_cong[OF e1] by simp
    show ?thesis using call e1 e2 read by (auto split: sum.splits)
  qed
qed

text \<open>The artifacts read are those of the files on the way, in its order.\<close>

lemma visitPaths_effect:
  "visitPaths mt root ps d = (res, d') \<Longrightarrow> d_entries d' = d_entries d \<and>
     (\<forall>xs. res = Inr xs \<longrightarrow> set xs = {artifactAt mt root p b |p b. p \<in> set ps \<and> fileAt d p = Some b})"
proof (induction ps arbitrary: d res d')
  case (Cons p ps)
  obtain r1 d1 where one: "visitPath mt root p d = (r1, d1)" by fastforce
  obtain r2 d2 where rest: "visitPaths mt root ps d1 = (r2, d2)" by fastforce
  have e1: "d_entries d1 = d_entries d" using visitPath_effect[OF one] by blast
  note e2 = Cons.IH[OF rest]
  show ?case
  proof (cases "\<exists>xs ys. r1 = Inr xs \<and> r2 = Inr ys")
    case True
    then obtain xs ys where r: "r1 = Inr xs" "r2 = Inr ys" by blast
    with Cons.prems one rest have "res = Inr (xs @ ys)" "d' = d2" by auto
    moreover have "set xs = {artifactAt mt root p b |b. fileAt d p = Some b}" 
      using visitPath_effect[OF one] r(1) by (auto split: option.splits)
    moreover have "set ys = {artifactAt mt root p b |p b. p \<in> set ps \<and> fileAt d p = Some b}" using e2 r(2) fileAt_cong[OF e1] by simp
    moreover have "set (xs @ ys) = set xs \<union> set ys" by simp
    moreover have "d_entries d2 = d_entries d" using e1 e2 by simp
    ultimately show ?thesis unfolding list.set by blast
  next
    case False
    then show ?thesis using Cons.prems one rest e1 e2 by (auto split: sum.splits)
  qed
qed simp

lemma set_walkOrder: "set (walkOrder root d) = insert root {p. below root p \<and> d_entries d p \<noteq> None}"
  by (auto simp: walkOrder_def d_entries_def map_of_eq_None_iff)

lemma readArtifacts_exact:
  assumes "readArtifacts mt root d = (Inr inputs, d')"
  shows "d_entries d' = d_entries d \<and> set inputs = {artifactAt mt root p b |p b. below root p \<and> fileAt d p = Some b}"
proof -
  from assms obtain e d1 where s: "os_Lstat root d = (Inr e, d1)" "visitPaths mt root (walkOrder root d1) d1 = (Inr inputs, d')"
    by (auto simp: readArtifacts_def split: prod.splits sum.splits)
  note l = Lstat_effect[OF s(1)] and v = visitPaths_effect[OF s(2)]
  have "p \<in> set (walkOrder root d1) \<and> fileAt d1 p = Some b \<longleftrightarrow> below root p \<and> fileAt d p = Some b" for p b
    using l fileAt_cong[of d1 d] by (auto simp: set_walkOrder fileAt_def entryAt_def split: if_splits option.splits entry.splits)
  then show ?thesis using l v by simp
qed

text \<open>An export that succeeds prints the digest of a bundle whose manifest lists exactly the files below the directory, by their relative names and
  with the SHA-256 and the size of their contents, every required artifact among them; the bundle's manifest is in the store, nothing that was on the
  disk has changed, and the run ID is reserved for the digest.\<close>

theorem exported_run_complete:
  assumes disk: "disk_ok d" and order: "\<And>fs. mset (order fs) = mset fs"
    and call: "exportMain Y Unmarshal mt order storeRoot runPath artifactsRoot d = (Inr (digest, location), d')"
  shows "\<exists>b. mf_BundleDigest (bu_Manifest b) = digest \<and>
    set (mf_Artifacts (bu_Manifest b)) = {artifactOf (artifactAt mt (filePath artifactsRoot) p x) |p x.
       below (filePath artifactsRoot) p \<and> fileAt d p = Some x} \<and>
    set requiredRunArtifacts \<subseteq> {path_Rel (filePath artifactsRoot) p |p. below (filePath artifactsRoot) p \<and> fileAt d p \<noteq> None} \<and>
    keeps d d' \<and> (ownManifest b \<longrightarrow> d_entries d' (manifestPath location) = Some (File (bu_ManifestBytes b))) \<and>
    (\<exists>i. d_entries d' (indexPath (filePath storeRoot) (run_RunID (mf_Run (bu_Manifest b)))) = Some (File i) \<and> TrimSpace i = digestHex b)"
proof -
  from call obtain runBytes d1 run inputs d2 b where
    r: "os_ReadFile (filePath runPath) d = (Inr runBytes, d1)" "readArtifacts mt (filePath artifactsRoot) d1 = (Inr inputs, d2)"
      "BuildRunBundle Y run inputs = Inr b" "Put order (\<lambda>_. False) \<lparr>ds_Root = storeRoot\<rparr> b d2 = (Inr location, d')"
      "mf_BundleDigest (bu_Manifest b) = digest"
    by (auto simp: exportMain_def split: if_splits prod.splits sum.splits option.splits)
  have e1: "d_entries d1 = d_entries d" using ReadFile_fileAt[OF r(1)] by simp
  note a = readArtifacts_exact[OF r(2)]
  have e2: "d_entries d2 = d_entries d" using a e1 by simp
  have acc: "acceptable order b" using BuildRunBundle_storable[OF r(3)] order by (simp add: acceptable_def)
  have ok2: "disk_ok d2" using disk disk_ok_cong[OF e2] by simp
  note p = Put_effect[OF ok2 acc r(4)]
  have keeps: "keeps d d'" using p(2) e2 by (simp add: keeps_def)
  have build: "Build Y run inputs = Inr b" and missing: "filter (\<lambda>r. r \<notin> set (map ia_Name inputs)) requiredRunArtifacts = []"
    using r(3) unfolding BuildRunBundle_def Let_def by (auto split: if_splits option.splits)
  have arts: "set (mf_Artifacts (bu_Manifest b)) = artifactOf ` set inputs" using build by (auto simp: Build_Inr Let_def)
  have inputs: "set inputs = {artifactAt mt (filePath artifactsRoot) p x |p x. below (filePath artifactsRoot) p \<and> fileAt d p = Some x}"
    using a fileAt_cong[OF e1] by simp
  have "set requiredRunArtifacts \<subseteq> ia_Name ` set inputs" using missing unfolding filter_empty_conv set_map by blast
  moreover have "ia_Name ` set inputs \<subseteq> {path_Rel (filePath artifactsRoot) p |p. below (filePath artifactsRoot) p \<and> fileAt d p \<noteq> None}"
  proof
    fix n
    assume "n \<in> ia_Name ` set inputs"
    then obtain p x where n: "n = ia_Name (artifactAt mt (filePath artifactsRoot) p x)" "below (filePath artifactsRoot) p" "fileAt d p = Some x"
      unfolding inputs by blast
    have "n = path_Rel (filePath artifactsRoot) p" unfolding n(1) by (simp add: artifactAt_def Let_def)
    with n(2,3) show "n \<in> {path_Rel (filePath artifactsRoot) p |p. below (filePath artifactsRoot) p \<and> fileAt d p \<noteq> None}" by blast
  qed
  ultimately have req: "set requiredRunArtifacts \<subseteq> {path_Rel (filePath artifactsRoot) p |p. below (filePath artifactsRoot) p \<and> fileAt d p \<noteq> None}"
    by (rule order_trans)
  have "set (mf_Artifacts (bu_Manifest b)) = {artifactOf (artifactAt mt (filePath artifactsRoot) p x) |p x.
      below (filePath artifactsRoot) p \<and> fileAt d p = Some x}" unfolding arts inputs by blast
  with r(5) req keeps p(4)[OF refl, THEN conjunct2] show ?thesis by (intro exI[of _ b]) simp
qed

section \<open>The connector command\<close>

record connect_flags =
  co_hostConfig :: string
  co_hostContext :: string
  co_tokenFile :: string
  co_lifecycleTool :: string
  co_output :: string
  co_Args :: "string list"

datatype connect_err = Usage | HostConfigUnloadable | SchemeUnavailable | HostClientUnavailable | ArgumentsUnreadable | LifecycleFailed lifecycle_err | StdoutFailed
  | SinkFailed conn_err | SessionFailed "conn_err list"

text \<open>What the command has around it: the loader of the host configuration from an explicit path and context, whether the scheme registers,
  the client made from a configuration with its TokenReview call, the mode of the token file, standard input and output, and the context that a signal cancels.\<close>

record 'h connect_env =
  ce_ClientConfig :: "string \<Rightarrow> string \<Rightarrow> Config option"
  ce_AddToScheme :: bool
  ce_NewClient :: "Config \<Rightarrow> (('h \<times> disk) kube_host \<times> ('h \<times> disk) review_client) option"
  ce_Library :: "('h \<times> disk) connlib"
  ce_Lstat :: "string \<Rightarrow> 'h \<times> disk \<Rightarrow> FileInfo option"
  ce_Stdin :: "string option"
  ce_Stdout :: "string \<Rightarrow> 'h \<times> disk \<Rightarrow> bool \<times> ('h \<times> disk)"
  ce_Runtime :: "(('h \<times> disk) \<times> kubernetesConnection option) runtime"
  ce_CtxErr :: "('h \<times> disk) \<times> kubernetesConnection option \<Rightarrow> ctx_err option"
  ce_Ready :: "('h \<times> disk) \<times> kubernetesConnection option \<Rightarrow> ('h \<times> disk) \<times> kubernetesConnection option"

text \<open>\<open>connector.ReadTokenFile\<close> on the disk: the contents are read only when the mode and the size are acceptable.\<close>

definition tokenReader :: "'h connect_env \<Rightarrow> string \<Rightarrow> 'h \<times> disk \<Rightarrow> string option \<times> ('h \<times> disk)" where
  "tokenReader ce tokenFile w =
     (let info = ce_Lstat ce tokenFile w in
      if ReadTokenFile info (Some '''') = Inl ErrDenied then (None, w)
      else (case onDisk (os_ReadFile (filePath tokenFile)) w of
        (Inl _, w1) \<Rightarrow> (None, w1)
      | (Inr b, w1) \<Rightarrow> (case ReadTokenFile info (Some b) of Inl _ \<Rightarrow> None | Inr token \<Rightarrow> Some token, w1)))"

text \<open>A sink beside the open connection.\<close>

definition besideConnection :: "'w Sink \<Rightarrow> ('w \<times> 'c) Sink" where
  "besideConnection k = \<lparr>sk_Write = (\<lambda>data (w, c). case sk_Write k data w of (x, w') \<Rightarrow> (x, (w', c))),
     sk_Close = (\<lambda>(w, c). case sk_Close k w of (x, w') \<Rightarrow> (x, (w', c)))\<rparr>"

definition usageOK :: "connect_flags \<Rightarrow> bool" where
  "usageOK fl \<longleftrightarrow> \<not> (co_hostConfig fl = '''' \<or> co_hostContext fl = '''' \<or> co_tokenFile fl = '''' \<or>
     (co_lifecycleTool fl = '''' \<and> (length (co_Args fl) \<noteq> 1 \<or> co_output fl = '''')) \<or>
     (co_lifecycleTool fl \<noteq> '''' \<and> (length (co_Args fl) \<noteq> 0 \<or> co_output fl \<noteq> '''')))"

definition backendOf ::
  "'h connect_env \<Rightarrow> connect_flags \<Rightarrow> ('h \<times> disk) kube_host \<times> ('h \<times> disk) review_client \<Rightarrow> Config option \<Rightarrow> string \<Rightarrow>
   ('h \<times> disk) KubernetesBackend" where
  "backendOf ce fl host config name = \<lparr>kb_Host = Some (fst host), kb_Config = config, kb_Resolver = Some (Resolve (Some (snd host)) DefaultAudience),
     kb_Token = Some (tokenReader ce (co_tokenFile fl)), kb_Name = name\<rparr>"

definition sessionOf :: "'h connect_env \<Rightarrow> ('h \<times> disk) KubernetesBackend \<Rightarrow> FileSink \<Rightarrow> (('h \<times> disk) \<times> kubernetesConnection option) Session" where
  "sessionOf ce b k = \<lparr>ss_Backend = Some (kubernetesBackend (ce_Library ce) b), ss_Sink = Some (besideConnection (fileSink k)),
     ss_Ready = Some (ce_Ready ce), ss_PollInterval = 0\<rparr>"

definition runLifecycle ::
  "'h connect_env \<Rightarrow> connect_flags \<Rightarrow> ('h \<times> disk) kube_host \<times> ('h \<times> disk) review_client \<Rightarrow> 'h \<times> disk \<Rightarrow> connect_err option \<times> ('h \<times> disk)" where
  "runLifecycle ce fl host w =
     (case ce_Stdin ce of
        None \<Rightarrow> (Some ArgumentsUnreadable, w)
      | Some stdin \<Rightarrow>
          (case KubernetesBackend_Lifecycle (ce_Library ce) (backendOf ce fl host None '''') (co_lifecycleTool fl) (take 65537 stdin) w of
             (Inl e, w1) \<Rightarrow> (Some (LifecycleFailed e), w1)
           | (Inr result, w1) \<Rightarrow>
               (case ce_Stdout ce (result @ [CHR 0x0A]) w1 of (ok, w2) \<Rightarrow> (if ok then None else Some StdoutFailed, w2))))"

text \<open>The whole command, with the rounds of its session bounded by \<open>n\<close>.\<close>

definition connectRun ::
  "nat \<Rightarrow> 'h connect_env \<Rightarrow> connect_flags \<Rightarrow> 'h \<times> disk \<Rightarrow> (connect_err option \<times> (('h \<times> disk) \<times> kubernetesConnection option)) option" where
  "connectRun n ce fl w =
     (if \<not> usageOK fl then Some (Some Usage, (w, None))
      else (case ce_ClientConfig ce (co_hostConfig fl) (co_hostContext fl) of
        None \<Rightarrow> Some (Some HostConfigUnloadable, (w, None))
      | Some loaded \<Rightarrow>
          let config = loaded\<lparr>cf_Timeout := 10 * Second\<rparr> in
          if \<not> ce_AddToScheme ce then Some (Some SchemeUnavailable, (w, None))
          else (case ce_NewClient ce config of
             None \<Rightarrow> Some (Some HostClientUnavailable, (w, None))
           | Some host \<Rightarrow>
               if co_lifecycleTool fl \<noteq> '''' then (case runLifecycle ce fl host w of (e, w1) \<Rightarrow> Some (e, (w1, None)))
               else (case onDisk (NewFileSink (co_output fl)) w of
                 (Inl e, w1) \<Rightarrow> Some (Some (SinkFailed e), (w1, None))
               | (Inr k, w1) \<Rightarrow>
                   (case Run n (ce_Runtime ce) (sessionOf ce (backendOf ce fl host (Some config) (hd (co_Args fl))) k) (w1, None) of
                      None \<Rightarrow> None
                    | Some (errs, s) \<Rightarrow>
                        Some (if errs = [CtxErr Canceled] \<and> ce_CtxErr ce s \<noteq> None then None else Some (SessionFailed errs), s))))))"

text \<open>The file sink keeps its contract beside the connection.\<close>

interpretation connectsink: credential_sink "besideConnection (fileSink k) :: (('h \<times> disk) \<times> 'c) Sink" "\<lambda>s. exposedFile k (fst s)" "\<lambda>s. sinkRemoved k (fst s)"
  for k :: FileSink
proof
  fix data :: string and s s' :: "('h \<times> disk) \<times> 'c" and r
  show "exposedFile k (fst s') = Some data" if "sk_Write (besideConnection (fileSink k)) data s = (None, s')"
    using that filesink.write_ok[of k data "fst s" "fst s'"] by (auto simp: besideConnection_def split: prod.splits)
  show "exposedFile k (fst s') = exposedFile k (fst s) \<or> exposedFile k (fst s') = Some data"
    if "sk_Write (besideConnection (fileSink k)) data s = (r, s')"
    using that filesink.write_atomic[of k data "fst s" r "fst s'"] by (auto simp: besideConnection_def split: prod.splits)
  show "sinkRemoved k (fst s')" if "sk_Close (besideConnection (fileSink k)) s = (None, s')"
    using that filesink.close_removes[of k "fst s" "fst s'"] by (auto simp: besideConnection_def split: prod.splits)
  show "exposedFile k (fst s) = None" if "sinkRemoved k (fst s)" using that by (rule filesink.removed_hides)
qed

text \<open>C30: a session of the connector command leaves no credential behind: unless the command reports a delivery error (or could not make its directory), the output directory
  was new and is gone afterwards with everything below it. It succeeds only when the session was cancelled from outside.\<close>

theorem connect_leaves_nothing:
  assumes call: "connectRun n ce fl w = Some (e, s')" and mode: "co_lifecycleTool fl = ''''"
    and e: "e = None \<or> (\<exists>errs. e = Some (SessionFailed errs) \<and> ErrDelivery \<notin> set errs)"
  shows "entryAt (snd w) (filePath (co_output fl)) = None \<and> (\<forall>x. below (filePath (co_output fl)) x \<longrightarrow> d_entries (snd (fst s')) x = None) \<and>
    (e = None \<longrightarrow> ce_CtxErr ce s' \<noteq> None)"
proof -
  from call mode e obtain config host k w1 errs where s: "onDisk (NewFileSink (co_output fl)) w = (Inr k, w1)"
    "Run n (ce_Runtime ce) (sessionOf ce (backendOf ce fl host (Some config) (hd (co_Args fl))) k) (w1, None) = Some (errs, s')"
    "e = (if errs = [CtxErr Canceled] \<and> ce_CtxErr ce s' \<noteq> None then None else Some (SessionFailed errs))"
    by (auto simp: connectRun_def Let_def split: if_splits option.splits prod.splits sum.splits)
  have k: "fs_directory k = filePath (co_output fl)" and new: "entryAt (snd w) (filePath (co_output fl)) = None"
    using s(1) by (auto simp: onDisk_def NewFileSink_def newEntry_def sys_def inDir_def split: if_splits option.splits prod.splits sum.splits)
  have "ErrDelivery \<notin> set errs" using e s(3) by (auto split: if_splits)
  then have "sinkRemoved k (fst s')"
    using connectsink.run_cleans[OF _ _ s(2)] by (simp add: sessionOf_def)
  then show ?thesis using new s(3) by (auto simp: sinkRemoved_def k split: if_splits)
qed

text \<open>A session whose token file is missing: its directory comes and goes.\<close>

definition refused :: "'a \<Rightarrow> (api_err + 'b) \<times> 'a" where "refused w = (Inl (NotFound ''''), w)"

definition silent_host :: "(unit \<times> disk) kube_host" where
  "silent_host = \<lparr>kh_Objects = \<lparr>cl_Get = (\<lambda>_. refused), cl_List = refused, cl_Create = (\<lambda>_. refused), cl_Update = (\<lambda>_. refused),
       cl_Delete = (\<lambda>_ w. (None, w)), cl_StatusPatch = (\<lambda>_ _. refused)\<rparr>,
     kh_GetSecret = (\<lambda>_ _. refused), kh_GetService = (\<lambda>_ _. refused), kh_ListPods = (\<lambda>_ _. refused)\<rparr>"

definition silent_lib :: "(unit \<times> disk) connlib" where
  "silent_lib = \<lparr>kl_Meta = listmeta, kl_Now = (\<lambda>_. 0), kl_IsDNS1123Label = (\<lambda>_. []), kl_Load = (\<lambda>_. None), kl_Write = (\<lambda>_. None),
     kl_NewForConfig = (\<lambda>_. True), kl_PodURL = (\<lambda>c n p. cf_Host c @ n @ p), kl_Transport = (\<lambda>_. True), kl_NewRequest = (\<lambda>_. True),
     kl_NewForwarder = (\<lambda>_ _ _. True), kl_Forward = (\<lambda>_ _ _ w. (ForwardEnded, w)), kl_Stop = (\<lambda>w. w), kl_CreateToken = (\<lambda>_ _ _ _. refused)\<rparr>"

definition silent_env :: "unit connect_env" where
  "silent_env = \<lparr>ce_ClientConfig = (\<lambda>_ _. Some zeroConfig), ce_AddToScheme = True, ce_NewClient = (\<lambda>_. Some (silent_host, alice_review)), ce_Library = silent_lib,
     ce_Lstat = (\<lambda>_ _. None), ce_Stdin = None, ce_Stdout = (\<lambda>_ w. (True, w)),
     ce_Runtime = \<lparr>rt_now = (\<lambda>_. 0), rt_ctxErr = (\<lambda>_ _. None), rt_NewTicker = (\<lambda>_ s. s), rt_select = (\<lambda>_ s. (Some Canceled, s))\<rparr>,
     ce_CtxErr = (\<lambda>_. None), ce_Ready = (\<lambda>s. s)\<rparr>"

definition connect_demo :: connect_flags where
  "connect_demo = \<lparr>co_hostConfig = ''h'', co_hostContext = ''c'', co_tokenFile = ''/t'', co_lifecycleTool = '''', co_output = ''/o'', co_Args = [''a'']\<rparr>"

theorem connect_leaves_nothing_witness:
  "\<exists>s'. connectRun 1 silent_env connect_demo ((), demo_disk (\<lambda>_. None)) = Some (Some (SessionFailed [ErrDenied]), s') \<and>
     d_entries (snd (fst s')) (True, [''o'']) = None"
proof -
  have "map_option fst (connectRun 1 silent_env connect_demo ((), demo_disk (\<lambda>_. None))) = Some (Some (SessionFailed [ErrDenied]))" by code_simp
  then obtain s' where r: "connectRun 1 silent_env connect_demo ((), demo_disk (\<lambda>_. None)) = Some (Some (SessionFailed [ErrDenied]), s')" by auto
  have o: "filePath (co_output connect_demo) = (True, [''o''])" by code_simp
  from connect_leaves_nothing[OF r] r show ?thesis unfolding o by (auto simp: connect_demo_def)
qed

end
