(* ===== verification/Spec2Isabelle.thy ===== *)
theory Spec2Isabelle
  imports Lifecycle McpAuth MetricsGateway MetricsAccess ControlPlane Observability Commands Tools
begin

text \<open>
  Verification of Oubliette.

  \<^bold>\<open>The program.\<close> An Oubliette is an expiring virtual Kubernetes cluster in a confined namespace of a host cluster. A caller creates, reads,
  renews and deletes Oubliettes through the lifecycle service, behind a bearer token that a TokenReview confirms. The controller turns each
  object into a namespace with quota and network policies and a vCluster release, hands a limited identity over inside the virtual cluster,
  publishes the status, and at the expiry exports pending evidence, removes release and namespace, and keeps a tombstone for a while. Workloads and
  agents read metrics only through the gateway, which pins every PromQL query to one Oubliette and one trust domain; credentials for it are
  signed tokens that the access issuer hands out. Evidence of a run is a bundle of artifacts with a manifest of digests, published once under
  its digest. The connector runs next to a trusted consumer: it holds a session on an Oubliette and keeps a short-lived kubeconfig in a private
  directory. The commands under \<open>cmd/\<close> assemble these parts from their flags.

  \<^bold>\<open>Conventions.\<close> A Go string is a byte list, \<open>int64\<close> and \<open>time.Duration\<close> are 64-bit words and wrap, an instant is an integer of
  nanoseconds, a map is a HOL map or an association list where its order shows. An operation takes the state it works on and returns it,
  with \<open>Inl\<close> or \<open>Some\<close> of an error for every error return of the code; the error types have one constructor per message. The clock is an
  argument or a function of the state. Code outside the repository is an argument: the API client (\<open>oub_client\<close>, \<open>cluster\<close>), the condition
  helpers (\<open>apimeta\<close>), the PromQL parser (\<open>promql\<close>), Helm and the client libraries, the YAML decoder; what a theorem wants of it is a
  hypothesis of the theorem. The definitions carry the names of the code.

  \<^bold>\<open>The theories.\<close>
  \<^item> \<open>Prelude\<close>, \<open>Regex\<close>, \<open>Sha256\<close>, \<open>Base64\<close>, \<open>Json\<close>, \<open>Http\<close>, \<open>Disk\<close> model what the sources use of the Go library: strings,
    durations, the RE2 fragment with its language, SHA-256 and HMAC, unpadded base64, the JSON encoder and decoder (with their round trip), requests and
    responses, and a file system any call of which may fail.
  \<^item> \<open>Kube\<close> has the custom resource of \<open>api/v1alpha1\<close>, the API client and an in-memory API server that serves the witnesses.
  \<^item> \<open>Lifecycle\<close>: \<open>internal/lifecycle/service.go\<close>. The stored objects refine an abstract ledger of leases (C11); a renewal only extends (C15).
  \<^item> \<open>McpAuth\<close>: \<open>internal/mcpauth/auth.go\<close>. The handler runs only for a reviewed caller (C39).
  \<^item> \<open>MetricsPolicy\<close>, \<open>MetricsToken\<close>, \<open>MetricsGateway\<close>: \<open>internal/metricsgateway\<close>. Tenant isolation of rewritten queries and the exact set
    of accepted ones (C2, C36), the token codec and the resolver (C18, C19), and the handler: what reaches the upstream and what comes back
    (C1, C9), and the quotas under any interleaving of requests (C8, C10).
  \<^item> \<open>MetricsAccess\<close>: \<open>internal/metricsaccess\<close>, the issuer with its sinks and its HTTP handler (C37, C38).
  \<^item> \<open>Profile\<close>, \<open>Boundary\<close>: \<open>internal/profile\<close> and \<open>internal/controller/resources.go\<close>. What a pass establishes (C35), read through the semantics of
    network policies: which connections a workload can make and receive (C3, C4).
  \<^item> \<open>VCluster\<close>: \<open>internal/vcluster/helm.go\<close>, the release values, the manager and the handoff (C23, C24).
  \<^item> \<open>Controller\<close>: \<open>oubliette_controller.go\<close> and \<open>metrics.go\<close>. Teardown completes once the failures on its way are over, expiry is noticed, tombstones
    stay, the published metrics status is exact (C5, C20, C21, C22).
  \<^item> \<open>ControlPlane\<close> interleaves passes, service calls and the host on one API server, as an inductive step relation: forgotten means gone in
    every reachable state (C6), and a failing pass returns its error and submits a report of it, which the API may refuse (C16).
  \<^item> \<open>Evidence\<close>, \<open>EvidenceStore\<close>: \<open>internal/evidence\<close>. Bundles are free of the credentials and Secret values that a separate reading of their bytes
    and documents finds (aliases apart), exact, independent of order and complete (C31 to C34); the store
    publishes atomically, once per run ID, and only grows (C12 to C14); evidence leaves before a teardown deletes anything (C7).
  \<^item> \<open>Connector\<close>, \<open>ConnectorKube\<close>: \<open>pkg/connector\<close>, the session, the file sink, the Kubernetes backend and its lifecycle calls (C25 to C29).
  \<^item> \<open>Observability\<close>: \<open>internal/observability\<close>, the exact set of covered scrape targets (C40).
  \<^item> \<open>Commands\<close>: the assembly in \<open>cmd/metrics-gateway\<close> and \<open>cmd/controller\<close>; a credential of a started gateway opens that gateway (C17).
  \<^item> \<open>Tools\<close>: \<open>cmd/evidence-export\<close> and \<open>cmd/oub-connect\<close>; a connector command leaves no credential behind (C30), an export covers every file
    below its directory.

  \<^bold>\<open>Interfaces.\<close> Where one component relies on another through an interface of the code, the contract is a locale, interpreted on the
  definitions that implement it: \<open>scope_resolver\<close> (gateway on the Kubernetes resolver), \<open>delivery_sink\<close> (issuer on the Secret sink and on the capturing sink of the
  handler), \<open>caller_resolver\<close> (middleware and connector on the TokenReview resolver), \<open>vcluster_manager\<close> (controller on the Helm
  manager), \<open>evidence_exporter\<close> and \<open>teardown_host\<close> (teardown on the Helm manager and the ConfigMap exporter), \<open>credential_sink\<close> (session on the file
  sink, alone and in the command).

  \<^bold>\<open>Fuel and bounds.\<close> The session's loop takes a number of rounds; as many as poll intervals fit into the lease are enough, and the session is over
  at the lease's expiry but for the calls then under way (C29). The JSON
  parser gets two units per byte of its input plus two; whatever any fuel parses, that much parses. Trimming a string runs once
  per byte at most. Temporary names are tried ten thousand times, as in the Go library. The nesting of JSON is bounded as in \<open>encoding/json\<close>. Everything else is total by structural
  recursion or a termination proof. Durations, token times and sample counts keep their machine width; where the code's products and sums
  wrap, a theorem shows an input on which they do.

  \<^bold>\<open>Findings.\<close> Each of these has a theorem beside the component: checks of lifetimes that wrap (\<open>validateTTL_wraps\<close>, \<open>issue_lifetime_wraps\<close>,
  \<open>access_ttl_wraps\<close>, \<open>subquery_lookback_wraps\<close>), an upgrade of the release in every pass (\<open>numeric_identity_always_upgrades\<close>), a renewed Oubliette that
  stays expiring (\<open>renewed_stays_expiring\<close>), an egress policy that outlives its profile (\<open>metrics_egress_survives_disable\<close>), a Secret behind a YAML
  alias and an artifact called \<open>manifest.json\<close> that are accepted (\<open>alias_secret_accepted\<close>, \<open>manifest_name_accepted\<close>, \<open>manifest_artifact_breaks_store\<close>), a run ID lost
  to a failed write (\<open>failed_write_burns_run_id\<close>), target keys that collide (\<open>slash_confuses_targets\<close>) and a controller that starts with a metrics
  profile it cannot publish (\<open>prefixless_controller_fails\<close>).

  \<^bold>\<open>Not modelled.\<close> The SPDY transport below the connector's port forward (\<open>sessionConn\<close>, \<open>contextDialer\<close>, \<open>ownStreamConnection\<close>), which only wraps
  sockets of the forwarding library; the float conversions of the gateway's times and durations and \<open>url.Parse\<close>, which are
  parameters; flag parsing, HTTP servers and multiplexers, the controller manager and signal handling in the commands; \<open>cmd/mcp\<close>, which registers the modelled
  operations with the MCP library, and \<open>cmd/oub\<close>, a command-line client of it; the scheme registration and the generated deep
  copies of the API package. On the disk, symbolic links, permissions and other writers are left out; a file's mode is a parameter where the code
  reads it. Requests to one gateway interleave at the quota's lock, passes and service calls at the API server; that a
  pass or a service call is one atomic step there, and that its reads see what is stored, is an assumption, since status patches carry no resource version and the
  manager's client reads through a cache.
\<close>

end
